(* ===== verification/Prelude.thy ===== *)
theory Prelude
  imports Main "HOL-Library.Multiset"
begin

text \<open>
  The prelude of the development: the Go error values every component returns, the type of a
  call on the Kubernetes API, and the generic list, option and association-list facts the
  component theories share.

  A Go function that returns \<open>(T, error)\<close> becomes a function into \<open>go_error + T\<close>, with
  \<^term>\<open>Inl\<close> for the error. A Go error carries its text, because the controllers inspect the
  text of some errors (\<open>strings.Contains(err.Error(), ...)\<close>), and the API status reason that
  \<open>apierrors.IsNotFound\<close> and its kin look for through \<open>%w\<close> wrapping.
\<close>

named_theorems go_defs \<open>unfolding equations of small Go helpers\<close>
named_theorems frame \<open>what an operation leaves unchanged\<close>

section \<open>Errors\<close>

datatype status_reason = ReasonUnknown | ReasonNotFound | ReasonAlreadyExists | ReasonConflict

record go_error =
  err_msg :: string
  err_reason :: status_reason

type_synonym 'a result = "go_error + 'a"

text \<open>\<open>fmt.Errorf\<close> without and with the \<open>%w\<close> verb at the end of the format.\<close>

definition errorf :: "string \<Rightarrow> go_error" where
  "errorf msg = \<lparr>err_msg = msg, err_reason = ReasonUnknown\<rparr>"

definition errorf_w :: "string \<Rightarrow> go_error \<Rightarrow> go_error" where
  "errorf_w pre e = \<lparr>err_msg = pre @ err_msg e, err_reason = err_reason e\<rparr>"

definition IsNotFound :: "go_error \<Rightarrow> bool" where
  "IsNotFound e \<longleftrightarrow> err_reason e = ReasonNotFound"

definition IsAlreadyExists :: "go_error \<Rightarrow> bool" where
  "IsAlreadyExists e \<longleftrightarrow> err_reason e = ReasonAlreadyExists"

definition IsConflict :: "go_error \<Rightarrow> bool" where
  "IsConflict e \<longleftrightarrow> err_reason e = ReasonConflict"

lemma errorf_w_reason [simp]: "err_reason (errorf_w p e) = err_reason e"
  by (simp add: errorf_w_def)

lemma errorf_reason [simp]: "err_reason (errorf m) = ReasonUnknown"
  by (simp add: errorf_def)

lemma errorf_msg [simp]: "err_msg (errorf m) = m"
  by (simp add: errorf_def)

lemma errorf_w_msg [simp]: "err_msg (errorf_w p e) = p @ err_msg e"
  by (simp add: errorf_w_def)

lemma IsNotFound_errorf_w [simp]: "IsNotFound (errorf_w p e) = IsNotFound e"
  by (simp add: IsNotFound_def)

lemma IsNotFound_errorf [simp]: "\<not> IsNotFound (errorf m)"
  by (simp add: IsNotFound_def)

section \<open>Calls on the outside world\<close>

text \<open>
  A call on the API server, the object store or the clock takes the world and returns its
  result with the world after the call. The world is a type variable throughout: what the
  API server does is a parameter of the model.
\<close>

type_synonym ('w, 'a) io = "'w \<Rightarrow> 'a result \<times> 'w"

definition returnR :: "'a \<Rightarrow> ('w, 'a) io" where
  "returnR x w = (Inr x, w)"

definition failR :: "go_error \<Rightarrow> ('w, 'a) io" where
  "failR e w = (Inl e, w)"

text \<open>The Go idiom \<open>x, err := call(); if err != nil { return err }\<close>.\<close>

definition bindR :: "('w, 'a) io \<Rightarrow> ('a \<Rightarrow> ('w, 'b) io) \<Rightarrow> ('w, 'b) io" where
  "bindR m f w = (case m w of (Inl e, w1) \<Rightarrow> (Inl e, w1) | (Inr x, w1) \<Rightarrow> f x w1)"

lemma bindR_return [simp]: "bindR (returnR x) f = f x"
  by (rule ext) (simp add: bindR_def returnR_def)

lemma bindR_fail [simp]: "bindR (failR e) f = failR e"
  by (rule ext) (simp add: bindR_def failR_def)

lemma bindR_Inr [simp]: "m w = (Inr x, w1) \<Longrightarrow> bindR m f w = f x w1"
  by (simp add: bindR_def)

lemma bindR_Inl [simp]: "m w = (Inl e, w1) \<Longrightarrow> bindR m f w = (Inl e, w1)"
  by (simp add: bindR_def)

lemma bindR_InrE:
  assumes "bindR m f w = (Inr y, w2)"
  obtains x w1 where "m w = (Inr x, w1)" and "f x w1 = (Inr y, w2)"
  using assms by (auto simp: bindR_def split: prod.splits sum.splits)

lemma returnR_simp [simp]: "returnR x w = (Inr x, w)"
  by (simp add: returnR_def)

lemma failR_simp [simp]: "failR e w = (Inl e, w)"
  by (simp add: failR_def)

text \<open>A loop over a slice that stops at the first error.\<close>

fun foldR :: "('a \<Rightarrow> 'b \<Rightarrow> ('w, 'b) io) \<Rightarrow> 'a list \<Rightarrow> 'b \<Rightarrow> ('w, 'b) io" where
  "foldR f [] b = returnR b"
| "foldR f (x # xs) b = bindR (f x b) (foldR f xs)"

section \<open>Lists\<close>

text \<open>A run of consecutive indices, and its image under \<open>mod\<close> of the run's length.\<close>

lemma mod_eq_in_run:
  fixes u v n k :: nat
  assumes "u \<le> v" and "u mod n = v mod n" and "v < k + n" and "k \<le> u"
  shows "u = v"
proof -
  have "n dvd v - u" using assms(1,2) by (metis mod_eq_dvd_iff_nat)
  moreover have "v - u < n" using assms by linarith
  ultimately have "v - u = 0" using nat_dvd_not_less by blast
  with assms(1) show ?thesis by simp
qed

lemma mod_upt_distinct: "distinct (map (\<lambda>i. i mod n) [k..<k + n])"
proof -
  have "inj_on (\<lambda>i. i mod n) {k..<k + n}"
  proof (rule inj_onI)
    fix x y
    assume xy: "x \<in> {k..<k + n}" "y \<in> {k..<k + n}" and eq: "x mod n = y mod n"
    show "x = y"
    proof (cases "x \<le> y")
      case True
      then show ?thesis by (rule mod_eq_in_run [of _ _ n k]) (use xy eq in simp_all)
    next
      case False
      then have "y \<le> x" by simp
      then have "y = x" by (rule mod_eq_in_run [of _ _ n k]) (use xy eq in simp_all)
      then show ?thesis by simp
    qed
  qed
  then show ?thesis by (simp add: distinct_map)
qed

lemma length_filter_upd:
  assumes "i < length xs"
  shows "length (filter P (xs[i := y])) + (if P (xs ! i) then 1 else 0)
       = length (filter P xs) + (if P y then 1 else 0)"
  using assms
proof (induction xs arbitrary: i)
  case Nil
  then show ?case by simp
next
  case (Cons x xs)
  show ?case
  proof (cases i)
    case 0
    then show ?thesis by simp
  next
    case (Suc j)
    with Cons.prems have "j < length xs" by simp
    from Cons.IH [OF this] Suc show ?thesis by simp
  qed
qed

lemma map_of_map_pair: "map_of (map (\<lambda>x. (f x, x)) xs) k = find (\<lambda>x. f x = k) xs"
  by (induction xs) auto

lemma find_Some_in: "find P xs = Some x \<Longrightarrow> x \<in> set xs \<and> P x"
  by (induction xs) (auto split: if_splits)

end
