(* ===== verification/Go_Strings.thy ===== *)
theory Go_Strings
  imports Prelude "HOL-Library.Sublist"
begin

text \<open>
  Go strings and the functions of the packages \<open>strings\<close> and \<open>regexp\<close> the program uses. A Go
  string is a sequence of bytes, here a \<^typ>\<open>string\<close> whose characters are the bytes; a
  \<open>for ... range\<close> loop, a conversion to \<open>[]rune\<close> and a regular expression read it as UTF-8, where a
  byte that starts no valid encoding counts as the rune U+FFFD. Runes are natural numbers.
\<close>

type_synonym rune = nat

definition byte :: "char \<Rightarrow> nat" where
  "byte c = of_char c"

definition chr :: "nat \<Rightarrow> char" where
  "chr n = char_of n"

lemma byte_chr [simp]: "n < 256 \<Longrightarrow> byte (chr n) = n"
  by (simp add: byte_def chr_def)

lemma chr_byte [simp]: "chr (byte c) = c"
  by (simp add: byte_def chr_def)

lemma byte_less [simp]: "byte c < 256"
  by (simp add: byte_def)

section \<open>UTF-8\<close>

definition cont_byte :: "nat \<Rightarrow> bool" where
  "cont_byte b \<longleftrightarrow> 128 \<le> b \<and> b < 192"

definition rune_error :: rune where
  "rune_error = 65533"

text \<open>\<open>utf8.DecodeRuneInString\<close>: the first rune and the number of bytes it takes.\<close>

fun decode_rune :: "nat list \<Rightarrow> rune \<times> nat" where
  "decode_rune [] = (rune_error, 0)"
| "decode_rune (a # bs) =
    (if a < 128 then (a, 1)
     else case bs of
       [] \<Rightarrow> (rune_error, 1)
     | b # cs \<Rightarrow>
        if 194 \<le> a \<and> a < 224 \<and> cont_byte b then ((a - 192) * 64 + (b - 128), 2)
        else (case cs of
          [] \<Rightarrow> (rune_error, 1)
        | c # ds \<Rightarrow>
           if 224 \<le> a \<and> a < 240 \<and> cont_byte b \<and> cont_byte c
              \<and> (a = 224 \<longrightarrow> 160 \<le> b) \<and> (a = 237 \<longrightarrow> b < 160)
           then ((a - 224) * 4096 + (b - 128) * 64 + (c - 128), 3)
           else (case ds of
             [] \<Rightarrow> (rune_error, 1)
           | d # _ \<Rightarrow>
              if 240 \<le> a \<and> a < 245 \<and> cont_byte b \<and> cont_byte c \<and> cont_byte d
                 \<and> (a = 240 \<longrightarrow> 144 \<le> b) \<and> (a = 244 \<longrightarrow> b < 144)
              then ((a - 240) * 262144 + (b - 128) * 4096 + (c - 128) * 64 + (d - 128), 4)
              else (rune_error, 1))))"

lemma decode_rune_width: "bs \<noteq> [] \<Longrightarrow> 1 \<le> snd (decode_rune bs) \<and> snd (decode_rune bs) \<le> length bs"
  by (cases bs) (auto split: list.splits)

text \<open>The runes of a string, \<open>[]rune(s)\<close>.\<close>

function runes_of :: "nat list \<Rightarrow> rune list" where
  "runes_of bs = (if bs = [] then []
     else fst (decode_rune bs) # runes_of (drop (snd (decode_rune bs)) bs))"
  by pat_completeness auto
termination
proof (relation "measure length")
  fix bs :: "nat list"
  assume "bs \<noteq> []"
  then show "(drop (snd (decode_rune bs)) bs, bs) \<in> measure length"
    using decode_rune_width [of bs] by (cases bs) (auto simp del: decode_rune.simps)
qed simp

declare runes_of.simps [simp del]

lemma runes_of_Nil [simp]: "runes_of [] = []"
  by (simp add: runes_of.simps)

definition runes :: "string \<Rightarrow> rune list" where
  "runes s = runes_of (map byte s)"

lemma length_runes_of: "length (runes_of bs) \<le> length bs"
proof (induction bs rule: runes_of.induct)
  case (1 bs)
  show ?case
  proof (cases "bs = []")
    case False
    then have "runes_of bs = fst (decode_rune bs) # runes_of (drop (snd (decode_rune bs)) bs)"
      by (subst runes_of.simps) simp
    then show ?thesis
      using 1 [OF False] decode_rune_width [OF False] by simp linarith
  qed simp
qed

lemma length_runes: "length (runes s) \<le> length s"
  using length_runes_of [of "map byte s"] by (simp add: runes_def)

text \<open>\<open>utf8.AppendRune\<close>; runes that are not valid code points are written as U+FFFD.\<close>

definition valid_rune :: "rune \<Rightarrow> bool" where
  "valid_rune r \<longleftrightarrow> r < 55296 \<or> 57344 \<le> r \<and> r < 1114112"

definition encode_bytes :: "rune \<Rightarrow> nat list" where
  "encode_bytes r =
    (if r < 128 then [r]
     else if r < 2048 then [192 + r div 64, 128 + r mod 64]
     else if \<not> valid_rune r then [239, 191, 189]
     else if r < 65536 then [224 + r div 4096, 128 + r div 64 mod 64, 128 + r mod 64]
     else [240 + r div 262144, 128 + r div 4096 mod 64, 128 + r div 64 mod 64, 128 + r mod 64])"

definition encode_rune :: "rune \<Rightarrow> string" where
  "encode_rune r = map chr (encode_bytes r)"

text \<open>A conversion \<open>string(rs)\<close> of a rune slice.\<close>

definition of_runes :: "rune list \<Rightarrow> string" where
  "of_runes rs = concat (map encode_rune rs)"

lemma encode_bytes_nonempty [simp]: "encode_bytes r \<noteq> []"
  by (simp add: encode_bytes_def)

lemma encode_bytes_byte: "b \<in> set (encode_bytes r) \<Longrightarrow> b < 256"
  by (auto simp: encode_bytes_def valid_rune_def split: if_splits)

lemma split3:
  "r div 4096 * 4096 + r div 64 mod 64 * 64 + r mod 64 = r \<and> r div 64 mod 64 < 64 \<and> r mod 64 < (64::nat)"
proof -
  have "r div 4096 = r div 64 div 64" by (simp add: div_mult2_eq [symmetric])
  then show ?thesis
    using div_mult_mod_eq [of r 64] div_mult_mod_eq [of "r div 64" 64]
    by (intro conjI) (linarith, simp_all)
qed

lemma split4:
  "r div 262144 * 262144 + r div 4096 mod 64 * 4096 + r div 64 mod 64 * 64 + r mod 64 = r
   \<and> r div 4096 mod 64 < 64 \<and> r div 64 mod 64 < 64 \<and> r mod 64 < (64::nat)"
proof -
  have "r div 262144 = r div 4096 div 64" by (simp add: div_mult2_eq [symmetric])
  then show ?thesis
    using split3 [of r, THEN conjunct1] div_mult_mod_eq [of "r div 4096" 64]
    by (intro conjI) (linarith, simp_all)
qed

text \<open>Decoding reads back what encoding wrote, whatever follows it.\<close>

lemma decode_encode:
  assumes "valid_rune r"
  shows "decode_rune (encode_bytes r @ bs) = (r, length (encode_bytes r))"
proof -
  have max: "r < 1114112" using assms by (auto simp: valid_rune_def)
  consider "r < 128" | "128 \<le> r" "r < 2048" | "2048 \<le> r" "r < 65536" | "65536 \<le> r" "r < 1114112"
    using max by linarith
  then show ?thesis
  proof cases
    case 1
    then show ?thesis by (simp add: encode_bytes_def)
  next
    case 2
    then have "2 \<le> r div 64" "r div 64 < 32" by auto
    with 2 show ?thesis by (simp add: encode_bytes_def cont_byte_def)
  next
    case 3
    have sur: "r < 55296 \<or> 57344 \<le> r" using assms 3 by (auto simp: valid_rune_def)
    note split3 [of r]
    moreover from this have "r div 4096 < 16" using 3 by linarith
    moreover have "32 \<le> r div 64 mod 64" if "r div 4096 = 0" using split3 [of r] that 3 by linarith
    moreover have "r div 64 mod 64 < 32" if "r div 4096 = 13" using split3 [of r] that sur by linarith
    ultimately show ?thesis using 3 assms by (auto simp: encode_bytes_def cont_byte_def)
  next
    case 4
    note split4 [of r]
    moreover from this have "r div 262144 < 5" using 4 by linarith
    moreover have "16 \<le> r div 4096 mod 64" if "r div 262144 = 0" using split4 [of r] that 4 by linarith
    moreover have "r div 4096 mod 64 < 16" if "r div 262144 = 4" using split4 [of r] that 4 by linarith
    ultimately show ?thesis using 4 assms by (auto simp: encode_bytes_def cont_byte_def)
  qed
qed

lemma runes_of_encode:
  assumes "\<forall>r\<in>set rs. valid_rune r"
  shows "runes_of (concat (map encode_bytes rs)) = rs"
  using assms
proof (induction rs)
  case (Cons r rs)
  then have "decode_rune (encode_bytes r @ concat (map encode_bytes rs)) = (r, length (encode_bytes r))"
    by (simp add: decode_encode)
  then show ?case using Cons by (subst runes_of.simps) simp
qed simp

lemma runes_of_runes:
  assumes "\<forall>r\<in>set rs. valid_rune r"
  shows "runes (of_runes rs) = rs"
proof -
  have "map byte (of_runes rs) = concat (map encode_bytes rs)"
    unfolding of_runes_def
  proof (induction rs)
    case (Cons r rs)
    have "map (byte \<circ> chr) (encode_bytes r) = encode_bytes r"
      by (rule map_idI) (simp add: encode_bytes_byte)
    with Cons show ?case by (simp add: encode_rune_def)
  qed simp
  then show ?thesis using runes_of_encode [OF assms] by (simp add: runes_def)
qed

lemma valid_rune_error: "valid_rune rune_error"
  by (simp add: rune_error_def valid_rune_def)

lemma decode_rune_valid: "valid_rune (fst (decode_rune bs))"
proof (cases bs)
  case (Cons a cs)
  have three: "valid_rune ((a - 224) * 4096 + (b - 128) * 64 + (c - 128))"
    if "224 \<le> a" "a < 240" "cont_byte b" "cont_byte c" "a = 237 \<longrightarrow> b < 160" for b c
  proof (cases "a \<le> 237")
    case True
    then have "(a - 224) * 4096 + (b - 128) * 64 + (c - 128) < 55296"
      using that unfolding cont_byte_def by (cases "a = 237") auto
    then show ?thesis by (simp add: valid_rune_def)
  next
    case False
    then have "14 \<le> a - 224" "a - 224 < 16" using that by auto
    then show ?thesis using that by (auto simp: valid_rune_def cont_byte_def)
  qed
  have four: "valid_rune ((a - 240) * 262144 + (b - 128) * 4096 + (c - 128) * 64 + (d - 128))"
    if "240 \<le> a" "a < 245" "cont_byte b" "cont_byte c" "cont_byte d"
      "a = 240 \<longrightarrow> 144 \<le> b" "a = 244 \<longrightarrow> b < 144" for b c d
    using that by (cases "a = 240"; cases "a = 244") (auto simp: valid_rune_def cont_byte_def)
  have two: "valid_rune ((a - 192) * 64 + (b - 128))" if "a < 224" "cont_byte b" for b
    using that by (auto simp: valid_rune_def cont_byte_def)
  show ?thesis unfolding Cons
    by (auto split: list.splits simp: valid_rune_def [of a] valid_rune_error two three four)
qed (simp add: valid_rune_error)

lemma runes_of_valid: "r \<in> set (runes_of bs) \<Longrightarrow> valid_rune r"
proof (induction bs rule: runes_of.induct)
  case (1 bs)
  then show ?case
    by (cases "bs = []") (auto simp: runes_of.simps [of bs] decode_rune_valid)
qed

lemma runes_valid: "r \<in> set (runes s) \<Longrightarrow> valid_rune r"
  unfolding runes_def by (rule runes_of_valid)

text \<open>On ASCII strings the runes are the bytes.\<close>

lemma runes_ascii:
  assumes "\<forall>c\<in>set s. byte c < 128"
  shows "runes s = map byte s"
  using assms
proof (induction s)
  case (Cons c s)
  then have "decode_rune (map byte (c # s)) = (byte c, 1)" by simp
  then show ?case using Cons unfolding runes_def by (subst runes_of.simps) simp
qed (simp add: runes_def)

text \<open>An ASCII byte is never part of a longer encoding, so it splits the runes of a string.\<close>

lemma decode_rune_ascii_after:
  assumes "bs \<noteq> []" and "a < 128"
  shows "decode_rune (bs @ a # cs) = decode_rune bs"
proof -
  have na: "\<not> cont_byte a" using assms(2) by (simp add: cont_byte_def)
  consider x where "bs = [x]" | x y where "bs = [x, y]" | x y z where "bs = [x, y, z]"
    | w x y z zs where "bs = w # x # y # z # zs"
    using assms(1) by (metis neq_Nil_conv)
  then show ?thesis by cases (auto simp: na split: list.splits)
qed

lemma runes_of_split:
  assumes "a < 128"
  shows "runes_of (bs @ a # cs) = runes_of bs @ a # runes_of cs"
proof (induction bs rule: runes_of.induct)
  case (1 bs)
  show ?case
  proof (cases "bs = []")
    case True
    then show ?thesis using assms by (subst runes_of.simps) simp
  next
    case False
    note d = decode_rune_ascii_after [OF False assms, of cs]
    have w: "snd (decode_rune bs) \<le> length bs" using decode_rune_width [OF False] by simp
    have "runes_of (bs @ a # cs) =
        fst (decode_rune bs) # runes_of (drop (snd (decode_rune bs)) bs @ a # cs)"
      using d w by (subst runes_of.simps) simp
    also have "\<dots> = runes_of bs @ a # runes_of cs"
      using 1 [OF False] False by (simp add: runes_of.simps [of bs])
    finally show ?thesis .
  qed
qed

section \<open>Package \<open>strings\<close>\<close>

text \<open>
  \<open>strings.ToLower\<close>. Besides the letters A to Z, two runes have an ASCII lower case: the Kelvin
  sign U+212A and the dotted capital I U+0130. Any other non-ASCII rune keeps being non-ASCII; the
  model leaves it as it is.
\<close>

definition rune_lower :: "rune \<Rightarrow> rune" where
  "rune_lower r = (if 65 \<le> r \<and> r \<le> 90 then r + 32
     else if r = 8490 then 107 else if r = 304 then 105 else r)"

definition toLower :: "string \<Rightarrow> string" where
  "toLower s = of_runes (map rune_lower (runes s))"

text \<open>\<open>regexp.MustCompile(`[^a-z0-9-]`).ReplaceAllString(s, "-")\<close>\<close>

definition dns_byte :: "nat \<Rightarrow> bool" where
  "dns_byte r \<longleftrightarrow> 97 \<le> r \<and> r \<le> 122 \<or> 48 \<le> r \<and> r \<le> 57 \<or> r = 45"

definition replaceInvalid :: "string \<Rightarrow> string" where
  "replaceInvalid s = map (\<lambda>r. if dns_byte r then chr r else CHR ''-'') (runes s)"

text \<open>\<open>strings.Trim\<close>, \<open>strings.TrimRight\<close>, \<open>strings.TrimLeft\<close> with a one-byte cutset\<close>

definition trimLeft :: "char \<Rightarrow> string \<Rightarrow> string" where
  "trimLeft c s = dropWhile ((=) c) s"

definition trimRight :: "char \<Rightarrow> string \<Rightarrow> string" where
  "trimRight c s = rev (dropWhile ((=) c) (rev s))"

definition trim :: "char \<Rightarrow> string \<Rightarrow> string" where
  "trim c s = trimRight c (trimLeft c s)"

fun join :: "string list \<Rightarrow> string \<Rightarrow> string" where
  "join [] sep = []"
| "join [s] sep = s"
| "join (s # t # ss) sep = s @ sep @ join (t # ss) sep"

definition hasPrefix :: "string \<Rightarrow> string \<Rightarrow> bool" where
  "hasPrefix s p \<longleftrightarrow> take (length p) s = p"

definition hasSuffix :: "string \<Rightarrow> string \<Rightarrow> bool" where
  "hasSuffix s p \<longleftrightarrow> hasPrefix (rev s) (rev p)"

fun containsStr :: "string \<Rightarrow> string \<Rightarrow> bool" where
  "containsStr [] p = (p = [])"
| "containsStr (c # s) p = (hasPrefix (c # s) p \<or> containsStr s p)"

subsection \<open>Facts\<close>

definition dns_char :: "char \<Rightarrow> bool" where
  "dns_char c = dns_byte (byte c)"

lemma hasPrefix_iff: "hasPrefix s p \<longleftrightarrow> (\<exists>t. s = p @ t)"
  unfolding hasPrefix_def by (metis append_take_drop_id append_eq_conv_conj)

lemma containsStr_iff: "containsStr s p \<longleftrightarrow> sublist p s"
proof (induction s)
  case (Cons c s)
  then show ?case by (auto simp: hasPrefix_iff sublist_Cons_right prefix_def)
qed simp

lemma dns_byte_byte: "dns_byte r \<Longrightarrow> byte (chr r) = r"
  by (auto simp: dns_byte_def)

lemma dns_char_dash [simp]: "dns_char CHR ''-''"
  by (simp add: dns_char_def byte_def dns_byte_def)

lemma replaceInvalid_chars: "c \<in> set (replaceInvalid s) \<Longrightarrow> dns_char c"
  by (auto simp: replaceInvalid_def dns_char_def dns_byte_byte split: if_splits)
     (simp_all add: byte_def dns_byte_def)

lemma rune_lower_valid: "valid_rune r \<Longrightarrow> valid_rune (rune_lower r)"
  by (auto simp: valid_rune_def rune_lower_def)

lemma runes_toLower: "runes (toLower s) = map rune_lower (runes s)"
  unfolding toLower_def by (rule runes_of_runes) (auto simp: rune_lower_valid runes_valid)

lemma length_sanitize: "length (replaceInvalid (toLower s)) \<le> length s"
  using length_runes [of s] by (simp add: replaceInvalid_def runes_toLower)

lemma trimLeft_set: "set (trimLeft c s) \<subseteq> set s"
  by (auto simp: trimLeft_def dest: set_dropWhileD)

lemma trimRight_set: "set (trimRight c s) \<subseteq> set s"
  by (auto simp: trimRight_def dest: set_dropWhileD)

lemma trim_set: "set (trim c s) \<subseteq> set s"
  using trimLeft_set trimRight_set unfolding trim_def by fast

lemma trimRight_decomp: "\<exists>n. s = trimRight c s @ replicate n c"
proof -
  have "rev s = takeWhile ((=) c) (rev s) @ dropWhile ((=) c) (rev s)" by simp
  moreover have "takeWhile ((=) c) (rev s) = replicate (length (takeWhile ((=) c) (rev s))) c"
    by (rule replicate_eqI) (auto dest: set_takeWhileD)
  ultimately have "s = trimRight c s @ rev (replicate (length (takeWhile ((=) c) (rev s))) c)"
    unfolding trimRight_def by (metis rev_append rev_rev_ident)
  then show ?thesis by auto
qed

lemma trimRight_length: "length (trimRight c s) \<le> length s"
  using trimRight_decomp [of s c] by (metis length_append le_add1)

lemma trimRight_last: "trimRight c s \<noteq> [] \<Longrightarrow> last (trimRight c s) \<noteq> c"
  using hd_dropWhile [of "(=) c" "rev s"] by (auto simp: trimRight_def last_rev)

lemma trimRight_hd: "trimRight c s \<noteq> [] \<Longrightarrow> hd (trimRight c s) = hd s"
  using trimRight_decomp [of s c] by (metis hd_append2)

lemma trim_last: "trim c s \<noteq> [] \<Longrightarrow> last (trim c s) \<noteq> c"
  by (simp add: trim_def trimRight_last)

lemma trimLeft_hd: "trimLeft c s \<noteq> [] \<Longrightarrow> hd (trimLeft c s) \<noteq> c"
  using hd_dropWhile [of "(=) c" s] by (auto simp: trimLeft_def)

lemma trim_hd: "trim c s \<noteq> [] \<Longrightarrow> hd (trim c s) \<noteq> c"
  using trimRight_hd [of c "trimLeft c s"] trimLeft_hd [of c s] trimRight_length [of c "trimLeft c s"]
  unfolding trim_def by force

lemma trim_length: "length (trim c s) \<le> length s"
  using trimRight_length [of c "trimLeft c s"] length_dropWhile_le [of "(=) c" s]
  unfolding trim_def trimLeft_def by linarith

end
