(* ===== verification/Kube.thy ===== *)
theory Kube
  imports Go_Strings "HOL-Library.AList"
begin

text \<open>
  The constants of package \<open>constant\<close> and the parts of the Kubernetes and Velero object types the
  program reads and writes: object metadata, secrets and Velero backups. String maps (labels,
  annotations, secret data) are association lists read with \<^const>\<open>map_of\<close>.
\<close>

type_synonym time = int
type_synonym strmap = "(string \<times> string) list"

section \<open>Constants\<close>

definition OadpLabel :: string where "OadpLabel = ''oadp.openshift.io/oadp-vm-file-restore''"
definition TrueString :: string where "TrueString = ''true''"
definition ManagedByLabel :: string where "ManagedByLabel = ''app.kubernetes.io/managed-by''"
definition ManagedByLabelValue :: string where "ManagedByLabelValue = ''oadp-vm-file-restore-controller''"
definition VMFROriginUUIDLabel :: string where "VMFROriginUUIDLabel = ''oadp.openshift.io/vmfr-origin-uuid''"
definition VMFRTempNamespaceLabel :: string where
  "VMFRTempNamespaceLabel = ''oadp.openshift.io/vmfr-temp-namespace''"
definition VMFRManagedCopyLabel :: string where
  "VMFRManagedCopyLabel = ''oadp.openshift.io/vmfr-managed-copy''"
definition CredentialTypeLabel :: string where "CredentialTypeLabel = ''oadp.openshift.io/credential-type''"
definition PVCUIDLabel :: string where "PVCUIDLabel = ''velero.kubevirt.io/pvc-uid''"
definition CredentialTypeSSH :: string where "CredentialTypeSSH = ''ssh''"
definition CredentialTypeFileBrowser :: string where "CredentialTypeFileBrowser = ''filebrowser''"
definition VMFROriginNameAnnotation :: string where
  "VMFROriginNameAnnotation = ''oadp.openshift.io/vmfr-origin-name''"
definition VMFROriginNamespaceAnnotation :: string where
  "VMFROriginNamespaceAnnotation = ''oadp.openshift.io/vmfr-origin-namespace''"
definition BackupNameAnnotation :: string where "BackupNameAnnotation = ''oadp.openshift.io/backup-name''"
definition VMFROriginalPVCNameAnnotation :: string where
  "VMFROriginalPVCNameAnnotation = ''oadp.openshift.io/vmfr-original-name''"
definition VeleroRestoreCleanupFinalizer :: string where
  "VeleroRestoreCleanupFinalizer = ''oadp.openshift.io/velero-restore-cleanup-finalizer''"
definition VMFileRestoreFinalizer :: string where
  "VMFileRestoreFinalizer = ''oadp.openshift.io/vm-file-restore-finalizer''"
definition BackupLevelFailurePVCName :: string where
  "BackupLevelFailurePVCName = ''backup-level-failure''"
definition DefaultUsername :: string where "DefaultUsername = ''oadp''"
definition DefaultMinimumPasswordLength :: nat where "DefaultMinimumPasswordLength = 12"
definition MaxBackupDiscoveryParallel :: nat where "MaxBackupDiscoveryParallel = 10"
definition BackupDiscoveryBatchSize :: nat where "BackupDiscoveryBatchSize = 3"
definition DefaultSSHPort :: nat where "DefaultSSHPort = 2222"
definition DefaultFileBrowserPort :: nat where "DefaultFileBrowserPort = 8443"

lemmas label_defs =
  OadpLabel_def TrueString_def ManagedByLabel_def ManagedByLabelValue_def VMFROriginUUIDLabel_def
  VMFRTempNamespaceLabel_def VMFRManagedCopyLabel_def CredentialTypeLabel_def PVCUIDLabel_def
  CredentialTypeSSH_def CredentialTypeFileBrowser_def VMFROriginNameAnnotation_def
  VMFROriginNamespaceAnnotation_def BackupNameAnnotation_def VMFROriginalPVCNameAnnotation_def

section \<open>Objects\<close>

text \<open>\<open>metav1.OwnerReference\<close>\<close>

record owner_ref =
  or_apiVersion :: string
  or_kind :: string
  or_name :: string
  or_uid :: string
  or_controller :: "bool option"
  or_blockOwnerDeletion :: "bool option"

text \<open>\<open>metav1.ObjectMeta\<close>\<close>

record object_meta =
  om_name :: string
  om_generateName :: string
  om_namespace :: string
  om_uid :: string
  om_generation :: int
  om_labels :: strmap
  om_annotations :: strmap
  om_finalizers :: "string list"
  om_creation :: time
  om_deletion :: "time option"
  om_owners :: "owner_ref list"

definition empty_meta :: object_meta where
  "empty_meta = \<lparr>om_name = [], om_generateName = [], om_namespace = [], om_uid = [], om_generation = 0,
     om_labels = [], om_annotations = [], om_finalizers = [], om_creation = 0, om_deletion = None,
     om_owners = []\<rparr>"

text \<open>\<open>types.NamespacedName\<close>\<close>

record namespaced_name =
  nn_namespace :: string
  nn_name :: string

definition key_of :: "object_meta \<Rightarrow> namespaced_name" where
  "key_of m = \<lparr>nn_namespace = om_namespace m, nn_name = om_name m\<rparr>"

text \<open>\<open>corev1.Secret\<close>; a nil \<open>Data\<close> is \<^const>\<open>None\<close>. The API server copies \<open>StringData\<close> into \<open>Data\<close>.\<close>

record secret =
  sec_meta :: object_meta
  sec_type :: string
  sec_stringData :: strmap
  sec_data :: "strmap option"

text \<open>The fields of \<open>velerov1.Backup\<close> the program reads. Go's \<open>int\<close> counters are integers in the
  range of 64-bit two's complement.\<close>

record backup =
  bk_meta :: object_meta
  bk_includedNamespaces :: "string list"
  bk_excludedNamespaces :: "string list"
  bk_storageLocation :: string
  bk_phase :: string
  bk_completion :: "time option"
  bk_attempted :: int
  bk_completed :: int
  bk_failed :: int

abbreviation bk_name :: "backup \<Rightarrow> string" where "bk_name b \<equiv> om_name (bk_meta b)"
abbreviation bk_namespace :: "backup \<Rightarrow> string" where "bk_namespace b \<equiv> om_namespace (bk_meta b)"

lemma key_of_simps [simp]: "nn_name (key_of m) = om_name m" "nn_namespace (key_of m) = om_namespace m"
  by (simp_all add: key_of_def)

end
