(* ===== verification/Common_Functions.thy ===== *)
theory Common_Functions
  imports Kube
begin

text \<open>
  Package \<open>function\<close> (\<open>internal/common/function/function.go\<close>): names of generated objects,
  credential secrets and their validation, and the timestamp of a backup. Loggers have no
  effect on the results and are left out. A slice expression out of range panics in Go; the one
  place where that can happen returns \<^const>\<open>None\<close>. The cryptographic library (key generation,
  key marshalling, the SSH key parser, the random source) is a parameter.
\<close>

section \<open>Names\<close>

definition HasVMFRLabel :: "object_meta \<Rightarrow> bool" where
  "HasVMFRLabel m \<longleftrightarrow> map_of (om_labels m) VMFROriginUUIDLabel \<noteq> None"

definition maxLength :: nat where "maxLength = 63"

definition sanitizeBase :: "string \<Rightarrow> string" where
  "sanitizeBase b = trim CHR ''-'' (replaceInvalid (toLower b))"

definition NormalizeDNS1123Label :: "string \<Rightarrow> string \<Rightarrow> string option" where
  "NormalizeDNS1123Label baseName0 sfx =
    (let baseName = sanitizeBase baseName0;
         normalizedName = (if baseName = [] then sfx else baseName @ ''-'' @ sfx)
     in if length normalizedName > maxLength then
          (let maxBaseNameLen = int maxLength - 1 - int (length sfx)
           in if maxBaseNameLen > 0 then
                (if nat maxBaseNameLen \<le> length baseName
                 then Some (trimRight CHR ''-'' (take (nat maxBaseNameLen) baseName) @ ''-'' @ sfx)
                 else None)
              else if maxLength \<le> length sfx then Some (take maxLength sfx) else None)
        else Some normalizedName)"

definition uidSuffix :: "string \<Rightarrow> string" where
  "uidSuffix uid = (if length uid \<ge> 8 then take 8 uid else uid @ replicate (8 - length uid) CHR ''0'')"

definition GenerateTemporaryVMFRNamespaceName :: "string \<Rightarrow> string \<Rightarrow> string \<Rightarrow> string \<Rightarrow> string" where
  "GenerateTemporaryVMFRNamespaceName pfx vmNamespace vmName uid =
    (let sfx = uidSuffix uid;
         nameParts = (if pfx \<noteq> [] then [pfx] else []) @ [vmNamespace, vmName] @ [sfx];
         name0 = join nameParts ''-'';
         name1 = (if length name0 > 63 then
                    (let maxPrefixLen = int 63 - int (length sfx) - 1
                     in if maxPrefixLen > 0 \<and> maxPrefixLen < int (length name0)
                        then take (nat maxPrefixLen) name0 @ ''-'' @ sfx
                        else sfx)
                  else name0)
     in trim CHR ''-'' (replaceInvalid (toLower name1)))"

definition GenerateVeleroRestorePrefix :: "string \<Rightarrow> string \<Rightarrow> string" where
  "GenerateVeleroRestorePrefix vmfrName backupName =
     toLower (''vmfr-'' @ vmfrName @ ''-'' @ backupName @ ''-'')"

section \<open>Credentials\<close>

record SSHKeyPair =
  PrivateKey :: string
  PublicKey :: string

record FileBrowserCredentials =
  Username :: string
  Password :: string

text \<open>
  The calls of \<open>GenerateSSHKeyPair\<close> on the cryptographic library: key generation, PKCS8
  marshalling, PEM encoding, conversion to an SSH key and its marshalling.
\<close>

record ('pub, 'priv, 'ssh) crypto =
  GenerateKey :: "('pub \<times> 'priv) result"
  MarshalPKCS8 :: "'priv \<Rightarrow> string result"
  PemEncode :: "string \<Rightarrow> string \<Rightarrow> string"
  NewPublicKey :: "'pub \<Rightarrow> 'ssh result"
  MarshalAuthorizedKey :: "'ssh \<Rightarrow> string"

definition GenerateSSHKeyPair :: "('pub, 'priv, 'ssh) crypto \<Rightarrow> SSHKeyPair result" where
  "GenerateSSHKeyPair cr = (case GenerateKey cr of
     Inl e \<Rightarrow> Inl (errorf_w ''failed to generate ED25519 keypair: '' e)
   | Inr (publicKey, privateKey) \<Rightarrow> (case MarshalPKCS8 cr privateKey of
       Inl e \<Rightarrow> Inl (errorf_w ''failed to marshal private key: '' e)
     | Inr privateKeyBytes \<Rightarrow>
         (let privateKeyStr = PemEncode cr ''PRIVATE KEY'' privateKeyBytes
          in case NewPublicKey cr publicKey of
            Inl e \<Rightarrow> Inl (errorf_w ''failed to convert public key to SSH format: '' e)
          | Inr sshPublicKey \<Rightarrow>
              Inr \<lparr>PrivateKey = privateKeyStr, PublicKey = MarshalAuthorizedKey cr sshPublicKey\<rparr>)))"

text \<open>\<open>base64.URLEncoding.EncodeToString\<close>, with padding\<close>

definition b64_char :: "nat \<Rightarrow> char" where
  "b64_char n = (if n < 26 then chr (65 + n) else if n < 52 then chr (71 + n)
     else if n < 62 then chr (n - 4) else if n = 62 then CHR ''-'' else CHR ''_'')"

fun base64url :: "nat list \<Rightarrow> string" where
  "base64url [] = []"
| "base64url [a] = [b64_char (a div 4), b64_char (a mod 4 * 16), CHR ''='', CHR ''='']"
| "base64url [a, b] = [b64_char (a div 4), b64_char (a mod 4 * 16 + b div 16),
     b64_char (b mod 16 * 4), CHR ''='']"
| "base64url (a # b # c # bs) = [b64_char (a div 4), b64_char (a mod 4 * 16 + b div 16),
     b64_char (b mod 16 * 4 + c div 64), b64_char (c mod 64)] @ base64url bs"

text \<open>\<open>rand.Read\<close> fills the 32-byte buffer or fails; the parameter is its outcome.\<close>

definition GenerateFileBrowserCredentials ::
    "nat list result \<Rightarrow> string \<Rightarrow> FileBrowserCredentials result" where
  "GenerateFileBrowserCredentials randRead username0 =
    (let username = (if username0 = [] then DefaultUsername else username0)
     in case randRead of
          Inl e \<Rightarrow> Inl (errorf_w ''failed to generate random password: '' e)
        | Inr passwordBytes \<Rightarrow> Inr \<lparr>Username = username, Password = base64url passwordBytes\<rparr>)"

definition credentialMeta ::
    "string \<Rightarrow> string \<Rightarrow> string \<Rightarrow> string \<Rightarrow> string \<Rightarrow> string \<Rightarrow> object_meta" where
  "credentialMeta ctype generateNamePrefix namespace vmfrName vmfrNamespace vmfrUID =
     empty_meta \<lparr>om_generateName := generateNamePrefix, om_namespace := namespace,
       om_labels := [(ManagedByLabel, ManagedByLabelValue), (VMFROriginUUIDLabel, vmfrUID),
                     (''oadp.openshift.io/credential-type'', ctype)],
       om_annotations := [(VMFROriginNameAnnotation, vmfrName),
                          (VMFROriginNamespaceAnnotation, vmfrNamespace),
                          (''oadp.openshift.io/generated-by'', ''oadp-vm-file-restore-controller'')]\<rparr>"

definition CreateSSHCredentialsSecret ::
    "string \<Rightarrow> string \<Rightarrow> string \<Rightarrow> SSHKeyPair \<Rightarrow> string \<Rightarrow> string \<Rightarrow> string \<Rightarrow> secret" where
  "CreateSSHCredentialsSecret generateNamePrefix namespace username keyPair vmfrName vmfrNamespace vmfrUID =
     \<lparr>sec_meta = credentialMeta ''ssh'' generateNamePrefix namespace vmfrName vmfrNamespace vmfrUID,
      sec_type = ''Opaque'',
      sec_stringData = [(''username'', username), (''privateKey'', PrivateKey keyPair),
                        (''authorized_keys'', PublicKey keyPair)],
      sec_data = None\<rparr>"

definition CreateFileBrowserCredentialsSecret ::
    "string \<Rightarrow> string \<Rightarrow> FileBrowserCredentials \<Rightarrow> string \<Rightarrow> string \<Rightarrow> string \<Rightarrow> secret" where
  "CreateFileBrowserCredentialsSecret generateNamePrefix namespace credentials vmfrName vmfrNamespace vmfrUID =
     \<lparr>sec_meta = credentialMeta ''filebrowser'' generateNamePrefix namespace vmfrName vmfrNamespace vmfrUID,
      sec_type = ''Opaque'',
      sec_stringData = [(''username'', Username credentials), (''password'', Password credentials)],
      sec_data = None\<rparr>"

text \<open>What the API server stores for a secret created with \<open>StringData\<close>.\<close>

definition stored_secret :: "secret \<Rightarrow> secret" where
  "stored_secret s = s \<lparr>sec_data := Some (sec_stringData s @ (case sec_data s of None \<Rightarrow> [] | Some d \<Rightarrow> d)),
     sec_stringData := []\<rparr>"

section \<open>Validation of credentials\<close>

text \<open>\<open>parse\<close> stands for \<open>ssh.ParseAuthorizedKey\<close>: the type of the parsed key, or the error.\<close>

definition allowedKeyTypes :: "string list" where
  "allowedKeyTypes = [''ssh-ed25519'', ''ssh-rsa'', ''ecdsa-sha2-nistp256'', ''ecdsa-sha2-nistp384'',
     ''ecdsa-sha2-nistp521'', ''sk-ssh-ed25519@openssh.com'', ''sk-ecdsa-sha2-nistp256@openssh.com'']"

definition ValidateSSHPublicKey :: "(string \<Rightarrow> string result) \<Rightarrow> string \<Rightarrow> unit result" where
  "ValidateSSHPublicKey parse publicKey = (case parse publicKey of
     Inl e \<Rightarrow> Inl (errorf_w ''invalid SSH public key format: '' e)
   | Inr keyType \<Rightarrow>
       if keyType \<notin> set allowedKeyTypes
       then Inl (errorf (''SSH key type '' @ [chr 39] @ keyType @ [chr 39] @
              '' is not allowed. Allowed types: ssh-ed25519 (recommended), ssh-rsa, '' @
              ''ecdsa-sha2-nistp256/384/521, and FIDO variants''))
       else Inr ())"

definition ValidateSSHSecret :: "(string \<Rightarrow> string result) \<Rightarrow> secret \<Rightarrow> unit result" where
  "ValidateSSHSecret parse s = (case sec_data s of
     None \<Rightarrow> Inl (errorf ''secret data is nil'')
   | Some d \<Rightarrow> (case map_of d ''authorized_keys'' of
       None \<Rightarrow> Inl (errorf (''secret missing required field '' @ [chr 39] @ ''authorized_keys'' @ [chr 39]))
     | Some publicKey \<Rightarrow>
         if publicKey = []
         then Inl (errorf (''secret missing required field '' @ [chr 39] @ ''authorized_keys'' @ [chr 39]))
         else (case ValidateSSHPublicKey parse publicKey of
             Inl e \<Rightarrow> Inl (errorf_w ''authorized_keys validation failed: '' e)
           | Inr _ \<Rightarrow> Inr ())))"

definition ValidateFileBrowserSecret :: "secret \<Rightarrow> unit result" where
  "ValidateFileBrowserSecret s = (case sec_data s of
     None \<Rightarrow> Inl (errorf ''secret data is nil'')
   | Some d \<Rightarrow> (case map_of d ''password'' of
       None \<Rightarrow> Inl (errorf (''secret missing required field '' @ [chr 39] @ ''password'' @ [chr 39]))
     | Some password \<Rightarrow>
         if password = []
         then Inl (errorf (''secret missing required field '' @ [chr 39] @ ''password'' @ [chr 39]))
         else if length password < DefaultMinimumPasswordLength
         then Inl (errorf ''password must be at least 12 characters long'')
         else Inr ()))"

definition GetBackupTimestamp :: "backup \<Rightarrow> time" where
  "GetBackupTimestamp b = (case bk_completion b of Some t \<Rightarrow> t | None \<Rightarrow> om_creation (bk_meta b))"

section \<open>Facts about names\<close>

definition dns_label :: "string \<Rightarrow> bool" where
  "dns_label s \<longleftrightarrow> s \<noteq> [] \<and> length s \<le> 63 \<and> list_all dns_char s \<and> hd s \<noteq> CHR ''-'' \<and> last s \<noteq> CHR ''-''"

lemma sanitizeBase_chars: "list_all dns_char (sanitizeBase b)"
  using trim_set [of "CHR ''-''" "replaceInvalid (toLower b)"] replaceInvalid_chars
  by (auto simp: sanitizeBase_def list_all_iff)

lemma sanitizeBase_hd: "sanitizeBase b \<noteq> [] \<Longrightarrow> hd (sanitizeBase b) \<noteq> CHR ''-''"
  unfolding sanitizeBase_def by (rule trim_hd)

lemma trimRight_take_nonempty:
  assumes "s \<noteq> []" and "hd s \<noteq> c" and "0 < n"
  shows "trimRight c (take n s) \<noteq> [] \<and> hd (trimRight c (take n s)) = hd s"
proof -
  obtain m where m: "take n s = trimRight c (take n s) @ replicate m c"
    using trimRight_decomp by blast
  have "take n s \<noteq> []" and hd: "hd (take n s) = hd s" using assms by auto
  then have "trimRight c (take n s) \<noteq> []"
    using m assms(2) by (metis append_Nil hd_replicate replicate_empty)
  then show ?thesis using trimRight_hd hd by metis
qed

lemma Normalize_panics_iff:
  "NormalizeDNS1123Label b sfx = None \<longleftrightarrow> length sfx = 62 \<and> sanitizeBase b \<noteq> []"
  by (cases "sanitizeBase b") (auto simp: NormalizeDNS1123Label_def Let_def maxLength_def)

lemma Normalize_label:
  assumes "dns_label sfx" and "length sfx \<le> 61"
  shows "\<exists>r. NormalizeDNS1123Label b sfx = Some r \<and> dns_label r \<and> (\<exists>p. r = p @ sfx)"
proof (cases "sanitizeBase b = []")
  case True
  then show ?thesis using assms by (auto simp: NormalizeDNS1123Label_def maxLength_def)
next
  case ne: False
  let ?b = "sanitizeBase b"
  have sfx: "sfx \<noteq> []" "list_all dns_char sfx" "last sfx \<noteq> CHR ''-''"
    using assms(1) by (auto simp: dns_label_def)
  show ?thesis
  proof (cases "length ?b + 1 + length sfx \<le> 63")
    case True
    then show ?thesis
      using ne sfx sanitizeBase_hd [OF ne] sanitizeBase_chars [of b]
      by (auto simp: NormalizeDNS1123Label_def Let_def maxLength_def dns_label_def)
  next
    case False
    let ?t = "trimRight CHR ''-'' (take (62 - length sfx) ?b)"
    have t: "?t \<noteq> [] \<and> hd ?t = hd ?b"
      using trimRight_take_nonempty [OF ne sanitizeBase_hd [OF ne]] assms(2) by simp
    have chars: "list_all dns_char ?t"
      using trimRight_set [of "CHR ''-''" "take (62 - length sfx) ?b"] sanitizeBase_chars [of b]
      by (auto simp: list_all_iff dest: in_set_takeD)
    have "length ?t \<le> 62 - length sfx"
      using trimRight_length [of "CHR ''-''" "take (62 - length sfx) ?b"] by simp
    then have len: "length (?t @ ''-'' @ sfx) \<le> 63" using assms(2) by simp
    have "NormalizeDNS1123Label b sfx = Some (?t @ ''-'' @ sfx)"
      using False ne assms(2)
      by (auto simp: NormalizeDNS1123Label_def Let_def maxLength_def nat_diff_distrib)
    moreover have "dns_label (?t @ ''-'' @ sfx)"
      using t chars len sfx sanitizeBase_hd [OF ne] by (simp add: dns_label_def)
    moreover have "\<exists>p. ?t @ ''-'' @ sfx = p @ sfx" by (rule exI [of _ "?t @ ''-''"]) simp
    ultimately show ?thesis by blast
  qed
qed

lemma uidSuffix_length [simp]: "length (uidSuffix uid) = 8"
  by (simp add: uidSuffix_def)

text \<open>The name before sanitising ends with a hyphen and the eight-byte UID part, in at most 63 bytes.\<close>

lemma join_snoc: "xs \<noteq> [] \<Longrightarrow> join (xs @ [y]) sep = join xs sep @ sep @ y"
  by (induction xs sep rule: join.induct) auto

definition joinedName :: "string \<Rightarrow> string \<Rightarrow> string \<Rightarrow> string" where
  "joinedName pfx vmNamespace vmName = join ((if pfx \<noteq> [] then [pfx] else []) @ [vmNamespace, vmName]) ''-''"

lemma GenerateTemporary_cut:
  "GenerateTemporaryVMFRNamespaceName pfx vns vm uid =
     trim CHR ''-'' (replaceInvalid (toLower (take 54 (joinedName pfx vns vm) @ ''-'' @ uidSuffix uid)))"
proof -
  let ?j = "joinedName pfx vns vm" and ?s = "uidSuffix uid"
  have j: "join ((if pfx \<noteq> [] then [pfx] else []) @ [vns, vm] @ [?s]) ''-'' = ?j @ ''-'' @ ?s"
    using join_snoc [of "(if pfx \<noteq> [] then [pfx] else []) @ [vns, vm]" ?s "''-''"]
    by (simp add: joinedName_def)
  have "take 54 (?j @ ''-'' @ ?s) = take 54 ?j" if "length (?j @ ''-'' @ ?s) > 63"
    using that by simp
  then show ?thesis
    unfolding GenerateTemporaryVMFRNamespaceName_def Let_def j by simp
qed

lemma runes_snoc_ascii:
  assumes "byte c < 128"
  shows "runes (s @ c # t) = runes s @ byte c # runes t"
  using runes_of_split [OF assms] by (simp add: runes_def)

text \<open>Lower-case letters, digits and hyphens pass the sanitiser unchanged.\<close>

lemma sanitize_dns_suffix:
  assumes "list_all dns_char u"
  shows "replaceInvalid (toLower (s @ CHR ''-'' # u)) = replaceInvalid (toLower s) @ CHR ''-'' # u"
proof -
  have ascii: "\<forall>c\<in>set u. byte c < 128"
    using assms by (auto simp: list_all_iff dns_char_def dns_byte_def)
  have low: "rune_lower (byte c) = byte c" if "c \<in> set u" for c
    using assms that by (auto simp: list_all_iff dns_char_def dns_byte_def rune_lower_def)
  have dash: "byte CHR ''-'' = 45" by (simp add: byte_def)
  have "runes (toLower (s @ CHR ''-'' # u)) = runes (toLower s) @ 45 # map byte u"
    using runes_snoc_ascii [of "CHR ''-''" s u] low
    by (simp add: runes_toLower runes_ascii [OF ascii] dash rune_lower_def)
  moreover have "chr 45 = CHR ''-''" by (metis chr_byte dash)
  moreover have "map (\<lambda>r. if dns_byte r then chr r else CHR ''-'') (map byte u) = u"
    using assms by (auto simp: list_all_iff dns_char_def intro!: map_idI)
  ultimately show ?thesis by (simp add: replaceInvalid_def dns_byte_def)
qed

lemma GenerateTemporary_length: "length (GenerateTemporaryVMFRNamespaceName pfx vns vm uid) \<le> 63"
proof -
  let ?n = "take 54 (joinedName pfx vns vm) @ ''-'' @ uidSuffix uid"
  have "length (trim CHR ''-'' (replaceInvalid (toLower ?n))) \<le> length ?n"
    using trim_length [of "CHR ''-''" "replaceInvalid (toLower ?n)"] length_sanitize [of ?n] by linarith
  then show ?thesis by (simp add: GenerateTemporary_cut)
qed

lemma trim_keeps_suffix:
  assumes "u \<noteq> []" and "last u \<noteq> c" and "hd u \<noteq> c"
  shows "\<exists>p. trim c (s @ u) = p @ u"
proof -
  have r: "trimRight c (x @ u) = x @ u" for x
    using assms(1,2) by (cases u rule: rev_cases) (auto simp: trimRight_def)
  have "trimLeft c (s @ u) = dropWhile ((=) c) s @ u"
    using assms by (cases u) (auto simp: trimLeft_def dropWhile_append)
  then show ?thesis by (simp add: trim_def r)
qed

lemma GenerateTemporary_suffix:
  assumes "dns_label (uidSuffix uid)"
  shows "\<exists>p. GenerateTemporaryVMFRNamespaceName pfx vns vm uid = p @ uidSuffix uid"
proof -
  have u: "list_all dns_char (uidSuffix uid)" "uidSuffix uid \<noteq> []" "last (uidSuffix uid) \<noteq> CHR ''-''"
    "hd (uidSuffix uid) \<noteq> CHR ''-''"
    using assms by (auto simp: dns_label_def)
  show ?thesis
    using trim_keeps_suffix [OF u(2-4), of "replaceInvalid (toLower (take 54 (joinedName pfx vns vm))) @ ''-''"]
    by (simp add: GenerateTemporary_cut sanitize_dns_suffix [OF u(1)])
qed

lemma GenerateTemporary_chars: "list_all dns_char (GenerateTemporaryVMFRNamespaceName pfx vns vm uid)"
  using trim_set [of "CHR ''-''"] replaceInvalid_chars
  by (auto simp: GenerateTemporary_cut list_all_iff)

lemma length_base64url: "length (base64url bs) = 4 * ((length bs + 2) div 3)"
proof (induction bs rule: base64url.induct)
  case (4 a b c bs)
  have "(length bs + 3 + 2) div 3 = (length bs + 2) div 3 + 1" by presburger
  with 4 show ?case by (simp add: add.commute)
qed auto

section \<open>Properties\<close>

text \<open>C23. \<open>NormalizeDNS1123Label\<close> with a suffix that is itself a DNS-1123 label of at most 61 bytes
  always returns a DNS-1123 label (1 to 63 characters of a-z, 0-9 and hyphen, no hyphen at either
  end) that ends with the suffix, whatever the base name is.\<close>

theorem normalize_gives_dns_label:
  assumes "dns_label sfx" and "length sfx \<le> 61"
  shows "\<exists>r. NormalizeDNS1123Label b sfx = Some r \<and> dns_label r \<and> (\<exists>p. r = p @ sfx)"
  by (rule Normalize_label [OF assms])

theorem normalize_gives_dns_label_witness:
  "\<exists>r. NormalizeDNS1123Label ''--My_VM--'' ''ssh'' = Some r \<and> dns_label r \<and> (\<exists>p. r = p @ ''ssh'')"
  by (rule normalize_gives_dns_label)
     (simp_all add: dns_label_def dns_char_def dns_byte_def byte_def)

text \<open>C28. \<open>NormalizeDNS1123Label\<close> panics (slices its suffix out of range) exactly when the suffix has
  62 bytes and the sanitised base name is not empty.\<close>

theorem normalize_panics_exactly:
  "NormalizeDNS1123Label b sfx = None \<longleftrightarrow> length sfx = 62 \<and> sanitizeBase b \<noteq> []"
  by (rule Normalize_panics_iff)

text \<open>C22. For a UID whose first eight bytes (zero-padded) form a DNS-1123 label, the generated
  temporary namespace name is a DNS-1123 label that ends with those eight bytes, for any prefix, VM
  namespace and VM name, however long and whatever characters they hold.\<close>

theorem temp_namespace_name_valid:
  assumes "dns_label (uidSuffix uid)"
  shows "dns_label (GenerateTemporaryVMFRNamespaceName pfx vns vm uid)
    \<and> (\<exists>p. GenerateTemporaryVMFRNamespaceName pfx vns vm uid = p @ uidSuffix uid)"
proof -
  let ?n = "GenerateTemporaryVMFRNamespaceName pfx vns vm uid"
  obtain p where p: "?n = p @ uidSuffix uid" using GenerateTemporary_suffix [OF assms] by blast
  have ne: "?n \<noteq> []" using p assms by (auto simp: dns_label_def)
  have "hd ?n \<noteq> CHR ''-''" "last ?n \<noteq> CHR ''-''"
    using ne trim_hd trim_last unfolding GenerateTemporary_cut by blast+
  then have "dns_label ?n"
    using ne GenerateTemporary_length GenerateTemporary_chars by (simp add: dns_label_def)
  then show ?thesis using p by blast
qed

theorem temp_namespace_name_valid_witness:
  "dns_label (GenerateTemporaryVMFRNamespaceName [] ''VM_ns'' ''Fedora 41'' ''1a2b3c4d-0000'')
    \<and> (\<exists>p. GenerateTemporaryVMFRNamespaceName [] ''VM_ns'' ''Fedora 41'' ''1a2b3c4d-0000''
          = p @ uidSuffix ''1a2b3c4d-0000'')"
  by (rule temp_namespace_name_valid)
     (simp add: uidSuffix_def dns_label_def dns_char_def dns_byte_def byte_def)

text \<open>FileBrowser credentials generated from 32 random bytes, written to a secret and stored by the
  API server, pass the validation applied to user-supplied FileBrowser secrets.\<close>

theorem generated_filebrowser_secret_validates:
  assumes "GenerateFileBrowserCredentials (Inr bytes) user = Inr cred" and "length bytes = 32"
  shows "ValidateFileBrowserSecret
    (stored_secret (CreateFileBrowserCredentialsSecret gen ns cred vmfr vmfrNs uid)) = Inr ()"
proof -
  have "Password cred = base64url bytes"
    using assms(1) by (auto simp: GenerateFileBrowserCredentials_def Let_def)
  then have "length (Password cred) = 44" using assms(2) by (simp add: length_base64url)
  then show ?thesis
    by (auto simp: ValidateFileBrowserSecret_def stored_secret_def CreateFileBrowserCredentialsSecret_def
        DefaultMinimumPasswordLength_def)
qed

theorem generated_filebrowser_secret_validates_witness:
  "ValidateFileBrowserSecret (stored_secret (CreateFileBrowserCredentialsSecret ''fb-'' ''ns''
     \<lparr>Username = ''oadp'', Password = base64url (replicate 32 7)\<rparr> ''r'' ''oadp'' ''u'')) = Inr ()"
  by (rule generated_filebrowser_secret_validates [of "replicate 32 7" "[]"])
     (simp_all add: GenerateFileBrowserCredentials_def DefaultUsername_def)

end
