(* ===== verification/Velero_Utils.thy ===== *)
theory Velero_Utils
  imports Kube
begin

text \<open>
  \<open>internal/velerohelpers/backup_discovery_utils.go\<close>: the namespace test on a backup spec, the search
  for a VM in a resource list, the parsing of Velero resource names and the test for unfinished
  asynchronous backup operations with its decimal printer.
\<close>

section \<open>The backup spec\<close>

definition ValidateVMInBackupSpec :: "backup \<Rightarrow> object_meta \<Rightarrow> bool" where
  "ValidateVMInBackupSpec b vm =
    (if list_ex (\<lambda>ns. ns = om_namespace vm) (bk_excludedNamespaces b) then False
     else if bk_includedNamespaces b = [] then True
     else list_ex (\<lambda>ns. ns = ''*'' \<or> ns = om_namespace vm) (bk_includedNamespaces b))"

text \<open>
  The resources an iterator yields, in the order it yields them, as (kind, namespace, name); the
  callback stops the iteration at the first match.
\<close>

fun hasVMInBackupResources :: "string \<Rightarrow> string \<Rightarrow> (string \<times> string \<times> string) list \<Rightarrow> bool" where
  "hasVMInBackupResources vmName vmNamespace [] = False"
| "hasVMInBackupResources vmName vmNamespace ((kind, namespace, name) # rs) =
    (if (kind = ''VirtualMachine'' \<or> kind = ''virtualmachine'') \<and> namespace = vmNamespace \<and> name = vmName
     then True else hasVMInBackupResources vmName vmNamespace rs)"

section \<open>Resource names\<close>

text \<open>The loop over the runes of the resource looks for an ASCII byte, so it may look at bytes.\<close>

fun splitSlash :: "string \<Rightarrow> string \<Rightarrow> (string \<times> string) option" where
  "splitSlash before [] = None"
| "splitSlash before (c # s) = (if c = CHR ''/'' then Some (rev before, s) else splitSlash (c # before) s)"

definition parseNamespacedName :: "string \<Rightarrow> string \<times> string" where
  "parseNamespacedName resource = (case splitSlash [] resource of Some p \<Rightarrow> p | None \<Rightarrow> ([], resource))"

text \<open>The two scans of \<open>extractKindFromGVK\<close> over the runes: backwards for the last slash, forwards for the
  first dot after it.\<close>

fun lastSlash :: "rune list \<Rightarrow> nat \<Rightarrow> nat" where
  "lastSlash parts 0 = 0"
| "lastSlash parts (Suc i) = (if parts ! i = 47 then Suc i else lastSlash parts i)"

function firstDot :: "rune list \<Rightarrow> nat \<Rightarrow> nat" where
  "firstDot parts i = (if i < length parts then (if parts ! i = 46 then i else firstDot parts (i + 1))
                       else length parts)"
  by pat_completeness auto
termination by (relation "measure (\<lambda>(parts, i). length parts - i)") auto

declare firstDot.simps [simp del]

definition extractKindFromGVK :: "string \<Rightarrow> string" where
  "extractKindFromGVK gvk =
    (let parts = runes gvk; start = lastSlash parts (length parts); stop = firstDot parts start
     in of_runes (take (stop - start) (drop start parts)))"

section \<open>Asynchronous operations\<close>

text \<open>A nil backup is \<^const>\<open>None\<close>.\<close>

definition BackupAsyncOperationsIncomplete :: "backup option \<Rightarrow> bool" where
  "BackupAsyncOperationsIncomplete ob = (case ob of None \<Rightarrow> False
     | Some b \<Rightarrow> if bk_attempted b = 0 then False else bk_completed b \<noteq> bk_attempted b)"

text \<open>Go's \<open>int\<close> is 64-bit two's complement: negation wraps.\<close>

definition wrap64 :: "int \<Rightarrow> int" where
  "wrap64 i = (i + 2 ^ 63) mod 2 ^ 64 - 2 ^ 63"

text \<open>The digit loop of \<open>itoa\<close> over the 20-byte buffer; writing below index 0 would panic.\<close>

function itoa_loop :: "int \<Rightarrow> nat \<Rightarrow> string \<Rightarrow> (nat \<times> string) option" where
  "itoa_loop i pos buf =
    (if i > 0 then
       (if pos = 0 then None
        else itoa_loop (i div 10) (pos - 1) (buf[pos - 1 := chr (48 + nat (i mod 10))]))
     else Some (pos, buf))"
  by pat_completeness auto
termination by (relation "measure (\<lambda>(i, pos, buf). nat i)") auto

declare itoa_loop.simps [simp del]

definition itoa :: "int \<Rightarrow> string option" where
  "itoa i = (if i = 0 then Some ''0'' else
     (let negative = i < 0; i1 = (if negative then wrap64 (- i) else i)
      in case itoa_loop i1 20 (replicate 20 (chr 0)) of
           None \<Rightarrow> None
         | Some (pos, buf) \<Rightarrow>
             if negative then
               (if pos = 0 then None else Some (drop (pos - 1) (buf[pos - 1 := CHR ''-''])))
             else Some (drop pos buf)))"

definition BackupAsyncOperationsReason :: "backup option \<Rightarrow> string option" where
  "BackupAsyncOperationsReason ob = (case ob of None \<Rightarrow> Some []
     | Some b \<Rightarrow> if bk_attempted b = 0 then Some []
        else if bk_completed b \<noteq> bk_attempted b then
          (case (itoa (bk_attempted b), itoa (bk_completed b), itoa (bk_failed b)) of
             (Some a, Some c, Some f) \<Rightarrow> Some
               (''backup has incomplete async operations (data mover upload may not have finished); '' @
                ''BackupItemOperationsAttempted='' @ a @ '', BackupItemOperationsCompleted='' @ c @
                '', BackupItemOperationsFailed='' @ f)
           | _ \<Rightarrow> None)
        else Some [])"

section \<open>Facts\<close>

definition in_int64 :: "int \<Rightarrow> bool" where
  "in_int64 i \<longleftrightarrow> - (2 ^ 63) \<le> i \<and> i < 2 ^ 63"

fun parse_digits :: "string \<Rightarrow> int" where
  "parse_digits [] = 0"
| "parse_digits (c # s) = (int (byte c) - 48) * 10 ^ length s + parse_digits s"

definition parse_int :: "string \<Rightarrow> int" where
  "parse_int s = (case s of c # t \<Rightarrow> if c = CHR ''-'' then - parse_digits t else parse_digits s | [] \<Rightarrow> 0)"

fun decimal :: "nat \<Rightarrow> string" where
  "decimal n = (if n < 10 then [chr (48 + n)] else decimal (n div 10) @ [chr (48 + n mod 10)])"

declare decimal.simps [simp del]

lemma wrap64_id: "in_int64 i \<Longrightarrow> wrap64 i = i"
  by (simp add: wrap64_def in_int64_def)

lemma drop_list_update_at: "p \<le> length xs \<Longrightarrow> p = Suc q \<Longrightarrow> drop q (xs[q := c]) = c # drop p xs"
  by (metis Cons_nth_drop_Suc Suc_le_lessD drop_update_cancel length_list_update lessI nth_list_update_eq)

text \<open>The loop writes the digits of a positive number below \<open>pos\<close> when it has room for them.\<close>

lemma itoa_loop_decimal:
  assumes "length buf = 20" and "pos \<le> 20" and "0 < i" and "i < 10 ^ pos"
  shows "\<exists>p b. itoa_loop i pos buf = Some (p, b) \<and> drop p b = decimal (nat i) @ drop pos buf
     \<and> length b = 20 \<and> p < pos \<and> 10 ^ (pos - p - 1) \<le> i"
  using assms
proof (induction i pos buf rule: itoa_loop.induct)
  case (1 i pos buf)
  obtain q where pos: "pos = Suc q" using 1(4,5) by (cases pos) auto
  let ?b = "buf[q := chr (48 + nat (i mod 10))]"
  have step: "itoa_loop i pos buf = itoa_loop (i div 10) q ?b"
    using 1(4) pos by (subst itoa_loop.simps) simp
  have dq: "drop q ?b = chr (48 + nat (i mod 10)) # drop pos buf"
    using 1(2,3) pos by (simp add: drop_list_update_at)
  show ?case
  proof (cases "i < 10")
    case True
    then have "itoa_loop i pos buf = Some (q, ?b)"
      unfolding step using 1(4) by (subst itoa_loop.simps) simp
    moreover have "decimal (nat i) = [chr (48 + nat (i mod 10))]"
      using True 1(4) by (subst decimal.simps) simp
    ultimately show ?thesis using dq 1(2,4) pos by simp
  next
    case False
    have "0 < i div 10" using False by (simp add: pos_imp_zdiv_pos_iff)
    moreover have "i div 10 < 10 ^ q" using 1(5) pos by (simp add: div_less_iff_less_mult mult.commute)
    ultimately obtain p b where pb: "itoa_loop (i div 10) q ?b = Some (p, b)"
      "drop p b = decimal (nat (i div 10)) @ drop q ?b" "length b = 20" "p < q"
      "10 ^ (q - p - 1) \<le> i div 10"
      using 1(1,2,3,4) pos by auto
    have "decimal (nat i) = decimal (nat (i div 10)) @ [chr (48 + nat (i mod 10))]"
      using False by (subst decimal.simps) (simp add: nat_div_distrib nat_mod_distrib)
    moreover have "10 ^ (pos - p - 1) \<le> i"
    proof -
      have "pos - p - 1 = Suc (q - p - 1)" using pos pb(4) by simp
      moreover have "10 * 10 ^ (q - p - 1) \<le> i" using pb(5) by simp
      ultimately show ?thesis by simp
    qed
    ultimately show ?thesis using step pb dq pos by simp
  qed
qed

lemma itoa_decimal:
  assumes "in_int64 i" and "i \<noteq> - (2 ^ 63)"
  shows "itoa i = Some (if i < 0 then CHR ''-'' # decimal (nat (- i)) else decimal (nat i))"
proof (cases "i = 0")
  case True
  moreover have "chr 48 = CHR ''0''" using chr_byte [of "CHR ''0''"] by (simp add: byte_def)
  ultimately show ?thesis by (simp add: itoa_def decimal.simps [of 0])
next
  case False
  let ?m = "\<bar>i\<bar>"
  have m: "0 < ?m" "?m < 10 ^ 19" using assms False by (auto simp: in_int64_def)
  have "?m < 10 ^ 20" using m(2) by simp
  then obtain p b where pb: "itoa_loop ?m 20 (replicate 20 (chr 0)) = Some (p, b)"
    "drop p b = decimal (nat ?m)" "length b = 20" "p < 20" "10 ^ (20 - p - 1) \<le> ?m"
    using itoa_loop_decimal [of "replicate 20 (chr 0)" 20 ?m] m(1) by auto
  have "(10::int) ^ (20 - p - 1) < 10 ^ 19" using pb(5) m(2) by linarith
  then have "20 - p - 1 < 19" by (rule power_less_imp_less_exp [rotated]) simp
  then have p1: "p = Suc (p - 1)" by linarith
  have w: "(if i < 0 then wrap64 (- i) else i) = ?m"
    using assms by (auto simp: wrap64_id in_int64_def)
  show ?thesis
    using False pb p1 drop_list_update_at [of p b "p - 1" "CHR ''-''"]
    unfolding itoa_def Let_def w by (auto simp: abs_if)
qed

lemma parse_digits_append: "parse_digits (s @ t) = parse_digits s * 10 ^ length t + parse_digits t"
  by (induction s) (simp_all add: algebra_simps power_add)

lemma parse_decimal: "parse_digits (decimal n) = int n"
proof (induction n rule: decimal.induct)
  case (1 n)
  show ?case
  proof (cases "n < 10")
    case True
    then show ?thesis by (subst decimal.simps) simp
  next
    case False
    then have "decimal n = decimal (n div 10) @ [chr (48 + n mod 10)]" by (subst decimal.simps) simp
    with False 1 show ?thesis by (simp add: parse_digits_append) presburger
  qed
qed

lemma decimal_digits: "c \<in> set (decimal n) \<Longrightarrow> 48 \<le> byte c \<and> byte c \<le> 57"
proof (induction n rule: decimal.induct)
  case (1 n)
  then show ?case by (cases "n < 10") (auto simp: decimal.simps [of n])
qed

lemma decimal_hd: "\<exists>c t. decimal n = c # t \<and> c \<noteq> CHR ''-''"
proof -
  obtain c t where ct: "decimal n = c # t" by (cases "decimal n") (auto simp: decimal.simps [of n] split: if_splits)
  then have "48 \<le> byte c" using decimal_digits [of c n] by simp
  then have "c \<noteq> CHR ''-''" by (auto simp: byte_def)
  with ct show ?thesis by blast
qed

lemma parse_itoa:
  assumes "in_int64 i" and "i \<noteq> - (2 ^ 63)"
  shows "\<exists>s. itoa i = Some s \<and> parse_int s = i"
proof -
  obtain c t where "decimal (nat i) = c # t" "c \<noteq> CHR ''-''" using decimal_hd by blast
  then show ?thesis
    using itoa_decimal [OF assms] parse_decimal [of "nat i"] parse_decimal [of "nat (- i)"]
    by (auto simp: parse_int_def)
qed

lemma hasVM_iff: "hasVMInBackupResources vm ns rs \<longleftrightarrow>
    (''VirtualMachine'', ns, vm) \<in> set rs \<or> (''virtualmachine'', ns, vm) \<in> set rs"
  by (induction vm ns rs rule: hasVMInBackupResources.induct) auto

lemma splitSlash_append: "CHR ''/'' \<notin> set ns \<Longrightarrow> splitSlash b (ns @ CHR ''/'' # name) = Some (rev b @ ns, name)"
  by (induction ns arbitrary: b) auto

lemma splitSlash_none: "CHR ''/'' \<notin> set s \<Longrightarrow> splitSlash b s = None"
  by (induction s arbitrary: b) auto

lemma lastSlash_prefix: "n \<le> length xs \<Longrightarrow> lastSlash (xs @ ys) n = lastSlash xs n"
  by (induction n) (auto simp: nth_append)

lemma lastSlash_app: "\<forall>x\<in>set k. x \<noteq> 47 \<Longrightarrow> lastSlash (v @ 47 # k) (length v + 1 + length k) = length v + 1"
proof (induction k rule: rev_induct)
  case (snoc x k)
  then have "lastSlash (v @ 47 # k @ [x]) (length v + 1 + length k) = lastSlash (v @ 47 # k) (length v + 1 + length k)"
    using lastSlash_prefix [of "length v + 1 + length k" "v @ 47 # k" "[x]"] by simp
  with snoc show ?case by (simp add: nth_append)
qed (simp add: nth_append)

lemma firstDot_app: "\<forall>x\<in>set k. x \<noteq> 46 \<Longrightarrow> firstDot (v @ k @ 46 # g) (length v) = length v + length k"
proof (induction k arbitrary: v)
  case Nil
  then show ?case by (subst firstDot.simps) simp
next
  case (Cons x k)
  then have "firstDot (v @ (x # k) @ 46 # g) (length v) = firstDot ((v @ [x]) @ k @ 46 # g) (length (v @ [x]))"
    by (subst firstDot.simps) simp
  also have "\<dots> = length (v @ [x]) + length k" using Cons by (intro Cons.IH) simp
  finally show ?case by simp
qed

lemma of_runes_ascii:
  assumes "\<forall>c\<in>set s. byte c < 128"
  shows "of_runes (map byte s) = s"
  using assms by (induction s) (auto simp: of_runes_def encode_rune_def encode_bytes_def)

lemma extractKind_core:
  assumes "\<forall>c\<in>set (v @ k @ g). byte c < 128" and "CHR ''/'' \<notin> set k \<union> set g" and "CHR ''.'' \<notin> set k"
  shows "extractKindFromGVK (v @ ''/'' @ k @ ''.'' @ g) = k"
proof -
  let ?v = "map byte v" and ?k = "map byte k" and ?g = "map byte g"
  have b: "byte CHR ''/'' = 47" "byte CHR ''.'' = 46" by (simp_all add: byte_def)
  have inj: "byte c \<noteq> byte d" if "c \<noteq> d" for c d using that chr_byte by metis
  have dot: "byte c \<noteq> 46" if "c \<in> set k" for c using that assms(3) inj [of c "CHR ''.''"] b(2) by metis
  have slash: "byte c \<noteq> 47" if "c \<in> set k \<union> set g" for c
    using that assms(2) inj [of c "CHR ''/''"] b(1) by metis
  have nk: "\<forall>x\<in>set ?k. x \<noteq> 46" by (simp add: dot)
  have ns: "\<forall>x\<in>set (?k @ 46 # ?g). x \<noteq> 47" by (auto simp: slash)
  have r: "runes (v @ ''/'' @ k @ ''.'' @ g) = ?v @ 47 # ?k @ 46 # ?g"
    using assms(1) by (subst runes_ascii) (auto simp: b)
  have "lastSlash (?v @ 47 # (?k @ 46 # ?g)) (length ?v + 1 + length (?k @ 46 # ?g)) = length ?v + 1"
    by (rule lastSlash_app) (rule ns)
  then have s: "lastSlash (?v @ 47 # ?k @ 46 # ?g) (length (?v @ 47 # ?k @ 46 # ?g)) = length v + 1"
    by simp
  have d: "firstDot ((?v @ [47]) @ ?k @ 46 # ?g) (length (?v @ [47])) = length (?v @ [47]) + length ?k"
    by (rule firstDot_app) (rule nk)
  show ?thesis
    unfolding extractKindFromGVK_def Let_def r s using d assms(1) by (simp add: of_runes_ascii)
qed

section \<open>Properties\<close>

text \<open>\<open>itoa\<close> is total on 64-bit integers other than the smallest one: it never writes outside
  its 20-byte buffer, and reading its output as a decimal number gives the integer back.\<close>

theorem itoa_roundtrip:
  assumes "in_int64 i" and "i \<noteq> - (2 ^ 63)"
  shows "\<exists>s. itoa i = Some s \<and> parse_int s = i"
  by (rule parse_itoa [OF assms])

theorem itoa_roundtrip_witness: "\<exists>s. itoa (- 120) = Some s \<and> parse_int s = - 120"
  by (rule itoa_roundtrip) (simp_all add: in_int64_def)

text \<open>On the smallest 64-bit integer the negation wraps to itself, the digit loop does not run
  and \<open>itoa\<close> prints a bare minus sign.\<close>

theorem itoa_min_int64: "itoa (- (2 ^ 63)) = Some ''-''"
proof -
  have "wrap64 (2 ^ 63) = - (2 ^ 63)" by (simp add: wrap64_def)
  moreover have "itoa_loop (- (2 ^ 63)) 20 (replicate 20 (chr 0)) = Some (20, replicate 20 (chr 0))"
    by (subst itoa_loop.simps) simp
  moreover have "drop 19 ((replicate 20 (chr 0))[19 := CHR ''-'']) = ''-''"
    by (subst drop_list_update_at [of 20]) simp_all
  ultimately show ?thesis unfolding itoa_def Let_def by simp
qed

text \<open>A VM's namespace is accepted by a backup spec exactly when it is not excluded and the include
  list is empty, holds the wildcard or holds the namespace.\<close>

theorem validate_vm_in_backup_spec:
  "ValidateVMInBackupSpec b vm \<longleftrightarrow> om_namespace vm \<notin> set (bk_excludedNamespaces b)
     \<and> (bk_includedNamespaces b = [] \<or> ''*'' \<in> set (bk_includedNamespaces b)
        \<or> om_namespace vm \<in> set (bk_includedNamespaces b))"
  by (auto simp: ValidateVMInBackupSpec_def list_ex_iff)

text \<open>The kind is extracted from every ASCII string of the form version/Kind.group whose kind holds
  neither a slash nor a dot and whose group holds no slash; the version may hold both.\<close>

theorem extract_kind_from_gvk:
  assumes "\<forall>c\<in>set (v @ k @ g). byte c < 128" and "CHR ''/'' \<notin> set k \<union> set g" and "CHR ''.'' \<notin> set k"
  shows "extractKindFromGVK (v @ ''/'' @ k @ ''.'' @ g) = k"
  by (rule extractKind_core [OF assms])

theorem extract_kind_from_gvk_witness:
  "extractKindFromGVK (''kubevirt.io/v1'' @ ''/'' @ ''VirtualMachine'' @ ''.'' @ ''kubevirt.io'') = ''VirtualMachine''"
  by (rule extract_kind_from_gvk) (simp_all add: byte_def)

end
