(* ===== verification/Sshd.thy ===== *)
theory Sshd
  imports Go_Strings
begin

text \<open>
  The ForceCommand wrapper of the SSH side container
  (\<open>containers/side-containers/sshd/oadp-sshd.go\<close>): it reads the command the SSH client asked for and
  either replaces itself by one of three programs or exits with status 1. The file system (which
  paths are executable) and whether \<open>execve\<close> succeeds are parameters. Output to standard error has
  no bearing on the result and is left out.
\<close>

section \<open>Model\<close>

datatype outcome =
    Exit nat
  | Exec (exec_path: string) (exec_argv: "string list") (exec_env: "string list")

text \<open>\<open>exec.LookPath\<close> on a path with a slash returns the path itself when it is executable.\<close>

record os =
  executable :: "string \<Rightarrow> bool"
  execve :: "string \<Rightarrow> string list \<Rightarrow> string list \<Rightarrow> bool"

definition sftpServer :: string where "sftpServer = ''/usr/libexec/openssh/sftp-server''"
definition rsyncBin :: string where "rsyncBin = ''/bin/rsync''"
definition scpBin :: string where "scpBin = ''/bin/scp''"
definition maxCommandLength :: nat where "maxCommandLength = 10240"

definition dangerousFlags :: "string list" where
  "dangerousFlags = [''--rsh='', ''--config='', ''--rsync-path='', ''--daemon'', ''--delete'']"

definition containsFlag :: "string list \<Rightarrow> string \<Rightarrow> bool" where
  "containsFlag args flag = list_ex (\<lambda>arg. arg = flag) args"

definition containsAnyDangerousFlag :: "string list \<Rightarrow> bool" where
  "containsAnyDangerousFlag args =
     list_ex (\<lambda>arg. list_ex (\<lambda>d. arg = d \<or> hasPrefix arg d) dangerousFlags) args"

text \<open>The name of an environment entry, \<open>strings.SplitN(e, "=", 2)[0]\<close>\<close>

definition varName :: "string \<Rightarrow> string" where
  "varName e = takeWhile (\<lambda>c. c \<noteq> CHR ''='') e"

definition dangerousVars :: "string list" where
  "dangerousVars = [''LD_PRELOAD'', ''LD_LIBRARY_PATH'', ''LD_AUDIT'', ''LD_BIND_NOW'', ''BASH_ENV'', ''ENV'',
     ''SHELLOPTS'']"

definition filterEnvironment :: "string list \<Rightarrow> string list" where
  "filterEnvironment env = filter (\<lambda>e. varName e \<notin> set dangerousVars) env"

definition execCommand :: "os \<Rightarrow> string list \<Rightarrow> string \<Rightarrow> string list \<Rightarrow> outcome" where
  "execCommand os environ path args =
    (if \<not> executable os path then Exit 1
     else let argv = path # args; safeEnv = filterEnvironment environ
          in if execve os path argv safeEnv then Exec path argv safeEnv else Exit 1)"

text \<open>The parser's local variables; \<open>quoteChar\<close> is 0 outside quotes.\<close>

record parser =
  p_args :: "string list"
  p_current :: string
  p_inQuote :: bool
  p_quoteChar :: rune
  p_escaped :: bool

definition writeRune :: "rune \<Rightarrow> parser \<Rightarrow> parser" where
  "writeRune r p = p \<lparr>p_current := p_current p @ encode_rune r\<rparr>"

definition parseRune :: "parser \<Rightarrow> rune \<Rightarrow> parser" where
  "parseRune p r =
    (if p_escaped p then (writeRune r p) \<lparr>p_escaped := False\<rparr>
     else if r = 92 \<and> p_inQuote p \<and> p_quoteChar p = 34 then p \<lparr>p_escaped := True\<rparr>
     else if r = 34 \<or> r = 39 then
       (if \<not> p_inQuote p then p \<lparr>p_inQuote := True, p_quoteChar := r\<rparr>
        else if r = p_quoteChar p then p \<lparr>p_inQuote := False, p_quoteChar := 0\<rparr>
        else writeRune r p)
     else if r = 32 \<or> r = 9 then
       (if p_inQuote p then writeRune r p
        else if p_current p \<noteq> [] then p \<lparr>p_args := p_args p @ [p_current p], p_current := []\<rparr>
        else p)
     else writeRune r p)"

definition parser0 :: parser where
  "parser0 = \<lparr>p_args = [], p_current = [], p_inQuote = False, p_quoteChar = 0, p_escaped = False\<rparr>"

definition finishParse :: "parser \<Rightarrow> string list result" where
  "finishParse p =
    (let args = (if p_current p \<noteq> [] then p_args p @ [p_current p] else p_args p)
     in if p_inQuote p then Inl (errorf ''unbalanced quotes in command'') else Inr args)"

definition parseCommand :: "string \<Rightarrow> string list result" where
  "parseCommand cmd = finishParse (foldl parseRune parser0 (runes cmd))"

text \<open>\<open>^rsync\s+--server\<close>; \<open>\s\<close> is tab, newline, form feed, carriage return or space.\<close>

definition re_space :: "char \<Rightarrow> bool" where
  "re_space c \<longleftrightarrow> byte c \<in> {9, 10, 12, 13, 32}"

definition isRsyncCommand :: "string \<Rightarrow> bool" where
  "isRsyncCommand cmd \<longleftrightarrow> hasPrefix cmd ''rsync'' \<and>
     (let rest = drop 5 cmd in rest \<noteq> [] \<and> re_space (hd rest) \<and> hasPrefix (dropWhile re_space rest) ''--server'')"

definition isScpCommand :: "string \<Rightarrow> bool" where
  "isScpCommand cmd = hasPrefix cmd ''scp ''"

definition dropName :: "string \<Rightarrow> string list \<Rightarrow> string list" where
  "dropName name args = (case args of a # as \<Rightarrow> if a = name then as else args | [] \<Rightarrow> [])"

definition handleRsync :: "os \<Rightarrow> string list \<Rightarrow> string \<Rightarrow> outcome" where
  "handleRsync os environ cmd = (case parseCommand cmd of
     Inl _ \<Rightarrow> Exit 1
   | Inr args0 \<Rightarrow>
      (let args = dropName ''rsync'' args0
       in if \<not> containsFlag args ''--sender'' then Exit 1
          else if containsAnyDangerousFlag args then Exit 1
          else execCommand os environ rsyncBin args))"

definition handleScp :: "os \<Rightarrow> string list \<Rightarrow> string \<Rightarrow> outcome" where
  "handleScp os environ cmd = (case parseCommand cmd of
     Inl _ \<Rightarrow> Exit 1
   | Inr args0 \<Rightarrow>
      (let args = dropName ''scp'' args0; hasDownloadFlag = containsFlag args ''-f'';
           hasUploadFlag = containsFlag args ''-t''
       in if hasDownloadFlag \<and> \<not> hasUploadFlag then execCommand os environ scpBin args
          else if hasUploadFlag then Exit 1
          else Exit 1))"

text \<open>\<open>unicode.IsSpace\<close>, by which \<open>strings.TrimSpace\<close> trims\<close>

definition isSpace :: "rune \<Rightarrow> bool" where
  "isSpace r \<longleftrightarrow> r \<in> {9, 10, 11, 12, 13, 32, 133, 160, 5760, 8232, 8233, 8239, 8287, 12288}
     \<or> 8192 \<le> r \<and> r \<le> 8202"

text \<open>Each handler ends the process, so \<open>main\<close> returns its outcome.\<close>

definition main :: "os \<Rightarrow> string list \<Rightarrow> string \<Rightarrow> outcome" where
  "main os environ cmd =
    (if length cmd > maxCommandLength then Exit 1
     else if cmd = [] then Exit 1
     else if list_all isSpace (runes cmd) then Exit 1
     else if cmd = ''internal-sftp'' then execCommand os environ sftpServer [''-d'', ''/restores'']
     else if isRsyncCommand cmd then handleRsync os environ cmd
     else if isScpCommand cmd then handleScp os environ cmd
     else Exit 1)"

section \<open>Facts\<close>

text \<open>What the wrapper may become: the three programs, each with the arguments its handler checked.\<close>

definition rsync_args_ok :: "string list \<Rightarrow> bool" where
  "rsync_args_ok args \<longleftrightarrow> ''--sender'' \<in> set args \<and> (\<forall>a\<in>set args. \<forall>d\<in>set dangerousFlags. \<not> hasPrefix a d)"

definition scp_args_ok :: "string list \<Rightarrow> bool" where
  "scp_args_ok args \<longleftrightarrow> ''-f'' \<in> set args \<and> ''-t'' \<notin> set args"

definition allowed_exec :: "outcome \<Rightarrow> bool" where
  "allowed_exec out = (case out of
     Exit n \<Rightarrow> n = 1
   | Exec path argv env \<Rightarrow>
      (\<exists>args. argv = path # args \<and>
        (path = sftpServer \<and> args = [''-d'', ''/restores''] \<or>
         path = rsyncBin \<and> rsync_args_ok args \<or> path = scpBin \<and> scp_args_ok args)))"

lemma hasPrefix_refl [simp]: "hasPrefix s s"
  by (simp add: hasPrefix_def)

lemma containsFlag_iff [simp]: "containsFlag args f \<longleftrightarrow> f \<in> set args"
  by (auto simp: containsFlag_def list_ex_iff)

lemma dangerous_iff:
  "containsAnyDangerousFlag args \<longleftrightarrow> (\<exists>a\<in>set args. \<exists>d\<in>set dangerousFlags. hasPrefix a d)"
  unfolding containsAnyDangerousFlag_def list_ex_iff using hasPrefix_refl by blast

lemma handleRsync_allowed: "allowed_exec (handleRsync os environ cmd)"
  by (auto simp: handleRsync_def Let_def execCommand_def allowed_exec_def dangerous_iff rsync_args_ok_def
      split: sum.splits)

lemma handleScp_allowed: "allowed_exec (handleScp os environ cmd)"
  by (auto simp: handleScp_def Let_def execCommand_def allowed_exec_def scp_args_ok_def split: sum.splits)

lemma main_allowed: "allowed_exec (main os environ cmd)"
  using handleRsync_allowed handleScp_allowed
  by (auto simp: main_def execCommand_def allowed_exec_def [of "Exec _ _ _"] allowed_exec_def [of "Exit _"] Let_def)

lemma main_env:
  assumes "main os environ cmd = Exec path argv env"
  shows "env = filterEnvironment environ \<and> length cmd \<le> maxCommandLength"
  using assms
  by (auto simp: main_def execCommand_def handleRsync_def handleScp_def Let_def split: if_splits sum.splits)

subsection \<open>The parser reads back a quoted command line\<close>

definition plain_char :: "char \<Rightarrow> bool" where
  "plain_char c \<longleftrightarrow> byte c < 128 \<and> byte c \<notin> {9, 32, 34, 39}"

definition quotable :: "string \<Rightarrow> bool" where
  "quotable a \<longleftrightarrow> a \<noteq> [] \<and> list_all (\<lambda>c. byte c < 128 \<and> byte c \<noteq> 39) a"

definition quote_arg :: "string \<Rightarrow> string" where
  "quote_arg a = (if list_all plain_char a then a else [chr 39] @ a @ [chr 39])"

lemma encode_rune_ascii: "byte c < 128 \<Longrightarrow> encode_rune (byte c) = [c]"
  by (simp add: encode_rune_def encode_bytes_def)

lemma parse_plain:
  assumes "list_all plain_char a" and "\<not> p_escaped p" and "\<not> p_inQuote p"
  shows "foldl parseRune p (map byte a) = p \<lparr>p_current := p_current p @ a\<rparr>"
  using assms
proof (induction a arbitrary: p)
  case (Cons c a)
  then have "parseRune p (byte c) = p \<lparr>p_current := p_current p @ [c]\<rparr>"
    by (auto simp: parseRune_def writeRune_def plain_char_def encode_rune_ascii)
  with Cons show ?case by simp
qed simp

lemma parse_in_single_quotes:
  assumes "list_all (\<lambda>c. byte c < 128 \<and> byte c \<noteq> 39) a" and "\<not> p_escaped p" and "p_inQuote p"
    and "p_quoteChar p = 39"
  shows "foldl parseRune p (map byte a) = p \<lparr>p_current := p_current p @ a\<rparr>"
  using assms
proof (induction a arbitrary: p)
  case (Cons c a)
  have "encode_rune (byte c) = [c]" using Cons.prems(1) by (intro encode_rune_ascii) simp
  then have "parseRune p (byte c) = p \<lparr>p_current := p_current p @ [c]\<rparr>"
    using Cons.prems by (auto simp: parseRune_def writeRune_def)
  with Cons show ?case by simp
qed simp

text \<open>Between arguments the parser holds no open quote and no escape.\<close>

definition between :: "parser \<Rightarrow> bool" where
  "between p \<longleftrightarrow> \<not> p_escaped p \<and> \<not> p_inQuote p \<and> p_quoteChar p = 0"

lemma parse_quote_arg:
  assumes "quotable a" and "between p"
  shows "foldl parseRune p (map byte (quote_arg a)) = p \<lparr>p_current := p_current p @ a\<rparr>"
proof (cases "list_all plain_char a")
  case True
  then show ?thesis using assms by (simp add: quote_arg_def parse_plain between_def)
next
  case False
  let ?q = "p \<lparr>p_inQuote := True, p_quoteChar := 39\<rparr>"
  have "parseRune p 39 = ?q" using assms(2) by (simp add: parseRune_def between_def)
  moreover have "foldl parseRune ?q (map byte a) = ?q \<lparr>p_current := p_current p @ a\<rparr>"
    using assms by (subst parse_in_single_quotes) (auto simp: quotable_def between_def)
  moreover have "parseRune (?q \<lparr>p_current := p_current p @ a\<rparr>) 39 = p \<lparr>p_current := p_current p @ a\<rparr>"
    using assms(2) by (simp add: parseRune_def between_def)
  ultimately show ?thesis using False by (simp add: quote_arg_def)
qed

lemma parse_args:
  assumes "list_all quotable args" and "between p" and "p_current p = []"
  shows "finishParse (foldl parseRune p (map byte (join (map quote_arg args) '' ''))) = Inr (p_args p @ args)"
  using assms
proof (induction args arbitrary: p)
  case Nil
  then show ?case by (simp add: finishParse_def between_def)
next
  case (Cons a as)
  note a = parse_quote_arg [of a p]
  show ?case
  proof (cases as)
    case Nil
    then show ?thesis using Cons.prems a by (auto simp: finishParse_def between_def quotable_def)
  next
    case (Cons b bs)
    let ?p = "p \<lparr>p_args := p_args p @ [a], p_current := []\<rparr>"
    have "parseRune (p \<lparr>p_current := a\<rparr>) 32 = ?p"
      using Cons.prems by (auto simp: parseRune_def between_def quotable_def)
    moreover have "byte CHR '' '' = 32" by (simp add: byte_def)
    ultimately show ?thesis
      using Cons.prems a Cons.IH [of ?p] Cons by (simp add: between_def)
  qed
qed

lemma quote_arg_ascii: "quotable a \<Longrightarrow> c \<in> set (quote_arg a) \<Longrightarrow> byte c < 128"
  by (auto simp: quote_arg_def quotable_def list_all_iff split: if_splits)

lemma join_set: "set (join xs sep) \<subseteq> \<Union> (set ` set xs) \<union> set sep"
  by (induction xs sep rule: join.induct) auto

lemma parseCommand_quoted:
  assumes "list_all quotable args"
  shows "parseCommand (join (map quote_arg args) '' '') = Inr args"
proof -
  have "\<forall>c\<in>set (join (map quote_arg args) '' ''). byte c < 128"
    using assms join_set [of "map quote_arg args" "'' ''"] quote_arg_ascii
    by (fastforce simp: list_all_iff byte_def)
  then show ?thesis
    using parse_args [OF assms, of parser0]
    by (simp add: parseCommand_def runes_ascii) (simp add: between_def parser0_def)
qed

definition command_line :: "string list \<Rightarrow> string" where
  "command_line args = join (map quote_arg args) '' ''"

lemma rsync_line:
  assumes "args \<noteq> []"
  shows "command_line (''rsync'' # ''--server'' # args) = ''rsync --server '' @ command_line args"
  using assms by (cases args) (auto simp: command_line_def quote_arg_def plain_char_def byte_def)

lemma rsync_line_dispatch:
  "isRsyncCommand (''rsync --server '' @ s) \<and> \<not> list_all isSpace (runes (''rsync --server '' @ s))
   \<and> ''rsync --server '' @ s \<noteq> ''internal-sftp''"
proof -
  have "byte CHR ''r'' = 114" by (simp add: byte_def)
  then have "runes (CHR ''r'' # t) = 114 # runes t" for t
    using runes_of_split [of 114 "[]" "map byte t"] by (simp add: runes_def)
  then show ?thesis
    by (simp add: isRsyncCommand_def hasPrefix_def re_space_def byte_def isSpace_def)
qed

text \<open>A command line with arguments the checks let pass reaches rsync; one with a dangerous argument ends the wrapper.\<close>

lemma rsync_served:
  assumes "list_all quotable args" and "rsync_args_ok args"
    and "length (command_line (''rsync'' # ''--server'' # args)) \<le> maxCommandLength"
    and "executable os rsyncBin" and "\<forall>p a e. execve os p a e"
  shows "main os environ (command_line (''rsync'' # ''--server'' # args))
    = Exec rsyncBin (rsyncBin # ''--server'' # args) (filterEnvironment environ)"
proof -
  let ?all = "''rsync'' # ''--server'' # args"
  have "args \<noteq> []" using assms(2) by (auto simp: rsync_args_ok_def)
  note line = rsync_line [OF this]
  have q: "list_all quotable ?all" using assms(1) by (simp add: quotable_def byte_def)
  have p: "parseCommand (command_line ?all) = Inr ?all"
    unfolding command_line_def by (rule parseCommand_quoted [OF q])
  have "''--sender'' \<in> set args" "\<not> containsAnyDangerousFlag (''--server'' # args)"
    using assms(2) by (auto simp: rsync_args_ok_def dangerous_iff dangerousFlags_def hasPrefix_def)
  then have "handleRsync os environ (command_line ?all)
      = Exec rsyncBin (rsyncBin # ''--server'' # args) (filterEnvironment environ)"
    using assms(4,5) by (simp add: handleRsync_def p dropName_def execCommand_def)
  moreover have "command_line ?all \<noteq> []" using line by simp
  ultimately show ?thesis
    using rsync_line_dispatch [of "command_line args"] assms(3) line by (simp add: main_def)
qed

lemma rsync_refused:
  assumes "list_all quotable args" and "a \<in> set args" and "d \<in> set dangerousFlags" and "hasPrefix a d"
  shows "main os environ (command_line (''rsync'' # ''--server'' # args)) = Exit 1"
proof -
  let ?all = "''rsync'' # ''--server'' # args"
  have "args \<noteq> []" using assms(2) by auto
  note line = rsync_line [OF this]
  have q: "list_all quotable ?all" using assms(1) by (simp add: quotable_def byte_def)
  have p: "parseCommand (command_line ?all) = Inr ?all"
    unfolding command_line_def by (rule parseCommand_quoted [OF q])
  have "containsAnyDangerousFlag (''--server'' # args)"
    using assms(2-4) by (auto simp: dangerous_iff)
  then have "handleRsync os environ (command_line ?all) = Exit 1"
    by (simp add: handleRsync_def p dropName_def Let_def)
  then show ?thesis
    using rsync_line_dispatch [of "command_line args"] line by (simp add: main_def)
qed

section \<open>Properties\<close>

text \<open>C5. Whatever command and environment a client sends, the wrapper either exits with status 1 or becomes
  one of three programs: the SFTP server with the fixed arguments \<open>-d /restores\<close>, rsync with \<open>--sender\<close> and no
  argument starting with a dangerous flag, or scp with \<open>-f\<close> and without \<open>-t\<close>. It then has a command of at most
  10240 bytes and its environment defines none of the dangerous variables.\<close>

theorem sshd_main_only_allowed_exec:
  "allowed_exec (main os environ cmd) \<and>
   (case main os environ cmd of Exit _ \<Rightarrow> True
    | Exec path argv env \<Rightarrow> length cmd \<le> 10240 \<and> env = filter (\<lambda>e. varName e \<notin> set dangerousVars) environ)"
  using main_allowed [of os environ cmd]
  by (auto split: outcome.splits dest: main_env simp: filterEnvironment_def maxCommandLength_def)

text \<open>C24. The command parser reads back every command line written with the arguments quoted: for non-empty
  ASCII arguments without single quotes, each written as it is when it holds no blank or quote and in
  single quotes otherwise, joined by spaces, it returns exactly those arguments.\<close>

theorem parseCommand_reads_back:
  assumes "list_all quotable args"
  shows "parseCommand (command_line args) = Inr args"
  unfolding command_line_def by (rule parseCommand_quoted [OF assms])

theorem parseCommand_reads_back_witness:
  "parseCommand (command_line [''scp'', ''-f'', ''/restores/my file'']) = Inr [''scp'', ''-f'', ''/restores/my file'']"
  by (rule parseCommand_reads_back) (simp add: quotable_def byte_def)

text \<open>C25. A read-only rsync command is served: for quotable arguments that include \<open>--sender\<close> and no dangerous
  flag, in a command line within the length limit, the wrapper becomes rsync with exactly those
  arguments, provided the rsync binary is executable and \<open>execve\<close> succeeds.\<close>

theorem sshd_serves_rsync_sender:
  assumes "list_all quotable args" and "rsync_args_ok args"
    and "length (command_line (''rsync'' # ''--server'' # args)) \<le> maxCommandLength"
    and "executable os rsyncBin" and "\<forall>p a e. execve os p a e"
  shows "main os environ (command_line (''rsync'' # ''--server'' # args))
    = Exec rsyncBin (rsyncBin # ''--server'' # args) (filterEnvironment environ)"
  by (rule rsync_served [OF assms])

theorem sshd_serves_rsync_sender_witness:
  "main \<lparr>executable = \<lambda>p. True, execve = \<lambda>p a e. True\<rparr> [''PATH=/bin'', ''LD_PRELOAD=/x'']
     (command_line [''rsync'', ''--server'', ''--sender'', ''-vlogDtpr'', ''.'', ''/restores/a b''])
   = Exec rsyncBin (rsyncBin # ''--server'' # [''--sender'', ''-vlogDtpr'', ''.'', ''/restores/a b''])
       (filterEnvironment [''PATH=/bin'', ''LD_PRELOAD=/x''])"
  by (rule sshd_serves_rsync_sender)
     (simp_all add: quotable_def byte_def rsync_args_ok_def dangerousFlags_def hasPrefix_def command_line_def
       quote_arg_def plain_char_def maxCommandLength_def)

text \<open>C29. The two-argument spelling of a dangerous option is not caught: an option that is refused as \<open>opt=value\<close>
  because \<open>opt=\<close> is one of the dangerous flags, as for \<open>--rsh\<close>, \<open>--config\<close> and \<open>--rsync-path\<close>, is accepted with its value as
  the next argument. In a command line of otherwise permitted arguments the wrapper exits with status 1 for the first spelling and
  becomes rsync with the option and the value for the second.\<close>

theorem sshd_two_argument_options_pass:
  assumes "opt @ ''='' \<in> set dangerousFlags" and "quotable value" and "\<forall>d\<in>set dangerousFlags. \<not> hasPrefix value d"
    and "list_all quotable (pre @ post)" and "rsync_args_ok (pre @ post)"
    and "length (command_line (''rsync'' # ''--server'' # pre @ [opt, value] @ post)) \<le> maxCommandLength"
    and "executable os rsyncBin" and "\<forall>p a e. execve os p a e"
  shows "main os environ (command_line (''rsync'' # ''--server'' # pre @ [opt @ ''='' @ value] @ post)) = Exit 1
    \<and> main os environ (command_line (''rsync'' # ''--server'' # pre @ [opt, value] @ post))
        = Exec rsyncBin (rsyncBin # ''--server'' # pre @ [opt, value] @ post) (filterEnvironment environ)"
proof
  have opt: "opt = ''--rsh'' \<or> opt = ''--config'' \<or> opt = ''--rsync-path''"
    using assms(1) by (simp add: dangerousFlags_def append_eq_Cons_conv)
  then have q: "quotable opt" by (auto simp: quotable_def byte_def)
  have "quotable (opt @ ''='' @ value)" using q assms(2) by (auto simp: quotable_def byte_def)
  then have "list_all quotable (pre @ [opt @ ''='' @ value] @ post)" using assms(4) by simp
  then show "main os environ (command_line (''rsync'' # ''--server'' # pre @ [opt @ ''='' @ value] @ post)) = Exit 1"
    by (rule rsync_refused [where a = "opt @ ''='' @ value", OF _ _ assms(1)]) (simp_all add: hasPrefix_def)
  have "\<forall>d\<in>set dangerousFlags. \<not> hasPrefix opt d" using opt by (auto simp: dangerousFlags_def hasPrefix_def)
  then have "rsync_args_ok (pre @ [opt, value] @ post)" using assms(3,5) by (auto simp: rsync_args_ok_def)
  moreover have "list_all quotable (pre @ [opt, value] @ post)" using q assms(2,4) by simp
  ultimately show "main os environ (command_line (''rsync'' # ''--server'' # pre @ [opt, value] @ post))
        = Exec rsyncBin (rsyncBin # ''--server'' # pre @ [opt, value] @ post) (filterEnvironment environ)"
    using assms(6-8) by (intro rsync_served)
qed

theorem sshd_two_argument_options_pass_witness:
  "main \<lparr>executable = \<lambda>p. True, execve = \<lambda>p a e. True\<rparr> [] (command_line (''rsync'' # ''--server'' # [''--sender''] @ [''--rsh'', ''/tmp/x''] @ [''.'']))
     = Exec rsyncBin (rsyncBin # ''--server'' # [''--sender''] @ [''--rsh'', ''/tmp/x''] @ [''.'']) (filterEnvironment [])"
  by (rule conjunct2 [OF sshd_two_argument_options_pass])
     (simp_all add: quotable_def byte_def rsync_args_ok_def dangerousFlags_def hasPrefix_def command_line_def
       quote_arg_def plain_char_def maxCommandLength_def)

end
