(* ===== verification/Conditions.thy ===== *)
theory Conditions
  imports Kube
begin

text \<open>
  Status conditions. The functions \<open>meta.SetStatusCondition\<close> and \<open>meta.FindStatusCondition\<close> belong to
  the Kubernetes API machinery: the controllers' models take them as parameters. The locale
  \<open>status_conditions\<close> states what their documentation promises, and derives what a sequence of
  updates to several condition types leaves behind; the interpretation at the end shows that the
  promise can be kept.
\<close>

datatype condition_status = ConditionTrue | ConditionFalse | ConditionUnknown

record condition =
  cond_type :: string
  cond_status :: condition_status
  cond_reason :: string
  cond_message :: string
  cond_observedGeneration :: int
  cond_lastTransition :: time

type_synonym set_condition = "condition list \<Rightarrow> condition \<Rightarrow> condition list"
type_synonym find_condition = "condition list \<Rightarrow> string \<Rightarrow> condition option"

definition ConditionTypeProgressing :: string where "ConditionTypeProgressing = ''Progressing''"
definition ConditionTypeAvailable :: string where "ConditionTypeAvailable = ''Available''"
definition ConditionTypeDegraded :: string where "ConditionTypeDegraded = ''Degraded''"
definition ConditionTypeReady :: string where "ConditionTypeReady = ''Ready''"

lemmas condition_type_defs = ConditionTypeProgressing_def ConditionTypeAvailable_def
  ConditionTypeDegraded_def ConditionTypeReady_def

text \<open>The condition's payload: what a client may rely on, the transition time apart.\<close>

definition payload :: "condition \<Rightarrow> condition_status \<times> string \<times> string" where
  "payload c = (cond_status c, cond_reason c, cond_message c)"

definition view :: "find_condition \<Rightarrow> condition list \<Rightarrow> string \<Rightarrow> (condition_status \<times> string \<times> string) option" where
  "view fnd cs t = map_option payload (fnd cs t)"

locale status_conditions =
  fixes set_cond :: set_condition and find_cond :: find_condition
  assumes find_nil: "find_cond [] t = None"
    and view_set: "view find_cond (set_cond cs c) t
      = (if t = cond_type c then Some (payload c) else view find_cond cs t)"
begin

lemma view_set_same: "view find_cond (set_cond cs c) (cond_type c) = Some (payload c)"
  by (simp add: view_set)

lemma view_fold_other: "t \<notin> cond_type ` set us \<Longrightarrow> view find_cond (foldl set_cond cs us) t = view find_cond cs t"
  by (induction us arbitrary: cs) (auto simp: view_set)

lemma view_fold_set:
  assumes "distinct (map cond_type us)" and "c \<in> set us"
  shows "view find_cond (foldl set_cond cs us) (cond_type c) = Some (payload c)"
  using assms
proof (induction us arbitrary: cs)
  case (Cons u us)
  show ?case
  proof (cases "c = u")
    case True
    with Cons.prems show ?thesis by (simp add: view_fold_other view_set)
  next
    case False
    with Cons show ?thesis by auto
  qed
qed simp

lemma view_fold_payloads:
  assumes "map (\<lambda>c. (cond_type c, payload c)) us = ps" and "distinct (map fst ps)"
  shows "\<forall>(t, p)\<in>set ps. view find_cond (foldl set_cond cs us) t = Some p"
proof -
  have "map fst ps = map cond_type us" unfolding assms(1) [symmetric] by simp
  then have "distinct (map cond_type us)" using assms(2) by simp
  then show ?thesis using view_fold_set unfolding assms(1) [symmetric] by auto
qed

end

text \<open>A reference implementation after the documentation: replace the condition of that type in place,
  keeping its transition time when the status does not change, or append it.\<close>

fun ref_set_condition :: set_condition where
  "ref_set_condition [] c = [c]"
| "ref_set_condition (d # cs) c =
    (if cond_type d = cond_type c
     then (if cond_status d = cond_status c then c \<lparr>cond_lastTransition := cond_lastTransition d\<rparr> else c) # cs
     else d # ref_set_condition cs c)"

definition ref_find_condition :: find_condition where
  "ref_find_condition cs t = find (\<lambda>c. cond_type c = t) cs"

interpretation refcond: status_conditions ref_set_condition ref_find_condition
proof
  show "ref_find_condition [] t = None" for t by (simp add: ref_find_condition_def)
  show "view ref_find_condition (ref_set_condition cs c) t
      = (if t = cond_type c then Some (payload c) else view ref_find_condition cs t)" for cs c t
    by (induction cs) (auto simp: view_def ref_find_condition_def payload_def)
qed

end
