(* ===== verification/Flexible_Time.thy ===== *)
theory Flexible_Time
  imports Go_Strings
begin

text \<open>
  \<open>api/v1alpha1/types/time.go\<close>: the time strings of a discovery spec, which are either RFC 3339 or
  date-only, with the part of package \<open>time\<close> they use. A parsed \<open>time.Time\<close> keeps its civil fields and
  its zone offset in seconds; \<open>instant\<close> is the number of nanoseconds since 1970-01-01T00:00:00Z.
  \<open>time.Parse\<close> has a fast path for RFC 3339 that accepts a subset of what its general scanner
  accepts, with the same results, so the model is the general scanner: it takes a one-digit hour,
  and a fraction of a second after a period or a comma.
\<close>

section \<open>Civil time\<close>

record civil =
  c_year :: nat
  c_month :: nat
  c_day :: nat
  c_hour :: nat
  c_min :: nat
  c_sec :: nat
  c_nsec :: nat
  c_offset :: int

definition isLeap :: "nat \<Rightarrow> bool" where
  "isLeap y \<longleftrightarrow> y mod 4 = 0 \<and> (y mod 100 \<noteq> 0 \<or> y mod 400 = 0)"

definition daysIn :: "nat \<Rightarrow> nat \<Rightarrow> nat" where
  "daysIn m y = (if m = 2 then (if isLeap y then 29 else 28) else if m \<in> {4, 6, 9, 11} then 30 else 31)"

text \<open>Days from 1970-01-01 to a date of the proleptic Gregorian calendar.\<close>

definition daysBeforeYear :: "nat \<Rightarrow> int" where
  "daysBeforeYear y = (let p = int y - 1 in 365 * p + p div 4 - p div 100 + p div 400 - 719162)"

definition daysBeforeMonth :: "nat \<Rightarrow> nat \<Rightarrow> int" where
  "daysBeforeMonth m y = int (sum_list (map (\<lambda>k. daysIn k y) [1..<m]))"

definition epochDay :: "nat \<Rightarrow> nat \<Rightarrow> nat \<Rightarrow> int" where
  "epochDay y m d = daysBeforeYear y + daysBeforeMonth m y + int d - 1"

definition instant :: "civil \<Rightarrow> int" where
  "instant c = ((epochDay (c_year c) (c_month c) (c_day c) * 86400 + int (c_hour c) * 3600
     + int (c_min c) * 60 + int (c_sec c)) - c_offset c) * 1000000000 + int (c_nsec c)"

text \<open>The zero \<open>time.Time{}\<close>: 0001-01-01T00:00:00Z\<close>

definition zeroTime :: civil where
  "zeroTime = \<lparr>c_year = 1, c_month = 1, c_day = 1, c_hour = 0, c_min = 0, c_sec = 0, c_nsec = 0, c_offset = 0\<rparr>"

section \<open>Scanning\<close>

definition digit :: "char \<Rightarrow> nat option" where
  "digit c = (if 48 \<le> byte c \<and> byte c \<le> 57 then Some (byte c - 48) else None)"

text \<open>\<open>getnum\<close>: two digits, or one when the field is not fixed\<close>

definition getnum :: "bool \<Rightarrow> string \<Rightarrow> (nat \<times> string) option" where
  "getnum fixed s = (case s of
     [] \<Rightarrow> None
   | a # t \<Rightarrow> (case digit a of
       None \<Rightarrow> None
     | Some x \<Rightarrow> (case t of
         [] \<Rightarrow> if fixed then None else Some (x, t)
       | b # u \<Rightarrow> (case digit b of
           None \<Rightarrow> if fixed then None else Some (x, t)
         | Some y \<Rightarrow> Some (x * 10 + y, u)))))"

definition lit :: "string \<Rightarrow> string \<Rightarrow> string option" where
  "lit p s = (if hasPrefix s p then Some (drop (length p) s) else None)"

definition getyear :: "string \<Rightarrow> (nat \<times> string) option" where
  "getyear s = Option.bind (getnum True s) (\<lambda>(hi, s1). Option.bind (getnum True s1) (\<lambda>(lo, s2).
     Some (hi * 100 + lo, s2)))"

definition inRange :: "nat \<Rightarrow> nat \<Rightarrow> nat \<times> string \<Rightarrow> (nat \<times> string) option" where
  "inRange lo hi p = (if lo \<le> fst p \<and> fst p \<le> hi then Some p else None)"

fun value10 :: "string \<Rightarrow> nat \<Rightarrow> nat" where
  "value10 [] acc = acc"
| "value10 (c # s) acc = value10 s (acc * 10 + (byte c - 48))"

text \<open>A fraction after the seconds: a period or comma with a digit behind it takes all the digits
  that follow; only the first nine count.\<close>

definition getfrac :: "string \<Rightarrow> nat \<times> string" where
  "getfrac s = (case s of
     p # d # t \<Rightarrow>
       if (p = CHR ''.'' \<or> p = CHR '','') \<and> digit d \<noteq> None then
         (let ds = takeWhile (\<lambda>c. digit c \<noteq> None) (d # t); ns = take 9 ds
          in (value10 ns 0 * 10 ^ (9 - length ns), dropWhile (\<lambda>c. digit c \<noteq> None) (d # t)))
       else (0, s)
   | _ \<Rightarrow> (0, s))"

definition getzone :: "string \<Rightarrow> (int \<times> string) option" where
  "getzone s = (case s of
     [] \<Rightarrow> None
   | z # t \<Rightarrow>
      if z = CHR ''Z'' then Some (0, t)
      else if z = CHR ''+'' \<or> z = CHR ''-'' then
        Option.bind (getnum True t) (\<lambda>(h, t1). Option.bind (lit '':'' t1) (\<lambda>t2.
        Option.bind (getnum True t2) (\<lambda>(m, t3).
          if h \<le> 24 \<and> m \<le> 60
          then Some ((if z = CHR ''-'' then - 1 else 1) * (int h * 3600 + int m * 60), t3) else None)))
      else None)"

definition getdate :: "string \<Rightarrow> ((nat \<times> nat \<times> nat) \<times> string) option" where
  "getdate s = Option.bind (getyear s) (\<lambda>(y, s1). Option.bind (lit ''-'' s1) (\<lambda>s2.
     Option.bind (Option.bind (getnum True s2) (inRange 1 12)) (\<lambda>(m, s3). Option.bind (lit ''-'' s3) (\<lambda>s4.
     Option.bind (Option.bind (getnum True s4) (inRange 1 (daysIn m y))) (\<lambda>(d, s5). Some ((y, m, d), s5))))))"

text \<open>\<open>time.Parse(time.RFC3339, s)\<close> and \<open>time.Parse("2006-01-02", s)\<close>\<close>

definition parseRFC3339 :: "string \<Rightarrow> civil option" where
  "parseRFC3339 s = Option.bind (getdate s) (\<lambda>((y, mo, d), s1). Option.bind (lit ''T'' s1) (\<lambda>s2.
     Option.bind (Option.bind (getnum False s2) (inRange 0 23)) (\<lambda>(h, s3). Option.bind (lit '':'' s3) (\<lambda>s4.
     Option.bind (Option.bind (getnum True s4) (inRange 0 59)) (\<lambda>(mi, s5). Option.bind (lit '':'' s5) (\<lambda>s6.
     Option.bind (Option.bind (getnum True s6) (inRange 0 59)) (\<lambda>(sec, s7).
     Option.bind (getzone (snd (getfrac s7))) (\<lambda>(off, s9).
       if s9 = [] then Some \<lparr>c_year = y, c_month = mo, c_day = d, c_hour = h, c_min = mi, c_sec = sec,
         c_nsec = fst (getfrac s7), c_offset = off\<rparr> else None))))))))"

definition parseDateOnly :: "string \<Rightarrow> civil option" where
  "parseDateOnly s = Option.bind (getdate s) (\<lambda>((y, mo, d), s1).
     if s1 = [] then Some \<lparr>c_year = y, c_month = mo, c_day = d, c_hour = 0, c_min = 0, c_sec = 0,
       c_nsec = 0, c_offset = 0\<rparr> else None)"

section \<open>FlexibleTime\<close>

text \<open>The error text holds the quoted string; the model writes the quotes without escapes.\<close>

definition FlexibleTime_Time :: "string \<Rightarrow> civil result" where
  "FlexibleTime_Time str =
    (if str = [] then Inr zeroTime
     else case parseRFC3339 str of
       Some t \<Rightarrow> Inr t
     | None \<Rightarrow> (case parseDateOnly str of
         Some t \<Rightarrow> Inr t
       | None \<Rightarrow> Inl (errorf (''unable to parse time '' @ [chr 34] @ str @ [chr 34] @
           '': expected RFC3339 (2006-01-02T15:04:05Z) or date-only (2006-01-02) format''))))"

definition pad2 :: "nat \<Rightarrow> string" where
  "pad2 n = [chr (48 + n div 10 mod 10), chr (48 + n mod 10)]"

text \<open>\<open>t.Format(time.RFC3339)\<close> of a UTC time with a four-digit year; it drops the nanoseconds.\<close>

definition formatRFC3339 :: "civil \<Rightarrow> string" where
  "formatRFC3339 c = pad2 (c_year c div 100) @ pad2 (c_year c mod 100) @ ''-'' @ pad2 (c_month c) @ ''-'' @
     pad2 (c_day c) @ ''T'' @ pad2 (c_hour c) @ '':'' @ pad2 (c_min c) @ '':'' @ pad2 (c_sec c) @ ''Z''"

definition GetEndOfDay :: "string \<Rightarrow> string result" where
  "GetEndOfDay ft = (case FlexibleTime_Time ft of
     Inl e \<Rightarrow> Inl e
   | Inr t \<Rightarrow> Inr (formatRFC3339 \<lparr>c_year = c_year t, c_month = c_month t, c_day = c_day t, c_hour = 23,
       c_min = 59, c_sec = 59, c_nsec = 999999999, c_offset = 0\<rparr>))"

section \<open>Facts\<close>

definition civil_ok :: "civil \<Rightarrow> bool" where
  "civil_ok c \<longleftrightarrow> c_year c \<le> 9999 \<and> 1 \<le> c_month c \<and> c_month c \<le> 12 \<and> 1 \<le> c_day c
     \<and> c_day c \<le> daysIn (c_month c) (c_year c) \<and> c_hour c \<le> 23 \<and> c_min c \<le> 59 \<and> c_sec c \<le> 59"

lemma digit_less: "digit c = Some x \<Longrightarrow> x \<le> 9"
  by (auto simp: digit_def split: if_splits)

lemma digit_chr [simp]: "n < 10 \<Longrightarrow> digit (chr (48 + n)) = Some n"
  by (simp add: digit_def)

lemma getnum_pad2: "n < 100 \<Longrightarrow> getnum fixed (pad2 n @ s) = Some (n, s)"
  by (simp add: getnum_def pad2_def)

lemma getnum_less: "getnum fixed s = Some (n, t) \<Longrightarrow> n < 100"
  by (auto simp: getnum_def split: list.splits option.splits if_splits dest!: digit_less)

lemma lit_append [simp]: "lit p (p @ s) = Some s"
  by (simp add: lit_def hasPrefix_def)

lemma lit_Cons [simp]: "lit [c] (c # s) = Some s"
  by (simp add: lit_def hasPrefix_def)

lemma daysIn_less: "daysIn m y < 100"
  by (simp add: daysIn_def)

lemma getdate_pad2:
  assumes "y \<le> 9999" and "1 \<le> m" and "m \<le> 12" and "1 \<le> d" and "d \<le> daysIn m y"
  shows "getdate (pad2 (y div 100) @ pad2 (y mod 100) @ CHR ''-'' # pad2 m @ CHR ''-'' # pad2 d @ s)
    = Some ((y, m, d), s)"
proof -
  have "getyear (pad2 (y div 100) @ pad2 (y mod 100) @ t) = Some (y, t)" for t
    using assms(1) by (simp add: getyear_def getnum_pad2)
  moreover have "d < 100" using assms(5) daysIn_less [of m y] by linarith
  ultimately show ?thesis using assms by (simp add: getdate_def getnum_pad2 inRange_def)
qed

text \<open>Formatting a UTC time and parsing it back drops the nanoseconds and nothing else.\<close>

lemma parse_format:
  assumes "civil_ok c" and "c_offset c = 0"
  shows "parseRFC3339 (formatRFC3339 c) = Some (c \<lparr>c_nsec := 0\<rparr>)"
proof -
  have f: "getfrac ''Z'' = (0, ''Z'')" by (simp add: getfrac_def)
  show ?thesis
    using assms unfolding parseRFC3339_def formatRFC3339_def civil_ok_def
    by (simp add: getdate_pad2 getnum_pad2 inRange_def f getzone_def)
qed

lemma getdate_ok:
  assumes "getdate s = Some ((y, m, d), t)"
  shows "y \<le> 9999 \<and> 1 \<le> m \<and> m \<le> 12 \<and> 1 \<le> d \<and> d \<le> daysIn m y"
  using assms
  by (auto simp: getdate_def getyear_def inRange_def bind_eq_Some_conv split: if_splits dest!: getnum_less)

lemma FlexibleTime_ok:
  assumes "FlexibleTime_Time s = Inr t"
  shows "civil_ok t"
proof -
  have "civil_ok t" if "parseRFC3339 s = Some t"
    using that
    by (auto simp: parseRFC3339_def bind_eq_Some_conv civil_ok_def inRange_def
        split: if_split_asm dest!: getdate_ok)
  moreover have "civil_ok t" if "parseDateOnly s = Some t"
    using that by (auto simp: parseDateOnly_def bind_eq_Some_conv civil_ok_def split: if_splits dest!: getdate_ok)
  moreover have "civil_ok zeroTime" by (simp add: civil_ok_def zeroTime_def daysIn_def)
  ultimately show ?thesis
    using assms by (auto simp: FlexibleTime_Time_def split: if_splits option.splits)
qed

text \<open>The end of a day, read back, is its last whole second in UTC.\<close>

lemma GetEndOfDay_time:
  assumes "FlexibleTime_Time ft = Inr t"
  shows "\<exists>s. GetEndOfDay ft = Inr s \<and> FlexibleTime_Time s =
    Inr (t \<lparr>c_hour := 23, c_min := 59, c_sec := 59, c_nsec := 0, c_offset := 0\<rparr>)"
proof -
  let ?e = "t \<lparr>c_hour := 23, c_min := 59, c_sec := 59, c_nsec := 999999999, c_offset := 0\<rparr>"
  have "civil_ok ?e" using FlexibleTime_ok [OF assms] by (simp add: civil_ok_def)
  then have "parseRFC3339 (formatRFC3339 ?e) = Some (?e \<lparr>c_nsec := 0\<rparr>)" by (rule parse_format) simp
  moreover have "formatRFC3339 ?e \<noteq> []" by (simp add: formatRFC3339_def pad2_def)
  moreover have "GetEndOfDay ft = Inr (formatRFC3339 ?e)"
    using assms by (simp add: GetEndOfDay_def formatRFC3339_def)
  ultimately show ?thesis by (auto simp: FlexibleTime_Time_def)
qed

end
