(* ===== verification/Discovery_Types.thy ===== *)
theory Discovery_Types
  imports Conditions Flexible_Time Velero_Utils
begin

text \<open>
  The types of the VirtualMachineBackupsDiscovery API
  (\<open>api/v1alpha1/virtualmachinebackupsdiscovery_types.go\<close>, \<open>types/backup_discovery.go\<close>, \<open>types/pvc.go\<close>).
  A Go pointer is an \<^typ>\<open>'a option\<close>, a nil slice the empty list. The string enumerations are datatypes;
  their zero value, the empty string, is a constructor of its own.
\<close>

record pvc_info =
  PVCUID :: string
  PVCName :: string
  PVCNamespace :: string
  PVCSize :: string

record velero_backup_info =
  vb_name :: string
  vb_namespace :: string
  vb_createdAt :: "time option"
  vb_pvcs :: "pvc_info list"

record invalid_backup_info =
  ib_info :: velero_backup_info
  ib_reason :: string

datatype discovery_status =
    StatusUnset
  | StatusNew
  | StatusInProgress
  | StatusCompleted
  | StatusSkipped
  | StatusFailed

record backup_progress =
  bp_info :: velero_backup_info
  bp_status :: discovery_status
  bp_message :: string
  bp_lastUpdated :: "time option"

record discovery_statistics =
  ds_total :: int
  ds_start :: "time option"
  ds_completion :: "time option"
  ds_pending :: int
  ds_inProgress :: int
  ds_completed :: int
  ds_skipped :: int
  ds_failed :: int

record vmbd_spec =
  VirtualMachineName :: string
  VirtualMachineNamespace :: string
  StartTime :: "string option"
  EndTime :: "string option"
  RequestedBackups :: "string list"

datatype vmbd_phase =
    VMBDPhaseUnset
  | VMBDPhaseNew
  | VMBDPhaseInProgress
  | VMBDPhaseCompleted
  | VMBDPhasePartiallyFailed
  | VMBDPhaseFailed

record vmbd_status =
  vs_phase :: vmbd_phase
  vs_observedGeneration :: int
  vs_conditions :: "condition list"
  vs_validBackups :: "velero_backup_info list"
  vs_invalidBackups :: "invalid_backup_info list"
  vs_progress :: "backup_progress list"
  vs_stats :: "discovery_statistics option"

record vmbd =
  vmbd_meta :: object_meta
  vmbd_spec :: vmbd_spec
  vmbd_status :: vmbd_status

abbreviation bp_name :: "backup_progress \<Rightarrow> string" where "bp_name p \<equiv> vb_name (bp_info p)"
abbreviation ib_name :: "invalid_backup_info \<Rightarrow> string" where "ib_name p \<equiv> vb_name (ib_info p)"

definition plain_info :: "string \<Rightarrow> string \<Rightarrow> time option \<Rightarrow> velero_backup_info" where
  "plain_info name ns t = \<lparr>vb_name = name, vb_namespace = ns, vb_createdAt = t, vb_pvcs = []\<rparr>"

lemma plain_info_name [simp]: "vb_name (plain_info n ns t) = n"
  by (simp add: plain_info_def)

definition empty_status :: vmbd_status where
  "empty_status = \<lparr>vs_phase = VMBDPhaseUnset, vs_observedGeneration = 0, vs_conditions = [], vs_validBackups = [],
     vs_invalidBackups = [], vs_progress = [], vs_stats = None\<rparr>"

end
