(* ===== verification/Discovery.thy ===== *)
theory Discovery
  imports Discovery_Types Common_Functions
begin

text \<open>
  The VirtualMachineBackupsDiscovery controller
  (\<open>internal/controller/virtualmachinebackupsdiscovery_controller.go\<close>), one definition per method. Every
  call on the API server, the backup contents reader and the clock is a field of \<open>vmbd_env\<close> over an
  arbitrary world type; so are the three choices the Go runtime makes: the order in which a map is
  iterated, the order \<open>sort.Slice\<close> gives to equal elements and the order in which the goroutines of a
  batch finish.

  A successful status update also writes the server's answer into the caller's object, which the model
  returns; a call that fails leaves the object alone.
\<close>

section \<open>The environment\<close>

record 'w vmbd_env =
  OADPNamespace :: string
  get_vmbd :: "namespaced_name \<Rightarrow> ('w, vmbd) io"
  update_vmbd_status :: "vmbd \<Rightarrow> ('w, vmbd) io"
  list_vmbds :: "('w, vmbd list) io"
  list_backups :: "string \<Rightarrow> ('w, backup list) io"
  get_backup :: "namespaced_name \<Rightarrow> ('w, backup) io"
  contains_vm :: "(backup \<Rightarrow> string \<Rightarrow> string \<Rightarrow> ('w, bool) io) option"
  time_now :: "'w \<Rightarrow> time \<times> 'w"
  set_status_condition :: set_condition
  map_order :: "string list \<Rightarrow> string list"
  sort_candidates :: "backup list \<Rightarrow> backup list"
  schedule :: "nat \<Rightarrow> nat list"

text \<open>The clock never fails.\<close>

definition nowR :: "'w vmbd_env \<Rightarrow> ('w, time) io" where
  "nowR E w = (let (t, w1) = time_now E w in (Inr t, w1))"

abbreviation upd_status :: "(vmbd_status \<Rightarrow> vmbd_status) \<Rightarrow> vmbd \<Rightarrow> vmbd" where
  "upd_status \<equiv> vmbd_status_update"

section \<open>Status updates\<close>

text \<open>
  \<open>updateStatusWithRetry\<close>: three attempts; after a conflict on the first or second the status is copied
  onto a fresh object. The Go function retries on a local variable, so the caller's object takes the
  server's answer only when the first attempt succeeds.
\<close>

fun updateStatusAttempts :: "'w vmbd_env \<Rightarrow> nat \<Rightarrow> vmbd \<Rightarrow> vmbd \<Rightarrow> ('w, vmbd) io" where
  "updateStatusAttempts E 0 caller v w = (Inl (errorf ''failed to update status after 3 retries''), w)"
| "updateStatusAttempts E (Suc n) caller v w = (case update_vmbd_status E v w of
     (Inr answer, w1) \<Rightarrow> (Inr (if n = 2 then answer else caller), w1)
   | (Inl e, w1) \<Rightarrow>
      if IsConflict e \<and> n > 0 then
        (case get_vmbd E (key_of (vmbd_meta v)) w1 of
           (Inl e2, w2) \<Rightarrow> (Inl e2, w2)
         | (Inr fresh, w2) \<Rightarrow> updateStatusAttempts E n caller (fresh \<lparr>vmbd_status := vmbd_status v\<rparr>) w2)
      else (Inl e, w1))"

definition updateStatusWithRetry :: "'w vmbd_env \<Rightarrow> vmbd \<Rightarrow> ('w, vmbd) io" where
  "updateStatusWithRetry E v = updateStatusAttempts E 3 v v"

definition isDiscoveryComplete :: "vmbd_status \<Rightarrow> bool" where
  "isDiscoveryComplete st = (case vs_stats st of
     None \<Rightarrow> False
   | Some s \<Rightarrow> ds_pending s = 0 \<and> ds_inProgress s = 0 \<and> vs_phase st = VMBDPhaseCompleted)"

section \<open>Initialisation\<close>

definition initializePhase :: "'w vmbd_env \<Rightarrow> vmbd \<Rightarrow> ('w, bool) io" where
  "initializePhase E v =
     bindR (updateStatusWithRetry E (upd_status (\<lambda>s. s \<lparr>vs_phase := VMBDPhaseNew\<rparr>) v)) (\<lambda>_. returnR True)"

text \<open>\<open>tnow\<close> is the clock's reading, which counts only when the spec has no end time.\<close>

definition parseTimeRange :: "vmbd_spec \<Rightarrow> time \<Rightarrow> (time \<times> time) result" where
  "parseTimeRange sp tnow =
    (case (case StartTime sp of None \<Rightarrow> Inr zeroTime | Some s \<Rightarrow> FlexibleTime_Time s) of
       Inl e \<Rightarrow> Inl (errorf_w ''invalid startTime format: '' e)
     | Inr start \<Rightarrow>
        (case EndTime sp of
           None \<Rightarrow> Inr (instant start, tnow)
         | Some ft \<Rightarrow>
            (case FlexibleTime_Time ft of
               Inl e \<Rightarrow> Inl (errorf_w ''invalid endTime format: '' e)
             | Inr t \<Rightarrow>
                if c_hour t = 0 \<and> c_min t = 0 \<and> c_sec t = 0 \<and> c_nsec t = 0
                   \<and> instant t = instant (t \<lparr>c_hour := 0, c_min := 0, c_sec := 0, c_nsec := 0, c_offset := 0\<rparr>) then
                  (case GetEndOfDay ft of
                     Inl e \<Rightarrow> Inl (errorf_w ''failed to convert endTime to end of day: '' e)
                   | Inr eod \<Rightarrow>
                      (case FlexibleTime_Time eod of
                         Inl e \<Rightarrow> Inl (errorf_w ''failed to parse end of day time: '' e)
                       | Inr t2 \<Rightarrow> Inr (instant start, instant t2)))
                else Inr (instant start, instant t))))"

definition vm_object :: "vmbd_spec \<Rightarrow> object_meta" where
  "vm_object sp = empty_meta \<lparr>om_name := VirtualMachineName sp, om_namespace := VirtualMachineNamespace sp\<rparr>"

definition shouldInclude :: "vmbd_spec \<Rightarrow> time \<Rightarrow> time \<Rightarrow> backup \<Rightarrow> bool" where
  "shouldInclude sp start stop b =
    (let created = om_creation (bk_meta b);
         includeByTime = \<not> created < start \<and> \<not> created > stop;
         includeByExplicitList = list_ex (\<lambda>n. bk_name b = n) (RequestedBackups sp);
         hasTimeRange = StartTime sp \<noteq> None \<or> EndTime sp \<noteq> None;
         hasExplicitList = RequestedBackups sp \<noteq> []
     in if hasExplicitList \<and> hasTimeRange then includeByExplicitList \<or> includeByTime
        else if hasExplicitList then includeByExplicitList
        else includeByTime)"

definition isCandidate :: "vmbd_spec \<Rightarrow> time \<Rightarrow> time \<Rightarrow> backup \<Rightarrow> bool" where
  "isCandidate sp start stop b \<longleftrightarrow>
     bk_phase b = ''Completed'' \<and> \<not> BackupAsyncOperationsIncomplete (Some b)
     \<and> shouldInclude sp start stop b \<and> ValidateVMInBackupSpec b (vm_object sp)"

datatype requested_class = Missing | Filtered | Candidate | AsyncIncomplete

definition classifyBackup :: "vmbd_spec \<Rightarrow> backup \<Rightarrow> requested_class" where
  "classifyBackup sp b = (if BackupAsyncOperationsIncomplete (Some b) then AsyncIncomplete
     else if ValidateVMInBackupSpec b (vm_object sp) then Candidate else Filtered)"

text \<open>The status map after the loop over the listed backups, and the backup it last saw under a name.\<close>

definition requestedStatus :: "vmbd_spec \<Rightarrow> backup list \<Rightarrow> string \<Rightarrow> requested_class \<times> backup option" where
  "requestedStatus sp bs n = (case find (\<lambda>b. bk_name b = n) (rev bs) of
     None \<Rightarrow> (Missing, None) | Some b \<Rightarrow> (classifyBackup sp b, Some b))"

record classified =
  cl_invalid :: "invalid_backup_info list"
  cl_missing :: int
  cl_filtered :: "backup_progress list"

definition asyncReason :: "backup option \<Rightarrow> string" where
  "asyncReason ob = (case BackupAsyncOperationsReason ob of
     Some r \<Rightarrow> if r = [] then ''Backup has incomplete async operations'' else r | None \<Rightarrow> [])"

definition classifyStep :: "'w vmbd_env \<Rightarrow> vmbd_spec \<Rightarrow> backup list \<Rightarrow> string \<Rightarrow> classified \<Rightarrow> ('w, classified) io" where
  "classifyStep E sp bs n c = (case requestedStatus sp bs n of
     (Missing, _) \<Rightarrow> returnR (c \<lparr>cl_invalid := cl_invalid c @
         [\<lparr>ib_info = plain_info n (OADPNamespace E) None, ib_reason = ''Backup not found in cluster''\<rparr>],
         cl_missing := cl_missing c + 1\<rparr>)
   | (Filtered, _) \<Rightarrow> bindR (nowR E) (\<lambda>t. returnR (c \<lparr>cl_filtered := cl_filtered c @
         [\<lparr>bp_info = plain_info n (OADPNamespace E) None, bp_status = StatusSkipped,
           bp_message = ''Backup doesn'' @ [chr 39] @ ''t include target VM namespace'',
           bp_lastUpdated = Some t\<rparr>]\<rparr>))
   | (AsyncIncomplete, ob) \<Rightarrow> returnR (c \<lparr>cl_invalid := cl_invalid c @
         [\<lparr>ib_info = plain_info n (OADPNamespace E) (map_option GetBackupTimestamp ob),
           ib_reason = asyncReason ob\<rparr>]\<rparr>)
   | (Candidate, _) \<Rightarrow> returnR c)"

definition classifyRequestedBackups :: "'w vmbd_env \<Rightarrow> vmbd_spec \<Rightarrow> backup list \<Rightarrow> ('w, classified) io" where
  "classifyRequestedBackups E sp bs =
    (if RequestedBackups sp = [] then returnR \<lparr>cl_invalid = [], cl_missing = 0, cl_filtered = []\<rparr>
     else foldR (classifyStep E sp bs) (map_order E (remdups (RequestedBackups sp)))
            \<lparr>cl_invalid = [], cl_missing = 0, cl_filtered = []\<rparr>)"

definition newProgress :: "'w vmbd_env \<Rightarrow> backup \<Rightarrow> backup_progress list \<Rightarrow> ('w, backup_progress list) io" where
  "newProgress E b ps = bindR (nowR E) (\<lambda>t. returnR (ps @
     [\<lparr>bp_info = plain_info (bk_name b) (OADPNamespace E) (Some (GetBackupTimestamp b)), bp_status = StatusNew,
       bp_message = [], bp_lastUpdated = Some t\<rparr>]))"

definition initialStatus ::
    "vmbd_spec \<Rightarrow> backup_progress list \<Rightarrow> classified \<Rightarrow> time \<Rightarrow> vmbd_status \<Rightarrow> vmbd_status" where
  "initialStatus sp ps cl t st =
    (let n = int (length ps); f = int (length (cl_filtered cl))
     in st \<lparr>vs_invalidBackups := (if RequestedBackups sp \<noteq> [] then cl_invalid cl else []),
          vs_stats := Some \<lparr>ds_total = n + cl_missing cl + f, ds_start = Some t, ds_completion = None,
             ds_pending = n, ds_inProgress = 0, ds_completed = 0, ds_skipped = f, ds_failed = cl_missing cl\<rparr>,
          vs_progress := ps @ cl_filtered cl,
          vs_validBackups := []\<rparr>)"

definition initializeDiscovery :: "'w vmbd_env \<Rightarrow> vmbd \<Rightarrow> ('w, bool) io" where
  "initializeDiscovery E v w = (case list_backups E (OADPNamespace E) w of
     (Inl e, w1) \<Rightarrow>
        bindR (updateStatusWithRetry E (upd_status (\<lambda>s. s \<lparr>vs_phase := VMBDPhaseFailed,
                  vs_observedGeneration := om_generation (vmbd_meta v)\<rparr>) v)) (\<lambda>_. failR e) w1
   | (Inr bs, w1) \<Rightarrow>
        bindR (if EndTime (vmbd_spec v) = None then nowR E else returnR 0) (\<lambda>tnow.
        (case parseTimeRange (vmbd_spec v) tnow of
           Inl e \<Rightarrow> failR e
         | Inr (start, stop) \<Rightarrow>
            (let sp = vmbd_spec v; candidates = sort_candidates E (filter (isCandidate sp start stop) bs)
             in bindR (classifyRequestedBackups E sp bs) (\<lambda>cl.
                bindR (foldR (newProgress E) candidates []) (\<lambda>ps.
                bindR (nowR E) (\<lambda>t.
                bindR (updateStatusWithRetry E (upd_status (initialStatus sp ps cl t) v)) (\<lambda>_.
                  returnR True))))))) w1)"

definition clearedStatus :: "vmbd_phase \<Rightarrow> vmbd_status \<Rightarrow> vmbd_status" where
  "clearedStatus ph st = st \<lparr>vs_phase := ph, vs_stats := None, vs_progress := [], vs_validBackups := [],
     vs_invalidBackups := [], vs_conditions := []\<rparr>"

definition initializeDiscoveryProcess :: "'w vmbd_env \<Rightarrow> vmbd \<Rightarrow> ('w, bool) io" where
  "initializeDiscoveryProcess E v =
     bindR (updateStatusWithRetry E (upd_status (clearedStatus VMBDPhaseInProgress) v)) (initializeDiscovery E)"

section \<open>One batch\<close>

text \<open>The result slot of a goroutine: the index of its entry, the status and the message. A slot that no
  goroutine writes keeps the zero value of its struct.\<close>

record slot =
  r_idx :: nat
  r_status :: discovery_status
  r_message :: string

definition zero_slot :: slot where
  "zero_slot = \<lparr>r_idx = 0, r_status = StatusUnset, r_message = []\<rparr>"

definition setProgress ::
    "nat \<Rightarrow> discovery_status \<Rightarrow> string \<Rightarrow> time \<Rightarrow> backup_progress list \<Rightarrow> backup_progress list" where
  "setProgress i st msg t ps =
     ps[i := (ps ! i) \<lparr>bp_status := st, bp_message := msg, bp_lastUpdated := Some t\<rparr>]"

definition indicesWith :: "discovery_status \<Rightarrow> backup_progress list \<Rightarrow> nat list" where
  "indicesWith st ps = filter (\<lambda>i. bp_status (ps ! i) = st) [0..<length ps]"

definition addStats :: "(discovery_statistics \<Rightarrow> discovery_statistics) \<Rightarrow> vmbd_status \<Rightarrow> vmbd_status" where
  "addStats f st = st \<lparr>vs_stats := map_option f (vs_stats st)\<rparr>"

text \<open>Dereferencing a nil \<open>DiscoveryStats\<close> panics; the controller runtime recovers and reports an error.\<close>

definition withStats :: "vmbd \<Rightarrow> ('w, 'a) io \<Rightarrow> ('w, 'a) io" where
  "withStats v m = (if vs_stats (vmbd_status v) = None
     then failR (errorf ''panic: invalid memory address or nil pointer dereference'') else m)"

text \<open>The body of the goroutine for one entry.\<close>

definition checkBackup :: "'w vmbd_env \<Rightarrow> vmbd_spec \<Rightarrow> string \<Rightarrow> 'w \<Rightarrow> (discovery_status \<times> string) \<times> 'w" where
  "checkBackup E sp name w = (case contains_vm E of
     None \<Rightarrow> ((StatusFailed, ''Backup contents reader not configured''), w)
   | Some reader \<Rightarrow>
      (case get_backup E \<lparr>nn_namespace = OADPNamespace E, nn_name = name\<rparr> w of
         (Inl e, w1) \<Rightarrow>
            if IsNotFound e then ((StatusFailed, ''Backup not found in cluster''), w1)
            else ((StatusFailed, ''Failed to fetch backup: '' @ err_msg e), w1)
       | (Inr b, w1) \<Rightarrow>
          (case reader b (VirtualMachineName sp) (VirtualMachineNamespace sp) w1 of
             (Inl e, w2) \<Rightarrow> ((StatusFailed, ''Failed to check backup contents: '' @ err_msg e), w2)
           | (Inr True, w2) \<Rightarrow> ((StatusCompleted, ''VM found in backup''), w2)
           | (Inr False, w2) \<Rightarrow> ((StatusSkipped, ''VM not found in backup''), w2))))"

text \<open>The goroutines finish in the order \<open>sched\<close>; each writes the slot \<open>idx % batchSize\<close>.\<close>

fun runBatch :: "'w vmbd_env \<Rightarrow> vmbd_spec \<Rightarrow> backup_progress list \<Rightarrow> nat list \<Rightarrow> nat list \<Rightarrow> slot list \<Rightarrow> 'w \<Rightarrow> slot list \<times> 'w" where
  "runBatch E sp ps idxs [] results w = (results, w)"
| "runBatch E sp ps idxs (g # gs) results w =
    (let idx = idxs ! g; ((st, msg), w1) = checkBackup E sp (bp_name (ps ! idx)) w
     in runBatch E sp ps idxs gs
          (results[idx mod length idxs := \<lparr>r_idx = idx, r_status = st, r_message = msg\<rparr>]) w1)"

definition applySlot :: "time \<Rightarrow> backup_progress list \<times> velero_backup_info list \<Rightarrow> slot
    \<Rightarrow> backup_progress list \<times> velero_backup_info list" where
  "applySlot t acc r =
    (let ps = setProgress (r_idx r) (r_status r) (r_message r) t (fst acc)
     in (ps, if r_status r = StatusCompleted then snd acc @ [bp_info (ps ! r_idx r)] else snd acc))"

definition countSlots :: "slot list \<Rightarrow> discovery_statistics \<Rightarrow> discovery_statistics" where
  "countSlots rs s = foldl (\<lambda>s r. case r_status r of
       StatusCompleted \<Rightarrow> s \<lparr>ds_completed := ds_completed s + 1\<rparr>
     | StatusSkipped \<Rightarrow> s \<lparr>ds_skipped := ds_skipped s + 1\<rparr>
     | StatusFailed \<Rightarrow> s \<lparr>ds_failed := ds_failed s + 1\<rparr>
     | _ \<Rightarrow> s) s rs"

definition markBatch :: "nat list \<Rightarrow> time \<Rightarrow> vmbd_status \<Rightarrow> vmbd_status" where
  "markBatch idxs t st =
    (let n = int (length idxs)
     in addStats (\<lambda>s. s \<lparr>ds_pending := ds_pending s - n, ds_inProgress := ds_inProgress s + n\<rparr>)
          (st \<lparr>vs_progress := foldl (\<lambda>ps i. setProgress i StatusInProgress ''Analyzing backup contents'' t ps)
             (vs_progress st) idxs\<rparr>))"

definition finishBatch :: "slot list \<Rightarrow> time \<Rightarrow> vmbd_status \<Rightarrow> vmbd_status" where
  "finishBatch results t st =
    (let (ps, found) = foldl (applySlot t) (vs_progress st, []) results; n = int (length results)
     in addStats (\<lambda>s. countSlots results (s \<lparr>ds_inProgress := ds_inProgress s - n\<rparr>))
          (st \<lparr>vs_progress := ps, vs_validBackups := vs_validBackups st @ found\<rparr>))"

definition resetStuck :: "nat \<Rightarrow> time \<Rightarrow> vmbd_status \<Rightarrow> vmbd_status" where
  "resetStuck i t st =
     addStats (\<lambda>s. s \<lparr>ds_inProgress := ds_inProgress s - 1, ds_pending := ds_pending s + 1\<rparr>)
       (st \<lparr>vs_progress := setProgress i StatusNew ''Retrying stuck backup analysis'' t (vs_progress st)\<rparr>)"

definition processDiscoveryBatch :: "'w vmbd_env \<Rightarrow> vmbd \<Rightarrow> ('w, bool) io" where
  "processDiscoveryBatch E v =
    (let pending = indicesWith StatusNew (vs_progress (vmbd_status v))
     in if pending = [] then
          (case indicesWith StatusInProgress (vs_progress (vmbd_status v)) of
             i # _ \<Rightarrow> bindR (nowR E) (\<lambda>t.
                withStats v (bindR (updateStatusWithRetry E (upd_status (resetStuck i t) v)) (\<lambda>_. returnR True)))
           | [] \<Rightarrow> returnR False)
        else
          (let idxs = take BackupDiscoveryBatchSize pending; n = length idxs
           in bindR (nowR E) (\<lambda>t.
              withStats v (bindR (updateStatusWithRetry E (upd_status (markBatch idxs t) v)) (\<lambda>v1 w.
                (case runBatch E (vmbd_spec v1) (vs_progress (vmbd_status v1)) idxs (schedule E n)
                        (replicate n zero_slot) w of
                   (results, w1) \<Rightarrow>
                     bindR (nowR E) (\<lambda>t2.
                     bindR (updateStatusWithRetry E (upd_status (finishBatch results t2) v1)) (\<lambda>_.
                       returnR True)) w1))))))"

section \<open>Finalisation\<close>

definition validOf :: "backup_progress list \<Rightarrow> velero_backup_info list" where
  "validOf ps = map bp_info (filter (\<lambda>p. bp_status p = StatusCompleted) ps)"

definition invalidOf :: "backup_progress list \<Rightarrow> invalid_backup_info list" where
  "invalidOf ps = map (\<lambda>p. \<lparr>ib_info = bp_info p, ib_reason = bp_message p\<rparr>)
     (filter (\<lambda>p. bp_status p \<noteq> StatusCompleted) ps)"

definition allInvalidBackups ::
    "string \<Rightarrow> string list \<Rightarrow> backup_progress list \<Rightarrow> invalid_backup_info list \<Rightarrow> invalid_backup_info list" where
  "allInvalidBackups ns requested ps existing =
    (let relevant = (if requested \<noteq> [] then filter (\<lambda>i. ib_name i \<in> set requested) existing else []);
         missing = (if requested \<noteq> [] then
            map (\<lambda>n. \<lparr>ib_info = plain_info n ns None, ib_reason = ''Backup not found in cluster''\<rparr>)
              (filter (\<lambda>n. n \<notin> bp_name ` set ps \<and> n \<notin> ib_name ` set relevant) requested) else []);
         deduped = filter (\<lambda>i. ib_name i \<notin> ib_name ` set relevant) (invalidOf ps)
     in relevant @ deduped @ missing)"

definition nat_string :: "nat \<Rightarrow> string" where
  "nat_string n = decimal n"

definition discoveryCondition :: "nat \<Rightarrow> time \<Rightarrow> condition" where
  "discoveryCondition n t =
    (if n > 0 then \<lparr>cond_type = ConditionTypeReady, cond_status = ConditionTrue, cond_reason = ''DiscoverySuccessful'',
        cond_message = ''Successfully discovered '' @ nat_string n @ '' valid backups'',
        cond_observedGeneration = 0, cond_lastTransition = t\<rparr>
     else \<lparr>cond_type = ConditionTypeReady, cond_status = ConditionFalse, cond_reason = ''NoValidBackups'',
        cond_message = ''No backups found containing the specified virtual machine'',
        cond_observedGeneration = 0, cond_lastTransition = t\<rparr>)"

definition finalStatus :: "'w vmbd_env \<Rightarrow> velero_backup_info list \<Rightarrow> invalid_backup_info list \<Rightarrow> int \<Rightarrow> time \<Rightarrow> time
    \<Rightarrow> vmbd_status \<Rightarrow> vmbd_status" where
  "finalStatus E valid invalid gen t t2 st =
     (addStats (\<lambda>s. s \<lparr>ds_completion := Some t\<rparr>) st)
       \<lparr>vs_validBackups := valid, vs_invalidBackups := invalid, vs_phase := VMBDPhaseCompleted,
        vs_observedGeneration := gen,
        vs_conditions := set_status_condition E (vs_conditions st) (discoveryCondition (length valid) t2)\<rparr>"

text \<open>
  The changes are computed on the step's object and applied to a freshly read one, which is the only one
  written; the step's own copy is dropped. The clock is read for the completion time and for the two
  conditions.
\<close>

definition finalizeDiscoveryProcess :: "'w vmbd_env \<Rightarrow> vmbd \<Rightarrow> ('w, bool) io" where
  "finalizeDiscoveryProcess E v =
    (let st = vmbd_status v; sp = vmbd_spec v; valid = validOf (vs_progress st);
         invalid = allInvalidBackups (OADPNamespace E) (RequestedBackups sp) (vs_progress st) (vs_invalidBackups st)
     in bindR (nowR E) (\<lambda>t. withStats v (bindR (nowR E) (\<lambda>_.
        bindR (get_vmbd E (key_of (vmbd_meta v))) (\<lambda>fresh. bindR (nowR E) (\<lambda>t2.
        bindR (updateStatusWithRetry E (upd_status (finalStatus E valid invalid (om_generation (vmbd_meta fresh)) t t2) fresh))
          (\<lambda>_. returnR False)))))))"

definition checkForSpecChanges :: "'w vmbd_env \<Rightarrow> vmbd \<Rightarrow> ('w, bool) io" where
  "checkForSpecChanges E v =
    (if vs_observedGeneration (vmbd_status v) \<noteq> om_generation (vmbd_meta v) then
       bindR (updateStatusWithRetry E
          (upd_status (\<lambda>s. (clearedStatus VMBDPhaseNew s) \<lparr>vs_observedGeneration := 0\<rparr>) v)) (\<lambda>_. returnR True)
     else returnR False)"

section \<open>Reconciliation\<close>

datatype vmbd_step = StepInitPhase | StepInitDiscovery | StepCheckSpec | StepBatch | StepFinalize

definition selectStep :: "vmbd \<Rightarrow> vmbd_step" where
  "selectStep v =
    (let st = vmbd_status v; gen = om_generation (vmbd_meta v)
     in if vs_phase st = VMBDPhaseUnset then StepInitPhase
        else if vs_stats st = None then StepInitDiscovery
        else if isDiscoveryComplete st \<and> vs_observedGeneration st = gen then StepCheckSpec
        else if isDiscoveryComplete st \<and> vs_observedGeneration st \<noteq> gen then StepInitDiscovery
        else case vs_stats st of
          Some s \<Rightarrow> if ds_pending s > 0 \<or> ds_inProgress s > 0 then StepBatch else StepFinalize
        | None \<Rightarrow> StepFinalize)"

definition runStep :: "'w vmbd_env \<Rightarrow> vmbd_step \<Rightarrow> vmbd \<Rightarrow> ('w, bool) io" where
  "runStep E s = (case s of
     StepInitPhase \<Rightarrow> initializePhase E
   | StepInitDiscovery \<Rightarrow> initializeDiscoveryProcess E
   | StepCheckSpec \<Rightarrow> checkForSpecChanges E
   | StepBatch \<Rightarrow> processDiscoveryBatch E
   | StepFinalize \<Rightarrow> finalizeDiscoveryProcess E)"

text \<open>The result is \<open>ctrl.Result\<close>'s \<open>Requeue\<close> flag.\<close>

definition Reconcile :: "'w vmbd_env \<Rightarrow> namespaced_name \<Rightarrow> ('w, bool) io" where
  "Reconcile E req w = (case get_vmbd E req w of
     (Inl e, w1) \<Rightarrow> if IsNotFound e then (Inr False, w1) else (Inl e, w1)
   | (Inr v, w1) \<Rightarrow> bindR (get_vmbd E req) (\<lambda>fresh. runStep E (selectStep v) fresh) w1)"

definition mapBackupToVMBD :: "'w vmbd_env \<Rightarrow> object_meta \<Rightarrow> 'w \<Rightarrow> namespaced_name list \<times> 'w" where
  "mapBackupToVMBD E obj w =
    (if om_namespace obj \<noteq> OADPNamespace E then ([], w)
     else case list_vmbds E w of
       (Inl _, w1) \<Rightarrow> ([], w1)
     | (Inr vs, w1) \<Rightarrow> (map (\<lambda>v. key_of (vmbd_meta v)) vs, w1))"

end
