(* ===== verification/Discovery_Batch.thy ===== *)
theory Discovery_Batch
  imports Discovery
begin

text \<open>
  The bookkeeping of a discovery batch: the counters of the statistics agree with the progress entries,
  the entries still to be looked at form one run of consecutive indices, and therefore the slots
  \<open>idx % batchSize\<close> that the goroutines of a batch write are pairwise different, so every entry of
  the batch receives exactly its own result, whatever the order in which the goroutines finish.
\<close>

section \<open>Counting entries\<close>

definition countS :: "discovery_status \<Rightarrow> backup_progress list \<Rightarrow> int" where
  "countS s ps = int (length (filter (\<lambda>p. bp_status p = s) ps))"

definition stats_match :: "backup_progress list \<Rightarrow> discovery_statistics \<Rightarrow> bool" where
  "stats_match ps s \<longleftrightarrow> ds_pending s = countS StatusNew ps \<and> ds_inProgress s = countS StatusInProgress ps
     \<and> ds_completed s = countS StatusCompleted ps \<and> ds_skipped s = countS StatusSkipped ps
     \<and> countS StatusFailed ps \<le> ds_failed s \<and> countS StatusUnset ps = 0
     \<and> ds_total s = ds_pending s + ds_inProgress s + ds_completed s + ds_skipped s + ds_failed s"

definition new_run :: "backup_progress list \<Rightarrow> bool" where
  "new_run ps \<longleftrightarrow> (\<exists>a n. indicesWith StatusNew ps = [a..<a + n])"

definition progress_inv :: "vmbd_status \<Rightarrow> bool" where
  "progress_inv st \<longleftrightarrow> new_run (vs_progress st) \<and>
     (case vs_stats st of None \<Rightarrow> True | Some s \<Rightarrow> stats_match (vs_progress st) s)"

definition setAll :: "time \<Rightarrow> backup_progress list \<Rightarrow> slot list \<Rightarrow> backup_progress list" where
  "setAll t ps rs = foldl (\<lambda>ps r. setProgress (r_idx r) (r_status r) (r_message r) t ps) ps rs"

lemma setProgress_length [simp]: "length (setProgress i st msg t ps) = length ps"
  by (simp add: setProgress_def)

lemma setProgress_nth:
  "j < length ps \<Longrightarrow> bp_status (setProgress i st msg t ps ! j) = (if i = j then st else bp_status (ps ! j))"
  by (simp add: setProgress_def nth_list_update)

lemma setProgress_info: "bp_info (setProgress i st msg t ps ! j) = bp_info (ps ! j)"
proof (cases "i = j \<and> i < length ps")
  case True
  then show ?thesis by (simp add: setProgress_def)
next
  case False
  then show ?thesis by (cases "i < length ps") (auto simp: setProgress_def list_update_beyond)
qed

lemma countS_setProgress:
  assumes "i < length ps"
  shows "countS s (setProgress i st msg t ps) = countS s ps
    - (if bp_status (ps ! i) = s then 1 else 0) + (if st = s then 1 else 0)"
  using length_filter_upd [OF assms, of "\<lambda>p. bp_status p = s"
      "(ps ! i) \<lparr>bp_status := st, bp_message := msg, bp_lastUpdated := Some t\<rparr>"]
  unfolding countS_def setProgress_def by (auto split: if_splits)

lemma setAll_Cons: "setAll t ps (r # rs) = setAll t (setProgress (r_idx r) (r_status r) (r_message r) t ps) rs"
  by (simp add: setAll_def)

lemma setAll_Nil [simp]: "setAll t ps [] = ps"
  by (simp add: setAll_def)

lemma setAll_length [simp]: "length (setAll t ps rs) = length ps"
  by (induction rs arbitrary: ps) (simp_all add: setAll_Cons)

lemma setAll_other:
  "i \<notin> r_idx ` set rs \<Longrightarrow> i < length ps \<Longrightarrow> bp_status (setAll t ps rs ! i) = bp_status (ps ! i)"
  by (induction rs arbitrary: ps) (auto simp: setAll_Cons setProgress_nth)

lemma setAll_nth:
  assumes "distinct (map r_idx rs)" and "r \<in> set rs" and "r_idx r < length ps"
  shows "bp_status (setAll t ps rs ! r_idx r) = r_status r"
  using assms
proof (induction rs arbitrary: ps)
  case (Cons x rs)
  show ?case
  proof (cases "r \<in> set rs")
    case True
    with Cons show ?thesis by (simp add: setAll_Cons)
  next
    case False
    then have "r = x" using Cons.prems(2) by simp
    with Cons.prems show ?thesis by (simp add: setAll_Cons setAll_other setProgress_nth)
  qed
qed simp

lemma countS_setAll:
  assumes "distinct (map r_idx rs)" and "\<forall>r\<in>set rs. r_idx r < length ps \<and> bp_status (ps ! r_idx r) = old"
  shows "countS s (setAll t ps rs) = countS s ps - (if s = old then int (length rs) else 0)
    + int (length (filter (\<lambda>r. r_status r = s) rs))"
  using assms
proof (induction rs arbitrary: ps)
  case (Cons x rs)
  let ?ps = "setProgress (r_idx x) (r_status x) (r_message x) t ps"
  have "\<forall>r\<in>set rs. r_idx r < length ?ps \<and> bp_status (?ps ! r_idx r) = old"
    using Cons.prems by (auto simp: setProgress_nth)
  then show ?case
    using Cons.IH [of ?ps] Cons.prems countS_setProgress [of "r_idx x" ps s "r_status x" "r_message x" t]
    by (auto simp: setAll_Cons)
qed simp

section \<open>The pending run\<close>

lemma indicesWith_set: "i \<in> set (indicesWith s ps) \<longleftrightarrow> i < length ps \<and> bp_status (ps ! i) = s"
  by (auto simp: indicesWith_def)

lemma indicesWith_sorted: "sorted (indicesWith s ps) \<and> distinct (indicesWith s ps)"
  by (simp add: indicesWith_def sorted_wrt_filter)

lemma indicesWith_eqI:
  assumes "\<forall>i. i < length ps \<and> bp_status (ps ! i) = s \<longleftrightarrow> i \<in> set xs" and "sorted xs" and "distinct xs"
  shows "indicesWith s ps = xs"
  using assms indicesWith_sorted indicesWith_set by (intro sorted_distinct_set_unique) auto

lemma length_indicesWith: "int (length (indicesWith s ps)) = countS s ps"
proof -
  have "map ((!) ps) (indicesWith s ps) = filter (\<lambda>p. bp_status p = s) (map ((!) ps) [0..<length ps])"
    by (simp add: indicesWith_def filter_map o_def)
  then have "length (indicesWith s ps) = length (filter (\<lambda>p. bp_status p = s) ps)"
    unfolding map_nth by (metis length_map)
  then show ?thesis by (simp add: countS_def)
qed

lemma take_upt_min: "take k [a..<a + n] = [a..<a + min k n]"
  by (simp add: min_def)

section \<open>Marking a batch\<close>

definition markSlots :: "nat list \<Rightarrow> slot list" where
  "markSlots idxs = map (\<lambda>i. \<lparr>r_idx = i, r_status = StatusInProgress, r_message = ''Analyzing backup contents''\<rparr>) idxs"

lemma markSlots_idx [simp]: "map r_idx (markSlots idxs) = idxs"
  by (simp add: markSlots_def o_def)

lemma mark_progress: "vs_progress (markBatch idxs t st) = setAll t (vs_progress st) (markSlots idxs)"
  unfolding markBatch_def addStats_def setAll_def markSlots_def
  by (simp add: Let_def foldl_map)

lemma finish_progress: "vs_progress (finishBatch rs t st) = setAll t (vs_progress st) rs"
proof -
  have "fst (foldl (applySlot t) (ps, fs) rs) = setAll t ps rs" for ps fs
    by (induction rs arbitrary: ps fs) (auto simp: setAll_Cons applySlot_def Let_def)
  then show ?thesis by (simp add: finishBatch_def addStats_def Let_def case_prod_beta)
qed

lemma filter_markSlots: "length (filter (\<lambda>r. r_status r = s) (markSlots idxs))
    = (if s = StatusInProgress then length idxs else 0)"
  by (auto simp: markSlots_def filter_map o_def)

text \<open>Taking a prefix of the run leaves a run.\<close>

lemma setAll_new_rest:
  assumes "indicesWith StatusNew ps = [a..<a + n]" and "map r_idx rs = [a..<a + k]" and "k \<le> n"
    and "\<forall>r\<in>set rs. r_status r \<noteq> StatusNew"
  shows "indicesWith StatusNew (setAll t ps rs) = [a + k..<a + n]"
proof (rule indicesWith_eqI)
  have ix: "i < length ps \<and> bp_status (ps ! i) = StatusNew \<longleftrightarrow> a \<le> i \<and> i < a + n" for i
    using indicesWith_set [of i StatusNew ps] assms(1) by auto
  have im: "r_idx ` set rs = {a..<a + k}" using assms(2) by (metis atLeastLessThan_upt list.set_map)
  show "\<forall>i. i < length (setAll t ps rs) \<and> bp_status (setAll t ps rs ! i) = StatusNew
      \<longleftrightarrow> i \<in> set [a + k..<a + n]"
  proof
    fix i
    show "i < length (setAll t ps rs) \<and> bp_status (setAll t ps rs ! i) = StatusNew
        \<longleftrightarrow> i \<in> set [a + k..<a + n]"
    proof (cases "i \<in> {a..<a + k}")
      case True
      then obtain r where r: "r \<in> set rs" "r_idx r = i" using im by (metis imageE)
      have "i < length ps" using True ix [of i] assms(3) by auto
      then have "bp_status (setAll t ps rs ! i) = r_status r"
        using setAll_nth [of rs r ps t] r assms(2) by simp
      then show ?thesis using r assms(4) True by auto
    next
      case False
      then have "i < length ps \<Longrightarrow> bp_status (setAll t ps rs ! i) = bp_status (ps ! i)"
        using setAll_other im by blast
      then show ?thesis using ix [of i] False assms(3) by auto
    qed
  qed
qed simp_all

section \<open>Running a batch\<close>

definition decided :: "discovery_status \<Rightarrow> bool" where
  "decided s \<longleftrightarrow> s = StatusCompleted \<or> s = StatusSkipped \<or> s = StatusFailed"

lemma checkBackup_decided: "decided (fst (fst (checkBackup E sp name w)))"
  by (auto simp: checkBackup_def decided_def split: option.splits prod.splits sum.splits bool.splits)

text \<open>The world after some goroutines of a batch have finished, in the order \<open>gs\<close>.\<close>

fun batchWorld :: "'w vmbd_env \<Rightarrow> vmbd_spec \<Rightarrow> backup_progress list \<Rightarrow> nat list \<Rightarrow> nat list \<Rightarrow> 'w \<Rightarrow> 'w" where
  "batchWorld E sp ps idxs [] w = w"
| "batchWorld E sp ps idxs (g # gs) w = batchWorld E sp ps idxs gs (snd (checkBackup E sp (bp_name (ps ! (idxs ! g))) w))"

text \<open>A slot holds the result of the goroutine of its entry, as it was when the goroutines that finish earlier had finished.\<close>

definition own_result :: "'w vmbd_env \<Rightarrow> vmbd_spec \<Rightarrow> backup_progress list \<Rightarrow> nat list \<Rightarrow> nat list \<Rightarrow> 'w \<Rightarrow> slot \<Rightarrow> bool" where
  "own_result E sp ps idxs gs w r \<longleftrightarrow> (\<exists>pre g post. gs = pre @ g # post \<and> idxs ! g = r_idx r
     \<and> fst (checkBackup E sp (bp_name (ps ! r_idx r)) (batchWorld E sp ps idxs pre w)) = (r_status r, r_message r))"

lemma own_result_first:
  "fst (checkBackup E sp (bp_name (ps ! r_idx r)) w) = (r_status r, r_message r) \<Longrightarrow> idxs ! g = r_idx r
    \<Longrightarrow> own_result E sp ps idxs (g # gs) w r"
  unfolding own_result_def by (rule exI [of _ "[]"]) auto

lemma own_result_later:
  assumes "own_result E sp ps idxs gs (snd (checkBackup E sp (bp_name (ps ! (idxs ! g))) w)) r"
  shows "own_result E sp ps idxs (g # gs) w r"
proof -
  obtain pre h post where "gs = pre @ h # post" "idxs ! h = r_idx r"
    "fst (checkBackup E sp (bp_name (ps ! r_idx r)) (batchWorld E sp ps idxs (g # pre) w)) = (r_status r, r_message r)"
    using assms unfolding own_result_def by auto
  then show ?thesis unfolding own_result_def by (intro exI [of _ "g # pre"] exI [of _ h] exI [of _ post]) simp
qed

lemma own_result_decided: "own_result E sp ps idxs gs w r \<Longrightarrow> decided (r_status r)"
  using checkBackup_decided unfolding own_result_def by (metis fst_conv)

text \<open>Each goroutine that has run owns its slot; the other slots are untouched.\<close>

lemma runBatch_slots:
  assumes "distinct (map (\<lambda>i. i mod length idxs) idxs)" and "distinct gs" and "set gs \<subseteq> {..<length idxs}"
    and "length results = length idxs"
    and "runBatch E sp ps idxs gs results w = (results', w')"
  shows "length results' = length idxs
    \<and> (\<forall>g\<in>set gs. r_idx (results' ! (idxs ! g mod length idxs)) = idxs ! g
           \<and> own_result E sp ps idxs gs w (results' ! (idxs ! g mod length idxs)))
    \<and> (\<forall>g < length idxs. g \<notin> set gs \<longrightarrow>
           results' ! (idxs ! g mod length idxs) = results ! (idxs ! g mod length idxs))"
  using assms(2-)
proof (induction gs arbitrary: results w)
  case Nil
  then show ?case by auto
next
  case (Cons g gs)
  let ?n = "length idxs" and ?s = "idxs ! g mod length idxs"
  obtain st msg w1 where cb: "checkBackup E sp (bp_name (ps ! (idxs ! g))) w = ((st, msg), w1)"
    by (metis prod.collapse)
  let ?r = "\<lparr>r_idx = idxs ! g, r_status = st, r_message = msg\<rparr>"
  let ?res = "results[?s := ?r]"
  have g: "g < ?n" "g \<notin> set gs" using Cons.prems by auto
  then have n0: "0 < ?n" by auto
  have run: "runBatch E sp ps idxs gs ?res w1 = (results', w')"
    using Cons.prems(4) cb by (simp add: Let_def)
  have IH: "length results' = ?n"
    "\<forall>h\<in>set gs. r_idx (results' ! (idxs ! h mod ?n)) = idxs ! h \<and> own_result E sp ps idxs gs w1 (results' ! (idxs ! h mod ?n))"
    "\<forall>h<?n. h \<notin> set gs \<longrightarrow> results' ! (idxs ! h mod ?n) = ?res ! (idxs ! h mod ?n)"
    using Cons.IH [of ?res w1] Cons.prems run by auto
  have own: "results' ! ?s = ?r" using IH(3) g n0 Cons.prems(3) by simp
  have res: "own_result E sp ps idxs (g # gs) w ?r" by (rule own_result_first) (simp_all add: cb)
  have later: "own_result E sp ps idxs (g # gs) w x" if "own_result E sp ps idxs gs w1 x" for x
    using that by (intro own_result_later) (simp add: cb)
  have other: "?s \<noteq> idxs ! h mod ?n" if "h < ?n" "h \<noteq> g" for h
    using assms(1) that g(1) by (auto simp: distinct_conv_nth)
  then show ?case using IH own res g later by auto
qed

lemma runBatch_results:
  assumes idxs: "idxs = [a..<a + n]" and sched: "mset gs = mset [0..<n]"
    and run: "runBatch E sp ps idxs gs (replicate n zero_slot) w = (rs, w')"
  shows "length rs = n" and "set (map r_idx rs) = {a..<a + n}" and "distinct (map r_idx rs)"
    and "\<forall>r\<in>set rs. own_result E sp ps idxs gs w r" and "\<forall>r\<in>set rs. decided (r_status r)"
    and "\<forall>j<n. r_idx (rs ! j) mod n = j"
proof -
  have len: "length idxs = n" using idxs by simp
  have d: "distinct (map (\<lambda>i. i mod length idxs) idxs)" unfolding len unfolding idxs by (rule mod_upt_distinct)
  have sd: "distinct gs" using sched by (metis distinct_upt mset_eq_imp_distinct_iff)
  have ss: "set gs = {..<n}" using sched by (metis atLeast_upt set_mset_mset)
  have R: "length rs = n"
    "\<forall>g<n. r_idx (rs ! (idxs ! g mod n)) = idxs ! g \<and> own_result E sp ps idxs gs w (rs ! (idxs ! g mod n))"
    using runBatch_slots [OF d sd, of "replicate n zero_slot" E sp ps w rs w'] ss len run by auto
  have "card (set (map (\<lambda>i. i mod n) idxs)) = n" using distinct_card [OF d] len by simp
  moreover have "set (map (\<lambda>i. i mod n) idxs) \<subseteq> {..<n}"
    using len by (auto intro!: mod_less_divisor)
  ultimately have cover: "set (map (\<lambda>i. i mod n) idxs) = {..<n}" by (intro card_subset_eq) auto
  have slot: "\<exists>g<n. j = idxs ! g mod n" if "j < n" for j
  proof -
    have "j \<in> set (map (\<lambda>i. i mod n) idxs)" using cover that by simp
    then show ?thesis using len by (auto simp: in_set_conv_nth)
  qed
  have each: "r_idx r \<in> set idxs \<and> own_result E sp ps idxs gs w r" if r: "r \<in> set rs" for r
  proof -
    obtain j where "j < n" "r = rs ! j" using r R(1) by (metis in_set_conv_nth)
    then show ?thesis using slot R(2) len by (metis nth_mem)
  qed
  have onto: "i \<in> set (map r_idx rs)" if i: "i \<in> set idxs" for i
  proof -
    obtain g where g: "g < n" "idxs ! g = i" using i len by (metis in_set_conv_nth)
    have "idxs ! g mod n < length rs" using g(1) R(1) by simp
    then show ?thesis using R(2) g by (metis in_set_conv_nth length_map nth_map)
  qed
  show "length rs = n" by (rule R)
  show sets: "set (map r_idx rs) = {a..<a + n}" using each onto idxs by auto
  show "distinct (map r_idx rs)" by (rule card_distinct) (simp add: sets R(1) del: set_map)
  show "\<forall>r\<in>set rs. own_result E sp ps idxs gs w r" using each by blast
  then show "\<forall>r\<in>set rs. decided (r_status r)" by (auto dest: own_result_decided)
  show "\<forall>j<n. r_idx (rs ! j) mod n = j" using slot R(2) by metis
qed

text \<open>When a check does not change the outcome of another one, the batch does not depend on the order.\<close>

definition checks_apart :: "'w vmbd_env \<Rightarrow> vmbd_spec \<Rightarrow> bool" where
  "checks_apart E sp \<longleftrightarrow> (\<forall>n m w. fst (checkBackup E sp n (snd (checkBackup E sp m w))) = fst (checkBackup E sp n w))"

lemma batchWorld_apart: "checks_apart E sp \<Longrightarrow> fst (checkBackup E sp n (batchWorld E sp ps idxs gs w)) = fst (checkBackup E sp n w)"
  by (induction gs arbitrary: w) (auto simp: checks_apart_def)

lemma own_result_apart:
  "own_result E sp ps idxs gs w r \<Longrightarrow> checks_apart E sp
    \<Longrightarrow> fst (checkBackup E sp (bp_name (ps ! r_idx r)) w) = (r_status r, r_message r)"
  unfolding own_result_def by (auto simp: batchWorld_apart)

lemma runBatch_schedule:
  assumes gs: "mset gs = mset [0..<n]" and hs: "mset hs = mset [0..<n]"
    and rs: "runBatch E sp ps [a..<a + n] gs (replicate n zero_slot) w = (rs, w1)"
    and qs: "runBatch E sp ps [a..<a + n] hs (replicate n zero_slot) w = (qs, w2)"
    and apart: "checks_apart E sp"
  shows "qs = rs"
proof (rule nth_equalityI)
  note R = runBatch_results [OF refl gs rs] and Q = runBatch_results [OF refl hs qs]
  show "length qs = length rs" using R(1) Q(1) by simp
  fix j
  assume j: "j < length qs"
  let ?r = "rs ! j" and ?q = "qs ! j"
  have m: "?r \<in> set rs" "?q \<in> set qs" using j R(1) Q(1) by auto
  have "r_idx ?q mod n = r_idx ?r mod n" using j R(1,6) Q(1,6) by auto
  moreover have "r_idx ?q \<in> set [a..<a + n]" "r_idx ?r \<in> set [a..<a + n]" using m R(2) Q(2) by auto
  ultimately have i: "r_idx ?q = r_idx ?r"
    using mod_upt_distinct [of n a] by (auto simp: distinct_map inj_on_def)
  have "fst (checkBackup E sp (bp_name (ps ! r_idx ?q)) w) = (r_status ?q, r_message ?q)"
    "fst (checkBackup E sp (bp_name (ps ! r_idx ?r)) w) = (r_status ?r, r_message ?r)"
    using own_result_apart [OF _ apart] m R(4) Q(4) by blast+
  with i show "?q = ?r" by (cases ?q; cases ?r) simp
qed

section \<open>The operations keep the invariant\<close>

lemma decided_simps [simp]: "decided StatusCompleted" "decided StatusSkipped" "decided StatusFailed"
  "\<not> decided StatusNew" "\<not> decided StatusInProgress" "\<not> decided StatusUnset"
  by (simp_all add: decided_def)

lemma countSlots_fields:
  "ds_pending (countSlots rs s) = ds_pending s" "ds_inProgress (countSlots rs s) = ds_inProgress s"
  "ds_total (countSlots rs s) = ds_total s"
  "ds_completed (countSlots rs s) = ds_completed s + int (length (filter (\<lambda>r. r_status r = StatusCompleted) rs))"
  "ds_skipped (countSlots rs s) = ds_skipped s + int (length (filter (\<lambda>r. r_status r = StatusSkipped) rs))"
  "ds_failed (countSlots rs s) = ds_failed s + int (length (filter (\<lambda>r. r_status r = StatusFailed) rs))"
  unfolding countSlots_def
  by (induction rs arbitrary: s; simp; auto split: discovery_status.splits)+

lemma length_decided:
  assumes "\<forall>r\<in>set rs. decided (r_status r)"
  shows "length (filter (\<lambda>r. r_status r = StatusCompleted) rs) + length (filter (\<lambda>r. r_status r = StatusSkipped) rs)
    + length (filter (\<lambda>r. r_status r = StatusFailed) rs) = length rs"
  using assms by (induction rs) (auto simp: decided_def)

lemma filter_undecided:
  assumes "\<forall>r\<in>set rs. decided (r_status r)" and "\<not> decided s"
  shows "filter (\<lambda>r. r_status r = s) rs = []"
  using assms by (induction rs) auto

lemma markBatch_inv:
  assumes "progress_inv st" and "idxs = take k (indicesWith StatusNew (vs_progress st))"
  shows "progress_inv (markBatch idxs t st)"
proof -
  let ?ps = "vs_progress st" and ?qs = "setAll t (vs_progress st) (markSlots idxs)"
  obtain a n where run: "indicesWith StatusNew ?ps = [a..<a + n]"
    using assms(1) by (auto simp: progress_inv_def new_run_def)
  have idxs: "idxs = [a..<a + min k n]" using assms(2) run by (simp only: take_upt_min)
  have old: "\<forall>r\<in>set (markSlots idxs). r_idx r < length ?ps \<and> bp_status (?ps ! r_idx r) = StatusNew"
    using indicesWith_set assms(2) by (auto simp: markSlots_def dest!: in_set_takeD)
  have "indicesWith StatusNew ?qs = [a + min k n..<a + n]"
    by (rule setAll_new_rest [OF run]) (use idxs in \<open>auto simp: markSlots_def o_def\<close>)
  then have "new_run ?qs" unfolding new_run_def
    by (metis add.assoc le_add_diff_inverse min.cobounded2)
  moreover have "countS s ?qs = countS s ?ps - (if s = StatusNew then int (length idxs) else 0)
      + (if s = StatusInProgress then int (length idxs) else 0)" for s
    using countS_setAll [OF _ old, of s t] by (simp add: filter_markSlots idxs) (simp add: markSlots_def)
  ultimately show ?thesis
    using assms(1) unfolding progress_inv_def mark_progress
    by (auto simp: markBatch_def addStats_def Let_def stats_match_def split: option.splits)
qed

lemma finishBatch_inv:
  assumes "progress_inv st" and "length rs = n" and "set (map r_idx rs) = set idxs" and "distinct (map r_idx rs)"
    and "\<forall>r\<in>set rs. decided (r_status r)"
    and "\<forall>i\<in>set idxs. i < length (vs_progress st) \<and> bp_status (vs_progress st ! i) = StatusInProgress"
  shows "progress_inv (finishBatch rs t st)"
proof -
  let ?ps = "vs_progress st" and ?qs = "setAll t (vs_progress st) rs"
  have old: "\<forall>r\<in>set rs. r_idx r < length ?ps \<and> bp_status (?ps ! r_idx r) = StatusInProgress"
    using assms(3,6) by auto
  note cnt = countS_setAll [OF assms(4) old]
  obtain a m where run: "indicesWith StatusNew ?ps = [a..<a + m]"
    using assms(1) by (auto simp: progress_inv_def new_run_def)
  have "bp_status (?qs ! i) = StatusNew \<longleftrightarrow> bp_status (?ps ! i) = StatusNew" if "i < length ?ps" for i
  proof (cases "i \<in> r_idx ` set rs")
    case True
    then obtain r where "r \<in> set rs" "i = r_idx r" by auto
    then show ?thesis using setAll_nth [OF assms(4), of r ?ps t] old assms(5) by (auto simp: decided_def)
  next
    case False
    then show ?thesis using setAll_other that by metis
  qed
  then have "indicesWith StatusNew ?qs = indicesWith StatusNew ?ps"
    unfolding indicesWith_def setAll_length by (intro filter_cong) auto
  then have nr: "new_run ?qs" using run by (auto simp: new_run_def)
  have zero: "length (filter (\<lambda>r. r_status r = s) rs) = 0" if "\<not> decided s" for s
    using filter_undecided [OF assms(5) that] by simp
  show ?thesis
    using assms(1) nr length_decided [OF assms(5)] unfolding progress_inv_def finish_progress
    by (auto simp: finishBatch_def addStats_def Let_def case_prod_beta stats_match_def countSlots_fields cnt zero
        split: option.splits)
qed

lemma resetStuck_inv:
  assumes "progress_inv st" and "indicesWith StatusNew (vs_progress st) = []"
    and "i \<in> set (indicesWith StatusInProgress (vs_progress st))"
  shows "progress_inv (resetStuck i t st)"
proof -
  let ?ps = "vs_progress st"
  let ?qs = "setProgress i StatusNew ''Retrying stuck backup analysis'' t ?ps"
  have i: "i < length ?ps" "bp_status (?ps ! i) = StatusInProgress"
    using assms(3) by (auto simp: indicesWith_set)
  have none: "\<not> (j < length ?ps \<and> bp_status (?ps ! j) = StatusNew)" for j
    using assms(2) indicesWith_set [of j StatusNew ?ps] by simp
  have "indicesWith StatusNew ?qs = [i..<i + 1]"
    by (rule indicesWith_eqI) (use i none in \<open>auto simp: setProgress_nth split: if_splits\<close>)
  then have "new_run ?qs" unfolding new_run_def by blast
  then show ?thesis
    using assms(1) countS_setProgress [OF i(1)] i(2)
    by (auto simp: progress_inv_def resetStuck_def addStats_def stats_match_def split: option.splits)
qed

lemma initialStatus_inv:
  assumes "\<forall>p\<in>set ps. bp_status p = StatusNew" and "\<forall>p\<in>set (cl_filtered cl). bp_status p = StatusSkipped"
    and "0 \<le> cl_missing cl"
  shows "progress_inv (initialStatus sp ps cl t st)"
proof -
  let ?qs = "ps @ cl_filtered cl"
  have "countS s ?qs = (if s = StatusNew then int (length ps) else 0)
      + (if s = StatusSkipped then int (length (cl_filtered cl)) else 0)" for s
  proof -
    have "filter (\<lambda>p. bp_status p = s) ps = (if s = StatusNew then ps else [])"
      using assms(1) by (auto simp: filter_id_conv filter_empty_conv)
    moreover have "filter (\<lambda>p. bp_status p = s) (cl_filtered cl) = (if s = StatusSkipped then cl_filtered cl else [])"
      using assms(2) by (auto simp: filter_id_conv filter_empty_conv)
    ultimately show ?thesis by (simp add: countS_def)
  qed
  moreover have "indicesWith StatusNew ?qs = [0..<0 + length ps]"
    by (rule indicesWith_eqI) (use assms(1,2) in \<open>auto simp: nth_append\<close>)
  then have "new_run ?qs" unfolding new_run_def by blast
  ultimately show ?thesis
    using assms(3) by (simp add: progress_inv_def initialStatus_def Let_def stats_match_def)
qed

lemma finalStatus_inv: "progress_inv st \<Longrightarrow> progress_inv (finalStatus E va iv g t t2 st)"
  by (auto simp: progress_inv_def finalStatus_def addStats_def stats_match_def split: option.splits)

lemma clearedStatus_inv: "progress_inv (clearedStatus ph st)"
proof -
  have "indicesWith StatusNew [] = [0..<0 + 0]" by (simp add: indicesWith_def)
  then have "new_run []" unfolding new_run_def by blast
  then show ?thesis by (simp add: progress_inv_def clearedStatus_def)
qed

lemma vmbd_entries_marked:
  assumes "idxs = take k (indicesWith StatusNew (vs_progress st))" and "i \<in> set idxs"
  shows "i < length (vs_progress (markBatch idxs t st))
    \<and> bp_status (vs_progress (markBatch idxs t st) ! i) = StatusInProgress"
proof -
  have i: "i < length (vs_progress st)" using assms indicesWith_set by (auto dest!: in_set_takeD)
  have d: "distinct idxs" using assms(1) indicesWith_sorted by simp
  let ?r = "\<lparr>r_idx = i, r_status = StatusInProgress, r_message = ''Analyzing backup contents''\<rparr>"
  have "?r \<in> set (markSlots idxs)" using assms(2) by (auto simp: markSlots_def)
  then show ?thesis
    using setAll_nth [of "markSlots idxs" ?r "vs_progress st" t] d i by (simp add: mark_progress)
qed

end
