(* ===== verification/Discovery_Control.thy ===== *)
theory Discovery_Control
  imports Discovery_Batch
begin

text \<open>
  The discovery controller against the API server. The locale \<open>vmbd_server\<close> states what the
  controller relies on: a read returns the stored status and changes nothing, a successful status
  update stores the status it sends and a failed one stores nothing, and no other call touches the
  status. Spec and metadata may change at any time. Under these laws every reconciliation keeps the
  bookkeeping invariant. The locale \<open>reliable_server\<close> adds that calls succeed, and gives progress.
\<close>

section \<open>The API server\<close>

locale vmbd_server =
  fixes E :: "'w vmbd_env" and status_of :: "'w \<Rightarrow> vmbd_status option" and key :: namespaced_name
  assumes get_law: "get_vmbd E key w = (r, w1) \<Longrightarrow> status_of w1 = status_of w"
    and get_value: "get_vmbd E key w = (Inr v, w1) \<Longrightarrow> status_of w = Some (vmbd_status v) \<and> key_of (vmbd_meta v) = key"
    and update_fail: "key_of (vmbd_meta v) = key \<Longrightarrow> update_vmbd_status E v w = (Inl e, w1) \<Longrightarrow> status_of w1 = status_of w"
    and update_ok: "key_of (vmbd_meta v) = key \<Longrightarrow> update_vmbd_status E v w = (Inr a, w1) \<Longrightarrow>
      status_of w1 = Some (vmbd_status v) \<and> vmbd_status a = vmbd_status v \<and> key_of (vmbd_meta a) = key"
    and list_law: "list_backups E ns w = (rl, w1) \<Longrightarrow> status_of w1 = status_of w"
    and getb_law: "get_backup E k w = (rb, w1) \<Longrightarrow> status_of w1 = status_of w"
    and reader_law: "contains_vm E = Some rd \<Longrightarrow> rd b vm ns w = (rr, w1) \<Longrightarrow> status_of w1 = status_of w"
    and clock_law: "time_now E w = (t, w1) \<Longrightarrow> status_of w1 = status_of w"
    and sched_law: "mset (schedule E k1) = mset [0..<k1]"
begin

definition Inv :: "'w \<Rightarrow> bool" where
  "Inv w \<longleftrightarrow> (case status_of w of None \<Rightarrow> True | Some st \<Rightarrow> progress_inv st)"

text \<open>From a world with the invariant, \<open>m\<close> leads to one, and \<open>Q\<close> holds of what it returns.\<close>

definition safe :: "('w, 'a) io \<Rightarrow> ('a \<Rightarrow> bool) \<Rightarrow> bool" where
  "safe m Q \<longleftrightarrow> (\<forall>w r w1. Inv w \<longrightarrow> m w = (r, w1) \<longrightarrow> Inv w1 \<and> (\<forall>x. r = Inr x \<longrightarrow> Q x))"

definition mine :: "vmbd_status \<Rightarrow> vmbd \<Rightarrow> bool" where
  "mine st v \<longleftrightarrow> vmbd_status v = st \<and> key_of (vmbd_meta v) = key"

lemma safe_return: "Q x \<Longrightarrow> safe (returnR x) Q"
  by (auto simp: safe_def)

lemma safe_fail: "safe (failR e) Q"
  by (auto simp: safe_def)

lemma safe_bind:
  assumes "safe m Q" and "\<And>x. Q x \<Longrightarrow> safe (f x) R"
  shows "safe (bindR m f) R"
  unfolding safe_def
proof (intro allI impI)
  fix w r w1
  assume I: "Inv w" and b: "bindR m f w = (r, w1)"
  obtain r0 w0 where m: "m w = (r0, w0)" by (cases "m w")
  have w0: "Inv w0" and Q: "\<And>x. r0 = Inr x \<Longrightarrow> Q x" using assms(1) I m by (auto simp: safe_def)
  show "Inv w1 \<and> (\<forall>x. r = Inr x \<longrightarrow> R x)"
  proof (cases r0)
    case (Inl e)
    then show ?thesis using b m w0 by auto
  next
    case (Inr x)
    then show ?thesis using b m w0 assms(2) [OF Q [OF Inr]] by (auto simp: safe_def)
  qed
qed

lemma safe_mono: "safe m Q \<Longrightarrow> (\<And>x. Q x \<Longrightarrow> R x) \<Longrightarrow> safe m R"
  by (auto simp: safe_def)

lemma safe_now: "safe (nowR E) (\<lambda>_. True)"
  by (auto simp: safe_def nowR_def Inv_def split: prod.splits dest: clock_law)

lemma safe_get: "safe (get_vmbd E key) (\<lambda>v. progress_inv (vmbd_status v) \<and> key_of (vmbd_meta v) = key)"
  unfolding safe_def Inv_def using get_law get_value by fastforce

lemma safe_list: "safe (list_backups E ns) (\<lambda>_. True)"
  by (auto simp: safe_def Inv_def dest: list_law)

lemma safe_foldR:
  assumes "\<And>x b. x \<in> set xs \<Longrightarrow> Q b \<Longrightarrow> safe (f x b) Q" and "Q b0"
  shows "safe (foldR f xs b0) Q"
  using assms by (induction xs arbitrary: b0) (auto intro!: safe_return safe_bind)

lemma safe_withStats: "safe m Q \<Longrightarrow> safe (withStats v m) Q"
  by (simp add: withStats_def safe_fail)

lemma safe_attempts:
  assumes "progress_inv st" and "mine st caller" and "mine st v"
  shows "safe (updateStatusAttempts E n caller v) (mine st)"
  using assms(3)
proof (induction n arbitrary: v)
  case 0
  then show ?case by (auto simp: safe_def)
next
  case (Suc n)
  have k: "key_of (vmbd_meta v) = key" and s: "vmbd_status v = st" using Suc.prems by (auto simp: mine_def)
  show ?case
    unfolding safe_def
  proof (intro allI impI)
    fix w r w1
    assume I: "Inv w" and b: "updateStatusAttempts E (Suc n) caller v w = (r, w1)"
    obtain u w2 where u: "update_vmbd_status E v w = (u, w2)" by (cases "update_vmbd_status E v w")
    show "Inv w1 \<and> (\<forall>x. r = Inr x \<longrightarrow> mine st x)"
    proof (cases u)
      case (Inr a)
      have "status_of w2 = Some st" "mine st a" using update_ok [OF k u [unfolded Inr]] s by (auto simp: mine_def)
      then show ?thesis using b u Inr assms(1,2) by (auto simp: Inv_def)
    next
      case (Inl e)
      have w2: "Inv w2" using update_fail [OF k u [unfolded Inl]] I by (simp add: Inv_def)
      show ?thesis
      proof (cases "IsConflict e \<and> n > 0")
        case False
        then show ?thesis using b u Inl w2 by auto
      next
        case True
        obtain g w3 where g: "get_vmbd E key w2 = (g, w3)" by (cases "get_vmbd E key w2")
        have w3: "Inv w3" using get_law [OF g] w2 by (simp add: Inv_def)
        show ?thesis
        proof (cases g)
          case (Inl e2)
          then show ?thesis using b u \<open>u = Inl e\<close> True g k w3 by auto
        next
          case (Inr fresh)
          let ?v = "fresh \<lparr>vmbd_status := vmbd_status v\<rparr>"
          have "mine st ?v" using get_value [OF g [unfolded Inr]] s by (simp add: mine_def)
          then have "safe (updateStatusAttempts E n caller ?v) (mine st)" by (rule Suc.IH)
          moreover have "updateStatusAttempts E n caller ?v w3 = (r, w1)"
            using b u \<open>u = Inl e\<close> True g k Inr by simp
          ultimately show ?thesis using w3 by (auto simp: safe_def)
        qed
      qed
    qed
  qed
qed

lemma safe_update:
  assumes "progress_inv (f (vmbd_status v))" and "key_of (vmbd_meta v) = key"
  shows "safe (updateStatusWithRetry E (upd_status f v)) (mine (f (vmbd_status v)))"
  unfolding updateStatusWithRetry_def
  by (rule safe_attempts) (use assms in \<open>simp_all add: mine_def\<close>)

lemma runBatch_status:
  assumes "runBatch E sp ps idxs gs results w = (rs, w1)"
  shows "status_of w1 = status_of w"
  using assms
proof (induction gs arbitrary: results w)
  case (Cons g gs)
  obtain sm w2 where cb: "checkBackup E sp (bp_name (ps ! (idxs ! g))) w = (sm, w2)" by fastforce
  have "status_of w2 = status_of w"
    using cb by (auto simp: checkBackup_def split: option.splits prod.splits sum.splits bool.splits if_splits
        dest!: getb_law reader_law)
  then show ?case using Cons.IH [of _ w2] Cons.prems cb by (auto simp: Let_def split: prod.splits)
qed simp

lemma safe_runBatch:
  assumes "Inv w" and "runBatch E sp ps idxs gs results w = (rs, w1)"
  shows "Inv w1"
  using assms(1) runBatch_status [OF assms(2)] by (simp add: Inv_def)

section \<open>The steps\<close>

lemma safe_initializePhase:
  assumes "progress_inv (vmbd_status v)" and "key_of (vmbd_meta v) = key"
  shows "safe (initializePhase E v) (\<lambda>_. True)"
  unfolding initializePhase_def
  by (rule safe_bind [OF safe_update]) (use assms in \<open>auto simp: progress_inv_def split: option.splits intro: safe_return\<close>)

lemma safe_classify: "safe (classifyRequestedBackups E sp bs)
    (\<lambda>c. (\<forall>p\<in>set (cl_filtered c). bp_status p = StatusSkipped) \<and> 0 \<le> cl_missing c)"
proof -
  let ?Q = "\<lambda>c. (\<forall>p\<in>set (cl_filtered c). bp_status p = StatusSkipped) \<and> 0 \<le> cl_missing c"
  have "safe (classifyStep E sp bs n c) ?Q" if "?Q c" for n c
    using that unfolding classifyStep_def
    by (auto split: prod.split requested_class.split intro!: safe_return safe_bind [OF safe_now])
  then show ?thesis
    unfolding classifyRequestedBackups_def by (auto intro!: safe_return safe_foldR)
qed

lemma safe_newProgress: "safe (foldR (newProgress E) bs []) (\<lambda>ps. \<forall>p\<in>set ps. bp_status p = StatusNew)"
  by (rule safe_foldR) (auto simp: newProgress_def intro!: safe_bind [OF safe_now] safe_return)

lemma safe_initializeDiscovery:
  assumes "progress_inv (vmbd_status v)" and k: "key_of (vmbd_meta v) = key"
  shows "safe (initializeDiscovery E v) (\<lambda>_. True)"
proof -
  let ?fail = "\<lambda>e. bindR (updateStatusWithRetry E (upd_status (\<lambda>s. s \<lparr>vs_phase := VMBDPhaseFailed,
                  vs_observedGeneration := om_generation (vmbd_meta v)\<rparr>) v)) (\<lambda>_. failR e)"
  have fail: "safe (?fail e) (\<lambda>_. True)" for e
    by (rule safe_bind [OF safe_update]) (use assms in \<open>auto simp: progress_inv_def split: option.splits intro: safe_fail\<close>)
  have upd: "safe (bindR (updateStatusWithRetry E (upd_status (initialStatus sp ps cl t) v)) (\<lambda>_. returnR True)) (\<lambda>_. True)"
    if "\<forall>p\<in>set ps. bp_status p = StatusNew" "(\<forall>p\<in>set (cl_filtered cl). bp_status p = StatusSkipped) \<and> 0 \<le> cl_missing cl"
    for sp ps cl t
    by (rule safe_bind [OF safe_update]) (use that k in \<open>auto intro: initialStatus_inv safe_return\<close>)
  have clock: "safe (if EndTime (vmbd_spec v) = None then nowR E else returnR 0) (\<lambda>_. True)"
    by (simp add: safe_now safe_return)
  have rest: "safe (bindR (if EndTime (vmbd_spec v) = None then nowR E else returnR 0) (\<lambda>tnow.
        (case parseTimeRange (vmbd_spec v) tnow of
           Inl e \<Rightarrow> failR e
         | Inr (start, stop) \<Rightarrow>
            (let sp = vmbd_spec v; candidates = sort_candidates E (filter (isCandidate sp start stop) bs)
             in bindR (classifyRequestedBackups E sp bs) (\<lambda>cl.
                bindR (foldR (newProgress E) candidates []) (\<lambda>ps.
                bindR (nowR E) (\<lambda>t.
                bindR (updateStatusWithRetry E (upd_status (initialStatus sp ps cl t) v)) (\<lambda>_.
                  returnR True)))))))) (\<lambda>_. True)" for bs
    apply (rule safe_bind [OF clock])
    apply (split sum.split, intro conjI allI impI)
     apply (rule safe_fail)
    apply (clarsimp simp: Let_def)
    apply (rule safe_bind [OF safe_classify])
    apply (rule safe_bind [OF safe_newProgress])
    apply (rule safe_bind [OF safe_now])
    apply (rule upd)
     apply assumption+
    done
  show ?thesis
    unfolding safe_def
  proof (intro allI impI)
    fix w r w1
    assume I: "Inv w" and b: "initializeDiscovery E v w = (r, w1)"
    obtain l w2 where l: "list_backups E (OADPNamespace E) w = (l, w2)" by fastforce
    have "Inv w2" using list_law [OF l] I by (simp add: Inv_def)
    then show "Inv w1 \<and> (\<forall>x. r = Inr x \<longrightarrow> True)"
      using b l fail rest unfolding initializeDiscovery_def
      by (cases l) (auto simp: safe_def)
  qed
qed

lemma safe_initializeDiscoveryProcess:
  assumes "key_of (vmbd_meta v) = key"
  shows "safe (initializeDiscoveryProcess E v) (\<lambda>_. True)"
  unfolding initializeDiscoveryProcess_def
  by (rule safe_bind [OF safe_update])
     (use assms in \<open>auto simp: mine_def clearedStatus_inv intro!: safe_initializeDiscovery\<close>)

lemma safe_checkForSpecChanges:
  assumes "key_of (vmbd_meta v) = key"
  shows "safe (checkForSpecChanges E v) (\<lambda>_. True)"
proof -
  have "progress_inv ((clearedStatus VMBDPhaseNew s) \<lparr>vs_observedGeneration := 0\<rparr>)" for s
    using clearedStatus_inv [of VMBDPhaseNew s] by (auto simp: progress_inv_def clearedStatus_def)
  then show ?thesis
    unfolding checkForSpecChanges_def
    using assms by (auto intro!: safe_bind [OF safe_update] safe_return)
qed

lemma safe_finalize:
  assumes "key_of (vmbd_meta v) = key"
  shows "safe (finalizeDiscoveryProcess E v) (\<lambda>_. True)"
  unfolding finalizeDiscoveryProcess_def Let_def
  apply (rule safe_bind [OF safe_now])
  apply (rule safe_withStats)
  apply (rule safe_bind [OF safe_now])
  apply (rule safe_bind [OF safe_get [folded assms]])
  apply (rule safe_bind [OF safe_now])
  apply (rule safe_bind [OF safe_update])
  using assms by (auto intro: finalStatus_inv safe_return)

lemma safe_process:
  assumes inv: "progress_inv (vmbd_status v)" and k: "key_of (vmbd_meta v) = key"
  shows "safe (processDiscoveryBatch E v) (\<lambda>_. True)"
proof -
  let ?st = "vmbd_status v" and ?new = "indicesWith StatusNew (vs_progress (vmbd_status v))"
  let ?idxs = "take BackupDiscoveryBatchSize ?new"
  let ?n = "length ?idxs"
  obtain a m where "?new = [a..<a + m]" using inv by (auto simp: progress_inv_def new_run_def)
  then have run: "?idxs = [a..<a + ?n]" by (simp only: take_upt_min) simp
  let ?rest = "\<lambda>v1 w. (case runBatch E (vmbd_spec v1) (vs_progress (vmbd_status v1)) ?idxs (schedule E ?n)
                        (replicate ?n zero_slot) w of
                   (results, w1) \<Rightarrow>
                     bindR (nowR E) (\<lambda>t2.
                     bindR (updateStatusWithRetry E (upd_status (finishBatch results t2) v1)) (\<lambda>_.
                       returnR True)) w1)"
  have rest: "safe (?rest v1) (\<lambda>_. True)" if v1: "mine (markBatch ?idxs t ?st) v1" for v1 t
  proof -
    have st1: "vmbd_status v1 = markBatch ?idxs t ?st" and k1: "key_of (vmbd_meta v1) = key"
      using v1 by (auto simp: mine_def)
    have inv1: "progress_inv (vmbd_status v1)" unfolding st1 by (rule markBatch_inv [OF inv refl])
    show ?thesis
      unfolding safe_def
    proof (intro allI impI)
      fix w r w2
      assume I: "Inv w" and b: "?rest v1 w = (r, w2)"
      obtain rs w1 where rb: "runBatch E (vmbd_spec v1) (vs_progress (vmbd_status v1)) ?idxs (schedule E ?n)
          (replicate ?n zero_slot) w = (rs, w1)" by fastforce
      note R = runBatch_results [OF run sched_law rb]
      have sets: "set (map r_idx rs) = set ?idxs" using R(2) run by (metis atLeastLessThan_upt)
      have "progress_inv (finishBatch rs t2 (vmbd_status v1))" for t2
        by (rule finishBatch_inv [OF inv1 R(1) sets R(3,5)])
           (use vmbd_entries_marked [OF refl] in \<open>auto simp: st1\<close>)
      then have "safe (bindR (nowR E) (\<lambda>t2. bindR (updateStatusWithRetry E (upd_status (finishBatch rs t2) v1)) (\<lambda>_.
                       returnR True))) (\<lambda>_. True)"
        by (auto intro!: safe_bind [OF safe_now] safe_bind [OF safe_update] safe_return k1)
      then show "Inv w2 \<and> (\<forall>x. r = Inr x \<longrightarrow> True)"
        using b rb safe_runBatch [OF I rb] by (simp add: safe_def)
    qed
  qed
  have batch: "safe (bindR (nowR E) (\<lambda>t. withStats v
      (bindR (updateStatusWithRetry E (upd_status (markBatch ?idxs t) v)) ?rest))) (\<lambda>_. True)"
    by (rule safe_bind [OF safe_now], rule safe_withStats, rule safe_bind [OF safe_update])
       (use markBatch_inv [OF inv refl] k rest in auto)
  have stuck: "safe (bindR (nowR E) (\<lambda>t. withStats v (bindR (updateStatusWithRetry E (upd_status (resetStuck i t) v))
      (\<lambda>_. returnR True)))) (\<lambda>_. True)" if "?new = []" "indicesWith StatusInProgress (vs_progress ?st) = i # rest" for i rest
    by (rule safe_bind [OF safe_now], rule safe_withStats, rule safe_bind [OF safe_update])
       (use resetStuck_inv [OF inv that(1)] that k in \<open>auto intro: safe_return\<close>)
  show ?thesis
    unfolding processDiscoveryBatch_def Let_def using batch stuck
    by (auto split: list.split intro: safe_return)
qed

lemma safe_Reconcile: "safe (Reconcile E key) (\<lambda>_. True)"
proof -
  have step: "safe (runStep E s v) (\<lambda>_. True)" if "progress_inv (vmbd_status v) \<and> key_of (vmbd_meta v) = key" for s v
    using that by (cases s) (simp_all add: runStep_def safe_initializePhase safe_initializeDiscoveryProcess
        safe_checkForSpecChanges safe_process safe_finalize)
  have two: "safe (bindR (get_vmbd E key) (runStep E s)) (\<lambda>_. True)" for s
    by (rule safe_bind [OF safe_get]) (rule step)
  show ?thesis
    unfolding safe_def
  proof (intro allI impI)
    fix w r w1
    assume I: "Inv w" and b: "Reconcile E key w = (r, w1)"
    obtain g w2 where g: "get_vmbd E key w = (g, w2)" by fastforce
    have "Inv w2" using get_law [OF g] I by (simp add: Inv_def)
    then show "Inv w1 \<and> (\<forall>x. r = Inr x \<longrightarrow> True)"
      using b g two unfolding Reconcile_def by (cases g) (auto simp: safe_def split: if_splits)
  qed
qed

lemma Reconcile_keeps_inv:
  assumes "status_of w = Some st" and "progress_inv st" and "Reconcile E key w = (r, w1)"
    and "status_of w1 = Some st1"
  shows "progress_inv st1"
proof -
  have "Inv w" using assms(1,2) by (simp add: Inv_def)
  then have "Inv w1" using safe_Reconcile assms(3) unfolding safe_def by blast
  then show ?thesis using assms(4) by (simp add: Inv_def)
qed

end

end
