(* ===== verification/Discovery_Progress.thy ===== *)
theory Discovery_Progress
  imports Discovery_Control
begin

text \<open>
  Progress of the discovery controller: with a server on which calls succeed, each reconciliation of a
  running discovery strictly reduces the work left, and when none is left the next one completes the
  discovery. The last section interprets the server locales on a small reference server.
\<close>

definition work :: "backup_progress list \<Rightarrow> nat" where
  "work ps = nat (countS StatusNew ps) + 2 * nat (countS StatusInProgress ps)"

lemma countS_nonneg [simp]: "0 \<le> countS s ps"
  by (simp add: countS_def)

lemma work_reset:
  assumes "i \<in> set (indicesWith StatusInProgress ps)"
  shows "work (setProgress i StatusNew msg t ps) < work ps"
proof -
  have i: "i < length ps" "bp_status (ps ! i) = StatusInProgress" using assms by (auto simp: indicesWith_set)
  have "0 < countS StatusInProgress ps"
    using assms length_indicesWith [of StatusInProgress ps] by (cases "indicesWith StatusInProgress ps") auto
  then show ?thesis using i by (simp add: work_def countS_setProgress)
qed

lemma countS_mark:
  assumes "idxs = take k (indicesWith StatusNew (vs_progress st))"
  shows "countS s (vs_progress (markBatch idxs t st)) = countS s (vs_progress st)
    - (if s = StatusNew then int (length idxs) else 0) + (if s = StatusInProgress then int (length idxs) else 0)"
proof -
  have old: "\<forall>r\<in>set (markSlots idxs). r_idx r < length (vs_progress st) \<and> bp_status (vs_progress st ! r_idx r) = StatusNew"
    using indicesWith_set assms by (auto simp: markSlots_def dest!: in_set_takeD)
  have "distinct idxs" using assms indicesWith_sorted by simp
  then show ?thesis
    using countS_setAll [OF _ old, of s t] by (simp add: mark_progress filter_markSlots) (simp add: markSlots_def)
qed

lemma work_batch:
  assumes "idxs = take k (indicesWith StatusNew (vs_progress st))" and "idxs \<noteq> []"
    and "length rs = length idxs" and "set (map r_idx rs) = set idxs" and "distinct (map r_idx rs)"
    and "\<forall>r\<in>set rs. decided (r_status r)"
  shows "work (vs_progress (finishBatch rs t2 (markBatch idxs t st))) < work (vs_progress st)"
proof -
  let ?ps = "vs_progress (markBatch idxs t st)"
  have old: "\<forall>r\<in>set rs. r_idx r < length ?ps \<and> bp_status (?ps ! r_idx r) = StatusInProgress"
  proof
    fix r
    assume "r \<in> set rs"
    then have "r_idx r \<in> set idxs" using assms(4) by auto
    then show "r_idx r < length ?ps \<and> bp_status (?ps ! r_idx r) = StatusInProgress"
      by (rule vmbd_entries_marked [OF assms(1)])
  qed
  note fin = countS_setAll [OF assms(5) old]
  have und: "length (filter (\<lambda>r. r_status r = s) rs) = 0" if "\<not> decided s" for s
    using filter_undecided [OF assms(6) that] by simp
  have pos: "0 < int (length idxs)" using assms(2) by simp
  have le: "int (length idxs) \<le> countS StatusNew (vs_progress st)"
    using length_indicesWith [of StatusNew "vs_progress st"] assms(1) by simp
  have new: "0 < countS StatusNew (vs_progress st)" using pos le by linarith
  show ?thesis
    using le assms(2) unfolding work_def finish_progress fin countS_mark [OF assms(1)] assms(3) by (simp add: und new)
qed

text \<open>The world after a number of reconciliations.\<close>

definition reconcileRounds :: "'w vmbd_env \<Rightarrow> namespaced_name \<Rightarrow> nat \<Rightarrow> 'w \<Rightarrow> 'w" where
  "reconcileRounds E key n = (\<lambda>w. snd (Reconcile E key w)) ^^ n"

locale reliable_server = vmbd_server E status_of key
  for E :: "'w vmbd_env" and status_of :: "'w \<Rightarrow> vmbd_status option" and key :: namespaced_name +
  assumes get_succeeds: "status_of w \<noteq> None \<Longrightarrow> \<exists>v w1. get_vmbd E key w = (Inr v, w1)"
    and update_succeeds: "status_of w \<noteq> None \<Longrightarrow> key_of (vmbd_meta v) = key \<Longrightarrow> \<exists>a w1. update_vmbd_status E v w = (Inr a, w1)"
begin

lemma clock_runs: "\<exists>t w1. nowR E w = (Inr t, w1) \<and> status_of w1 = status_of w"
  by (cases "time_now E w") (auto simp: nowR_def dest: clock_law)

lemma update_runs:
  assumes "key_of (vmbd_meta v) = key" and "status_of w \<noteq> None"
  shows "\<exists>a w1. updateStatusWithRetry E v w = (Inr a, w1) \<and> status_of w1 = Some (vmbd_status v) \<and> mine (vmbd_status v) a"
proof -
  obtain a w1 where u: "update_vmbd_status E v w = (Inr a, w1)" using update_succeeds assms by blast
  have "updateStatusWithRetry E v w = (Inr a, w1)" using u by (simp add: updateStatusWithRetry_def eval_nat_numeral)
  then show ?thesis using update_ok [OF assms(1) u] by (auto simp: mine_def)
qed

lemma get_runs:
  assumes "status_of w = Some st"
  shows "\<exists>v w1. get_vmbd E key w = (Inr v, w1) \<and> status_of w1 = Some st \<and> mine st v"
proof -
  obtain v w1 where g: "get_vmbd E key w = (Inr v, w1)" using get_succeeds assms by blast
  then show ?thesis using get_law [OF g] get_value [OF g] assms by (auto simp: mine_def)
qed

lemma process_runs:
  assumes st: "status_of w = Some st" "progress_inv st" "vs_stats st = Some s" "ds_pending s > 0 \<or> ds_inProgress s > 0"
    and v: "mine st v"
  shows "\<exists>w1 st1. processDiscoveryBatch E v w = (Inr True, w1) \<and> status_of w1 = Some st1
     \<and> work (vs_progress st1) < work (vs_progress st) \<and> vs_stats st1 \<noteq> None \<and> vs_phase st1 = vs_phase st"
proof -
  have sv: "vmbd_status v = st" and k: "key_of (vmbd_meta v) = key" using v by (auto simp: mine_def)
  let ?new = "indicesWith StatusNew (vs_progress st)" and ?busy = "indicesWith StatusInProgress (vs_progress st)"
  obtain t w1 where t: "nowR E w = (Inr t, w1)" "status_of w1 = status_of w" using clock_runs by blast
  show ?thesis
  proof (cases "?new = []")
    case True
    have "ds_pending s = 0" using st(2,3) True length_indicesWith [of StatusNew "vs_progress st"]
      by (auto simp: progress_inv_def stats_match_def)
    then have "0 < countS StatusInProgress (vs_progress st)"
      using st by (auto simp: progress_inv_def stats_match_def)
    then obtain i rest where i: "?busy = i # rest"
      using length_indicesWith [of StatusInProgress "vs_progress st"] by (cases ?busy) auto
    let ?v = "upd_status (resetStuck i t) v"
    obtain a w2 where u: "updateStatusWithRetry E ?v w1 = (Inr a, w2)" "status_of w2 = Some (resetStuck i t st)"
      using update_runs [of ?v w1] k sv t(2) st(1) by auto
    have "work (vs_progress (resetStuck i t st)) < work (vs_progress st)"
      using work_reset [of i "vs_progress st"] i by (simp add: resetStuck_def addStats_def)
    moreover have "processDiscoveryBatch E v w = (Inr True, w2)"
      unfolding processDiscoveryBatch_def Let_def using True i t u sv st(3) by (simp add: withStats_def)
    ultimately show ?thesis using u(2) st(3) by (auto simp: resetStuck_def addStats_def)
  next
    case False
    let ?idxs = "take BackupDiscoveryBatchSize ?new"
    let ?n = "length ?idxs"
    let ?v = "upd_status (markBatch ?idxs t) v"
    obtain a w2 where u: "updateStatusWithRetry E ?v w1 = (Inr a, w2)" "mine (markBatch ?idxs t st) a"
        "status_of w2 \<noteq> None"
      using update_runs [of ?v w1] k sv t(2) st(1) by auto
    have sa: "vmbd_status a = markBatch ?idxs t st" and ka: "key_of (vmbd_meta a) = key"
      using u(2) by (auto simp: mine_def)
    obtain rs w3 where rb: "runBatch E (vmbd_spec a) (vs_progress (vmbd_status a)) ?idxs (schedule E ?n)
        (replicate ?n zero_slot) w2 = (rs, w3)" by fastforce
    obtain t2 w4 where t2: "nowR E w3 = (Inr t2, w4)" "status_of w4 = status_of w3" using clock_runs by blast
    have w4: "status_of w4 \<noteq> None" using t2(2) runBatch_status [OF rb] u(3) by simp
    let ?a = "upd_status (finishBatch rs t2) a"
    obtain b w5 where f: "updateStatusWithRetry E ?a w4 = (Inr b, w5)"
      "status_of w5 = Some (finishBatch rs t2 (markBatch ?idxs t st))"
      using update_runs [of ?a w4] ka sa w4 by auto
    have ne: "?idxs \<noteq> []" using False by (simp add: BackupDiscoveryBatchSize_def)
    obtain c m where "?new = [c..<c + m]" using st(2) by (auto simp: progress_inv_def new_run_def)
    then have run: "?idxs = [c..<c + ?n]" by (simp only: take_upt_min) simp
    note R = runBatch_results [OF run sched_law rb]
    have sets: "set (map r_idx rs) = set ?idxs" using R(2) run by (metis atLeastLessThan_upt)
    have "work (vs_progress (finishBatch rs t2 (markBatch ?idxs t st))) < work (vs_progress st)"
      by (rule work_batch [OF refl ne R(1) sets R(3,5)])
    moreover have "processDiscoveryBatch E v w = (Inr True, w5)"
      unfolding processDiscoveryBatch_def Let_def using False t u rb t2 f sv st(3) by (simp add: withStats_def)
    ultimately show ?thesis using f(2) st(3)
      by (auto simp: finishBatch_def markBatch_def addStats_def Let_def case_prod_beta)
  qed
qed

lemma select_batch:
  assumes "vs_stats (vmbd_status v) = Some s" and "vs_phase (vmbd_status v) = VMBDPhaseInProgress"
  shows "selectStep v = (if ds_pending s > 0 \<or> ds_inProgress s > 0 then StepBatch else StepFinalize)"
  using assms by (simp add: selectStep_def isDiscoveryComplete_def Let_def)

lemma Reconcile_batch:
  assumes st: "status_of w = Some st" "progress_inv st" "vs_stats st = Some s" "vs_phase st = VMBDPhaseInProgress"
    and busy: "ds_pending s > 0 \<or> ds_inProgress s > 0"
  shows "\<exists>w1 st1. Reconcile E key w = (Inr True, w1) \<and> status_of w1 = Some st1 \<and> progress_inv st1
     \<and> work (vs_progress st1) < work (vs_progress st) \<and> vs_stats st1 \<noteq> None \<and> vs_phase st1 = VMBDPhaseInProgress"
proof -
  obtain v w1 where g: "get_vmbd E key w = (Inr v, w1)" "status_of w1 = Some st" "mine st v"
    using get_runs [OF st(1)] by blast
  obtain u w2 where h: "get_vmbd E key w1 = (Inr u, w2)" "status_of w2 = Some st" "mine st u"
    using get_runs [OF g(2)] by blast
  have "selectStep v = StepBatch" using select_batch [of v s] g(3) st busy by (simp add: mine_def)
  moreover obtain w3 st1 where p: "processDiscoveryBatch E u w2 = (Inr True, w3)" "status_of w3 = Some st1"
    "work (vs_progress st1) < work (vs_progress st)" "vs_stats st1 \<noteq> None" "vs_phase st1 = VMBDPhaseInProgress"
    using process_runs [OF h(2) st(2,3) busy h(3)] st(4) by auto
  ultimately have "Reconcile E key w = (Inr True, w3)" using g h by (simp add: Reconcile_def runStep_def)
  then show ?thesis using p Reconcile_keeps_inv [OF st(1,2)] by blast
qed

lemma Reconcile_finalize:
  assumes st: "status_of w = Some st" "vs_stats st = Some s" "vs_phase st = VMBDPhaseInProgress"
    and idle: "ds_pending s = 0" "ds_inProgress s = 0"
  shows "\<exists>w1 st1. Reconcile E key w = (Inr False, w1) \<and> status_of w1 = Some st1 \<and> isDiscoveryComplete st1
     \<and> vs_validBackups st1 = validOf (vs_progress st) \<and> vs_progress st1 = vs_progress st"
proof -
  obtain v w1 where g: "get_vmbd E key w = (Inr v, w1)" "status_of w1 = Some st" "mine st v"
    using get_runs [OF st(1)] by blast
  obtain u w2 where h: "get_vmbd E key w1 = (Inr u, w2)" "status_of w2 = Some st" "mine st u"
    using get_runs [OF g(2)] by blast
  have sel: "selectStep v = StepFinalize" using select_batch [of v s] g(3) st idle by (simp add: mine_def)
  obtain t w3 where t: "nowR E w2 = (Inr t, w3)" "status_of w3 = Some st" using clock_runs h(2) by metis
  obtain t1 w4 where t1: "nowR E w3 = (Inr t1, w4)" "status_of w4 = Some st" using clock_runs t(2) by metis
  obtain f w5 where f: "get_vmbd E key w4 = (Inr f, w5)" "status_of w5 = Some st" "mine st f"
    using get_runs [OF t1(2)] by blast
  obtain t2 w6 where t2: "nowR E w5 = (Inr t2, w6)" "status_of w6 = Some st" using clock_runs f(2) by metis
  let ?iv = "allInvalidBackups (OADPNamespace E) (RequestedBackups (vmbd_spec u)) (vs_progress st) (vs_invalidBackups st)"
  let ?f = "finalStatus E (validOf (vs_progress st)) ?iv (om_generation (vmbd_meta f)) t t2"
  obtain a w7 where a: "updateStatusWithRetry E (upd_status ?f f) w6 = (Inr a, w7)" "status_of w7 = Some (?f st)"
    using update_runs [of "upd_status ?f f" w6] f(3) t2(2) by (auto simp: mine_def)
  have "finalizeDiscoveryProcess E u w2 = (Inr False, w7)"
    unfolding finalizeDiscoveryProcess_def Let_def
    using t t1 f t2 a h(3) st(2) by (simp add: withStats_def mine_def)
  then have "Reconcile E key w = (Inr False, w7)" using g h sel by (simp add: Reconcile_def runStep_def)
  then show ?thesis
    using a(2) st(2) idle by (auto simp: finalStatus_def addStats_def isDiscoveryComplete_def)
qed

lemma discovery_completes:
  assumes "status_of w = Some st" "progress_inv st" "vs_stats st \<noteq> None" "vs_phase st = VMBDPhaseInProgress"
  shows "\<exists>n st1. n \<le> work (vs_progress st) + 1 \<and> status_of (reconcileRounds E key n w) = Some st1 \<and> isDiscoveryComplete st1"
  using assms
proof (induction "work (vs_progress st)" arbitrary: w st rule: less_induct)
  case less
  obtain s where s: "vs_stats st = Some s" using less.prems(3) by blast
  have nn: "0 \<le> ds_pending s" "0 \<le> ds_inProgress s"
    using less.prems(2) s by (auto simp: progress_inv_def stats_match_def)
  show ?case
  proof (cases "ds_pending s > 0 \<or> ds_inProgress s > 0")
    case True
    then obtain w1 st1 where r: "Reconcile E key w = (Inr True, w1)" "status_of w1 = Some st1" "progress_inv st1"
      "work (vs_progress st1) < work (vs_progress st)" "vs_stats st1 \<noteq> None" "vs_phase st1 = VMBDPhaseInProgress"
      using Reconcile_batch [OF less.prems(1,2) s less.prems(4)] by blast
    then obtain n st2 where n: "n \<le> work (vs_progress st1) + 1" "status_of (reconcileRounds E key n w1) = Some st2" "isDiscoveryComplete st2"
      using less.hyps [of st1 w1] by blast
    have "reconcileRounds E key (Suc n) w = reconcileRounds E key n w1" using r(1) by (simp add: reconcileRounds_def funpow_Suc_right del: funpow.simps)
    then show ?thesis using n r(4) by (intro exI [of _ "Suc n"] exI [of _ st2]) auto
  next
    case False
    then obtain w1 st1 where "Reconcile E key w = (Inr False, w1)" "status_of w1 = Some st1" "isDiscoveryComplete st1"
      using Reconcile_finalize [OF less.prems(1) s less.prems(4)] nn by force
    then show ?thesis by (intro exI [of _ 1] exI [of _ st1]) (auto simp: reconcileRounds_def)
  qed
qed

end

section \<open>A reference server\<close>

text \<open>A server that holds one discovery object and a list of backups, counts its clock readings and knows which
  backups contain the VM. Goroutines finish in reverse order on it.\<close>

record ref_world =
  rw_obj :: "vmbd option"
  rw_backups :: "backup list"
  rw_clock :: time

definition notFound :: go_error where
  "notFound = \<lparr>err_msg = ''not found'', err_reason = ReasonNotFound\<rparr>"

definition ref_get :: "namespaced_name \<Rightarrow> (ref_world, vmbd) io" where
  "ref_get k w = (case rw_obj w of
     Some v \<Rightarrow> if key_of (vmbd_meta v) = k then (Inr v, w) else (Inl notFound, w) | None \<Rightarrow> (Inl notFound, w))"

definition ref_update :: "vmbd \<Rightarrow> (ref_world, vmbd) io" where
  "ref_update v w = (case rw_obj w of
     Some u \<Rightarrow> if key_of (vmbd_meta u) = key_of (vmbd_meta v)
               then (let a = u \<lparr>vmbd_status := vmbd_status v\<rparr> in (Inr a, w \<lparr>rw_obj := Some a\<rparr>))
               else (Inl notFound, w)
   | None \<Rightarrow> (Inl notFound, w))"

definition ref_get_backup :: "namespaced_name \<Rightarrow> (ref_world, backup) io" where
  "ref_get_backup k w = (case find (\<lambda>b. key_of (bk_meta b) = k) (rw_backups w) of
     Some b \<Rightarrow> (Inr b, w) | None \<Rightarrow> (Inl notFound, w))"

fun insert_backup :: "backup \<Rightarrow> backup list \<Rightarrow> backup list" where
  "insert_backup b [] = [b]"
| "insert_backup b (c # bs) =
    (if om_creation (bk_meta c) < om_creation (bk_meta b) then b # c # bs else c # insert_backup b bs)"

definition ref_env :: "string \<Rightarrow> (string \<Rightarrow> bool) \<Rightarrow> ref_world vmbd_env" where
  "ref_env ns contents = \<lparr>OADPNamespace = ns, get_vmbd = ref_get, update_vmbd_status = ref_update,
     list_vmbds = (\<lambda>w. (Inr (case rw_obj w of None \<Rightarrow> [] | Some v \<Rightarrow> [v]), w)),
     list_backups = (\<lambda>n w. (Inr (rw_backups w), w)), get_backup = ref_get_backup,
     contains_vm = Some (\<lambda>b vm vmns w. (Inr (contents (bk_name b)), w)),
     time_now = (\<lambda>w. (rw_clock w, w \<lparr>rw_clock := rw_clock w + 1\<rparr>)),
     set_status_condition = ref_set_condition, map_order = rev,
     sort_candidates = (\<lambda>bs. foldr insert_backup bs []), schedule = (\<lambda>n. rev [0..<n])\<rparr>"

definition ref_status :: "namespaced_name \<Rightarrow> ref_world \<Rightarrow> vmbd_status option" where
  "ref_status k w = (case rw_obj w of
     Some v \<Rightarrow> if key_of (vmbd_meta v) = k then Some (vmbd_status v) else None | None \<Rightarrow> None)"

lemmas ref_env_simps = ref_env_def ref_get_def ref_update_def ref_get_backup_def ref_status_def Let_def

interpretation refsrv: reliable_server "ref_env ns contents" "ref_status k" k for ns contents k
  by unfold_locales (auto simp: ref_env_simps split: option.splits if_splits)

end
