(* ===== verification/Discovery_Properties.thy ===== *)
theory Discovery_Properties
  imports Discovery_Progress
begin

text \<open>
  What the discovery controller guarantees: consistent statistics, schedule-independent batches,
  completion, the classification of requested backups and the accounting of the final report.
\<close>

section \<open>Classification of the requested backups\<close>

definition classOf :: "vmbd_spec \<Rightarrow> backup list \<Rightarrow> string \<Rightarrow> requested_class" where
  "classOf sp bs n = fst (requestedStatus sp bs n)"

text \<open>What the processing loop has collected after the names \<open>ns\<close>.\<close>

definition collected :: "vmbd_spec \<Rightarrow> backup list \<Rightarrow> string list \<Rightarrow> classified \<Rightarrow> classified \<Rightarrow> bool" where
  "collected sp bs ns c0 c \<longleftrightarrow>
     map ib_name (cl_invalid c) = map ib_name (cl_invalid c0)
       @ filter (\<lambda>n. classOf sp bs n = Missing \<or> classOf sp bs n = AsyncIncomplete) ns
   \<and> map bp_name (cl_filtered c) = map bp_name (cl_filtered c0) @ filter (\<lambda>n. classOf sp bs n = Filtered) ns
   \<and> cl_missing c = cl_missing c0 + int (length (filter (\<lambda>n. classOf sp bs n = Missing) ns))"

lemma classifyStep_collected:
  "\<exists>c1 w1. classifyStep E sp bs n c w = (Inr c1, w1) \<and> collected sp bs [n] c c1"
proof (cases "requestedStatus sp bs n")
  case (Pair cls ob)
  obtain t w1 where "time_now E w = (t, w1)" by fastforce
  then show ?thesis
    using Pair by (cases cls) (auto simp: classifyStep_def collected_def classOf_def bindR_def nowR_def)
qed

lemma classify_fold_collected:
  "\<exists>c1 w1. foldR (classifyStep E sp bs) ns c w = (Inr c1, w1) \<and> collected sp bs ns c c1"
proof (induction ns arbitrary: c w)
  case Nil
  then show ?case by (simp add: collected_def)
next
  case (Cons n ns)
  obtain c1 w1 where 1: "classifyStep E sp bs n c w = (Inr c1, w1)" "collected sp bs [n] c c1"
    using classifyStep_collected [of E sp bs n c w] by blast
  obtain c2 w2 where 2: "foldR (classifyStep E sp bs) ns c1 w1 = (Inr c2, w2)" "collected sp bs ns c1 c2"
    using Cons [of c1 w1] by blast
  have "collected sp bs (n # ns) c c2" using 1(2) 2(2) by (auto simp: collected_def)
  then show ?case using 1 2 by auto
qed

lemma length_filter_card: "distinct xs \<Longrightarrow> length (filter P xs) = card {x \<in> set xs. P x}"
  by (metis distinct_card distinct_filter set_filter)

section \<open>Properties\<close>

text \<open>C3. The discovery bookkeeping invariant survives every reconciliation, whatever it returns: the five
  counters equal the numbers of entries in each state (failed entries at most the failed counter, which also
  counts missing backups), they add up to the total, no entry has an unset status, and the entries still new form one
  run of consecutive indices. The server may answer with conflicts or errors, and spec and metadata may
  change in between.\<close>

theorem discovery_invariant:
  assumes "vmbd_server E status_of key" and "status_of w = Some st" and "progress_inv st"
    and "Reconcile E key w = (r, w1)" and "status_of w1 = Some st1"
  shows "progress_inv st1"
  by (rule vmbd_server.Reconcile_keeps_inv [OF assms])

definition demo_key :: namespaced_name where
  "demo_key = \<lparr>nn_namespace = ''adp'', nn_name = ''d''\<rparr>"

definition demo_entry :: "string \<Rightarrow> discovery_status \<Rightarrow> backup_progress" where
  "demo_entry n s = \<lparr>bp_info = plain_info n ''adp'' None, bp_status = s, bp_message = [], bp_lastUpdated = None\<rparr>"

definition demo_status :: vmbd_status where
  "demo_status = empty_status \<lparr>vs_phase := VMBDPhaseInProgress,
     vs_progress := [demo_entry ''b0'' StatusCompleted, demo_entry ''b1'' StatusNew, demo_entry ''b2'' StatusNew],
     vs_stats := Some \<lparr>ds_total = 3, ds_start = None, ds_completion = None, ds_pending = 2, ds_inProgress = 0,
       ds_completed = 1, ds_skipped = 0, ds_failed = 0\<rparr>\<rparr>"

definition demo_spec :: vmbd_spec where
  "demo_spec = \<lparr>VirtualMachineName = ''vm'', VirtualMachineNamespace = ''ns'', StartTime = None, EndTime = None,
     RequestedBackups = []\<rparr>"

definition demo_world :: ref_world where
  "demo_world = \<lparr>rw_obj = Some \<lparr>vmbd_meta = empty_meta \<lparr>om_namespace := ''adp'', om_name := ''d''\<rparr>,
     vmbd_spec = demo_spec, vmbd_status = demo_status\<rparr>, rw_backups = [], rw_clock = 0\<rparr>"

lemma demo_status_stored: "ref_status demo_key demo_world = Some demo_status"
  by (simp add: ref_status_def demo_world_def demo_key_def key_of_def)

lemma demo_status_inv: "progress_inv demo_status"
proof -
  have "indicesWith StatusNew (vs_progress demo_status) = [1..<1 + 2]"
    by (simp add: indicesWith_def demo_status_def demo_entry_def upt_rec)
  then have "new_run (vs_progress demo_status)" unfolding new_run_def by blast
  then show ?thesis
    by (simp add: progress_inv_def) (simp add: demo_status_def demo_entry_def stats_match_def countS_def)
qed

theorem discovery_invariant_witness:
  "case ref_status demo_key (snd (Reconcile (ref_env ''adp'' (\<lambda>b. True)) demo_key demo_world)) of
     None \<Rightarrow> True | Some st1 \<Rightarrow> progress_inv st1"
proof -
  have r: "Reconcile (ref_env ''adp'' (\<lambda>b. True)) demo_key demo_world
      = (fst (Reconcile (ref_env ''adp'' (\<lambda>b. True)) demo_key demo_world),
         snd (Reconcile (ref_env ''adp'' (\<lambda>b. True)) demo_key demo_world))" by simp
  show ?thesis
    using discovery_invariant [OF refsrv.vmbd_server_axioms demo_status_stored demo_status_inv r]
    by (simp split: option.split)
qed

text \<open>C9. A running discovery completes: on a server whose calls succeed, from any consistent status in phase
  InProgress, at most as many reconciliations as there is work left (new entries plus twice the entries in progress),
  plus one, lead to a status that counts as complete.\<close>

theorem discovery_terminates:
  assumes "reliable_server E status_of key" and "status_of w = Some st" and "progress_inv st"
    and "vs_stats st \<noteq> None" and "vs_phase st = VMBDPhaseInProgress"
  shows "\<exists>n st1. n \<le> work (vs_progress st) + 1 \<and> status_of (reconcileRounds E key n w) = Some st1
     \<and> isDiscoveryComplete st1"
  by (rule reliable_server.discovery_completes [OF assms])

theorem discovery_terminates_witness:
  "\<exists>n st1. n \<le> work (vs_progress demo_status) + 1
     \<and> ref_status demo_key (reconcileRounds (ref_env ''adp'' (\<lambda>b. True)) demo_key n demo_world) = Some st1
     \<and> isDiscoveryComplete st1"
  by (rule discovery_terminates [OF refsrv.reliable_server_axioms demo_status_stored demo_status_inv])
     (simp_all add: demo_status_def)

text \<open>C19. The goroutines of a batch do not interfere: when the batch is a run of consecutive indices, then in
  whatever order its goroutines finish, the result slots hold each index of the batch exactly once, each with
  the status and message its own goroutine computed after those that had finished before it; and when the checks
  do not influence each other, every order gives the same slots.\<close>

theorem batch_schedule_independent:
  assumes "mset gs = mset [0..<n]"
    and "runBatch E sp ps [a..<a + n] gs (replicate n zero_slot) w = (rs, w1)"
  shows "mset (map r_idx rs) = mset [a..<a + n]
    \<and> (\<forall>r\<in>set rs. own_result E sp ps [a..<a + n] gs w r \<and> decided (r_status r))
    \<and> (checks_apart E sp \<longrightarrow> (\<forall>hs. mset hs = mset gs \<longrightarrow> fst (runBatch E sp ps [a..<a + n] hs (replicate n zero_slot) w) = rs))"
proof -
  note R = runBatch_results [OF refl assms]
  have "set (map r_idx rs) = set [a..<a + n]" using R(2) by simp
  then have "mset (map r_idx rs) = mset [a..<a + n]"
    using R(3) by (metis distinct_upt set_eq_iff_mset_eq_distinct)
  moreover have "fst (runBatch E sp ps [a..<a + n] hs (replicate n zero_slot) w) = rs"
    if "mset hs = mset gs" "checks_apart E sp" for hs
    using runBatch_schedule [OF assms(1) _ assms(2) prod.collapse [symmetric] that(2)] that(1) assms(1) by simp
  ultimately show ?thesis using R(4,5) by blast
qed

lemma demo_checks_apart: "checks_apart (ref_env ns contents) sp"
proof -
  have "snd (checkBackup (ref_env ns contents) sp m w) = w" for m w
    by (auto simp: checkBackup_def ref_env_def ref_get_backup_def split: option.splits bool.splits)
  then show ?thesis by (simp add: checks_apart_def)
qed

theorem batch_schedule_independent_witness:
  "fst (runBatch (ref_env ''adp'' (\<lambda>b. True)) demo_spec (vs_progress demo_status) [1..<1 + 2] [0, 1] (replicate 2 zero_slot) demo_world)
    = fst (runBatch (ref_env ''adp'' (\<lambda>b. True)) demo_spec (vs_progress demo_status) [1..<1 + 2] [1, 0] (replicate 2 zero_slot) demo_world)"
proof -
  have m: "mset [1, 0] = mset [0..<2]" "mset [0, 1] = mset [1, 0 :: nat]" by (simp_all add: upt_rec)
  let ?E = "ref_env ''adp'' (\<lambda>b. True)"
  have "checks_apart ?E demo_spec \<longrightarrow> (\<forall>hs. mset hs = mset [1, 0] \<longrightarrow>
      fst (runBatch ?E demo_spec (vs_progress demo_status) [1..<1 + 2] hs (replicate 2 zero_slot) demo_world)
    = fst (runBatch ?E demo_spec (vs_progress demo_status) [1..<1 + 2] [1, 0] (replicate 2 zero_slot) demo_world))"
    by (rule conjunct2 [OF conjunct2 [OF batch_schedule_independent [OF m(1) prod.collapse [symmetric]]]])
  note all = mp [OF this demo_checks_apart]
  show ?thesis by (rule mp [OF spec [OF all, of "[0, 1]"] m(2)])
qed

text \<open>C18. The classification of requested backups always succeeds and is complete: whatever the order in which
  Go iterates the status map, the invalid list names exactly the requested backups that are missing from the
  list or have unfinished asynchronous operations, the filtered list exactly those that do not include the
  VM's namespace, each name once, and the missing counter is the number of missing names.\<close>

theorem classification_complete:
  assumes "mset (map_order E (remdups (RequestedBackups sp))) = mset (remdups (RequestedBackups sp))"
  shows "\<exists>c w1. classifyRequestedBackups E sp bs w = (Inr c, w1)
     \<and> distinct (map ib_name (cl_invalid c)) \<and> distinct (map bp_name (cl_filtered c))
     \<and> ib_name ` set (cl_invalid c) = {n \<in> set (RequestedBackups sp). classOf sp bs n \<in> {Missing, AsyncIncomplete}}
     \<and> bp_name ` set (cl_filtered c) = {n \<in> set (RequestedBackups sp). classOf sp bs n = Filtered}
     \<and> cl_missing c = int (card {n \<in> set (RequestedBackups sp). classOf sp bs n = Missing})"
proof -
  let ?ns = "map_order E (remdups (RequestedBackups sp))"
  let ?c0 = "\<lparr>cl_invalid = [], cl_missing = 0, cl_filtered = []\<rparr>"
  have ns: "distinct ?ns" "set ?ns = set (RequestedBackups sp)"
    using assms by (metis distinct_remdups mset_eq_imp_distinct_iff) (metis assms set_mset_mset set_remdups)
  obtain c w1 where f: "foldR (classifyStep E sp bs) ?ns ?c0 w = (Inr c, w1)" "collected sp bs ?ns ?c0 c"
    using classify_fold_collected [of E sp bs ?ns ?c0 w] by blast
  have names: "map ib_name (cl_invalid c) = filter (\<lambda>n. classOf sp bs n = Missing \<or> classOf sp bs n = AsyncIncomplete) ?ns"
    "map bp_name (cl_filtered c) = filter (\<lambda>n. classOf sp bs n = Filtered) ?ns"
    "cl_missing c = int (length (filter (\<lambda>n. classOf sp bs n = Missing) ?ns))"
    using f(2) by (auto simp: collected_def)
  have run: "classifyRequestedBackups E sp bs w = (Inr c, w1) \<or> RequestedBackups sp = []"
    using f(1) by (simp add: classifyRequestedBackups_def)
  show ?thesis
  proof (cases "RequestedBackups sp = []")
    case True
    then show ?thesis by (simp add: classifyRequestedBackups_def)
  next
    case False
    have "ib_name ` set (cl_invalid c) = set (map ib_name (cl_invalid c))"
      "bp_name ` set (cl_filtered c) = set (map bp_name (cl_filtered c))" by simp_all
    then show ?thesis
      using run False ns names length_filter_card [OF ns(1)]
      by (intro exI [of _ c] exI [of _ w1]) (auto simp: distinct_filter)
  qed
qed

theorem classification_complete_witness:
  "\<exists>c w1. classifyRequestedBackups (ref_env ''adp'' (\<lambda>b. True)) (demo_spec \<lparr>RequestedBackups := [''x'', ''y'', ''x'']\<rparr>) [] demo_world
     = (Inr c, w1) \<and> cl_missing c = int (card {n \<in> {''x'', ''y''}. classOf (demo_spec \<lparr>RequestedBackups := [''x'', ''y'', ''x'']\<rparr>) [] n = Missing})"
  using classification_complete [of "ref_env ''adp'' (\<lambda>b. True)" "demo_spec \<lparr>RequestedBackups := [''x'', ''y'', ''x'']\<rparr>" "[]" demo_world]
  by (auto simp: ref_env_def insert_commute)

text \<open>C17. The final report accounts for everything: the valid list holds exactly the entries found to contain
  the VM, every other entry and every requested backup that is not an entry is named in the invalid list,
  and the invalid list names nothing but requested backups and such entries.\<close>

theorem final_report_accounts:
  assumes "requested \<noteq> []"
  shows "set (validOf ps) = bp_info ` {p \<in> set ps. bp_status p = StatusCompleted}
     \<and> bp_name ` {p \<in> set ps. bp_status p \<noteq> StatusCompleted} \<subseteq> ib_name ` set (allInvalidBackups ns requested ps existing)
     \<and> set requested \<subseteq> vb_name ` set (validOf ps) \<union> ib_name ` set (allInvalidBackups ns requested ps existing)
     \<and> ib_name ` set (allInvalidBackups ns requested ps existing) \<subseteq> set requested \<union> bp_name ` {p \<in> set ps. bp_status p \<noteq> StatusCompleted}"
proof -
  let ?all = "allInvalidBackups ns requested ps existing"
  let ?relevant = "filter (\<lambda>i. ib_name i \<in> set requested) existing"
  have names: "ib_name ` set ?all = ib_name ` set ?relevant \<union> ib_name ` set (invalidOf ps)
      \<union> {n \<in> set requested. n \<notin> bp_name ` set ps}"
  proof -
    let ?R = "ib_name ` set ?relevant"
    let ?mk = "\<lambda>n. \<lparr>ib_info = plain_info n ns None, ib_reason = ''Backup not found in cluster''\<rparr>"
    have "set ?all = set ?relevant \<union> {i \<in> set (invalidOf ps). ib_name i \<notin> ?R}
        \<union> ?mk ` {n \<in> set requested. n \<notin> bp_name ` set ps \<and> n \<notin> ?R}"
      using assms unfolding allInvalidBackups_def Let_def by (simp add: Un_assoc)
    then have "ib_name ` set ?all = ?R \<union> ib_name ` {i \<in> set (invalidOf ps). ib_name i \<notin> ?R}
        \<union> {n \<in> set requested. n \<notin> bp_name ` set ps \<and> n \<notin> ?R}"
      by (simp only: image_Un image_image invalid_backup_info.select_convs plain_info_name image_ident)
    then show ?thesis by blast
  qed
  have inv: "ib_name ` set (invalidOf ps) = bp_name ` {p \<in> set ps. bp_status p \<noteq> StatusCompleted}"
    by (force simp: invalidOf_def)
  have val: "set (validOf ps) = bp_info ` {p \<in> set ps. bp_status p = StatusCompleted}"
    by (simp add: validOf_def)
  have sub: "bp_name ` {p \<in> set ps. bp_status p \<noteq> StatusCompleted} \<subseteq> ib_name ` set ?all"
    unfolding names inv by blast
  have cover: "set requested \<subseteq> vb_name ` set (validOf ps) \<union> ib_name ` set ?all"
  proof
    fix n
    assume n: "n \<in> set requested"
    show "n \<in> vb_name ` set (validOf ps) \<union> ib_name ` set ?all"
    proof (cases "n \<in> bp_name ` set ps")
      case True
      then show ?thesis unfolding names inv val by force
    next
      case False
      then show ?thesis using n unfolding names by blast
    qed
  qed
  have only: "ib_name ` set ?all \<subseteq> set requested \<union> bp_name ` {p \<in> set ps. bp_status p \<noteq> StatusCompleted}"
    unfolding names inv by auto
  show ?thesis by (intro conjI val sub cover only)
qed

theorem final_report_accounts_witness:
  "set [''b1'', ''gone''] \<subseteq> vb_name ` set (validOf (vs_progress demo_status))
     \<union> ib_name ` set (allInvalidBackups ''adp'' [''b1'', ''gone''] (vs_progress demo_status) [])"
  by (rule final_report_accounts [THEN conjunct2, THEN conjunct2, THEN conjunct1]) simp

text \<open>A backup that ended partially failed, for the examples.\<close>

definition demo_backup :: backup where
  "demo_backup = \<lparr>bk_meta = empty_meta \<lparr>om_name := ''b'', om_namespace := ''adp''\<rparr>, bk_includedNamespaces = [],
     bk_excludedNamespaces = [], bk_storageLocation = [], bk_phase = ''PartiallyFailed'', bk_completion = None,
     bk_attempted = 0, bk_completed = 0, bk_failed = 0\<rparr>"

text \<open>An end time at midnight UTC, be it date-only or written out in full, is moved to the last whole second of
  its day; any other end time is taken as it is. The start time is never moved.\<close>

theorem end_time_of_range:
  assumes "StartTime sp = None" and "EndTime sp = Some ft" and "FlexibleTime_Time ft = Inr t"
  shows "parseTimeRange sp tnow = Inr (instant zeroTime,
     if c_hour t = 0 \<and> c_min t = 0 \<and> c_sec t = 0 \<and> c_nsec t = 0 \<and> c_offset t = 0
     then instant t + 86399 * 1000000000 else instant t)"
proof (cases "c_hour t = 0 \<and> c_min t = 0 \<and> c_sec t = 0 \<and> c_nsec t = 0 \<and> c_offset t = 0")
  case True
  obtain eod where "GetEndOfDay ft = Inr eod" "FlexibleTime_Time eod =
      Inr (t \<lparr>c_hour := 23, c_min := 59, c_sec := 59, c_nsec := 0, c_offset := 0\<rparr>)"
    using GetEndOfDay_time [OF assms(3)] by blast
  then show ?thesis using assms True by (simp add: parseTimeRange_def instant_def)
next
  case False
  then show ?thesis using assms by (auto simp: parseTimeRange_def instant_def)
qed

theorem end_time_of_range_witness:
  "parseTimeRange (demo_spec \<lparr>EndTime := Some []\<rparr>) 7 = Inr (instant zeroTime, instant zeroTime + 86399 * 1000000000)"
  using end_time_of_range [of "demo_spec \<lparr>EndTime := Some []\<rparr>" "[]" zeroTime 7]
  by (simp add: demo_spec_def FlexibleTime_Time_def zeroTime_def)

end
