(* ===== verification/Restore_Types.thy ===== *)
theory Restore_Types
  imports Discovery_Types Common_Functions
begin

text \<open>
  The types of the VirtualMachineFileRestore API (\<open>api/v1alpha1/virtualmachinefilerestore_types.go\<close>), the
  states a backup can have for it (\<open>types/backup_discovery.go\<close>) and the parts of a virtual machine and a
  claim that are read out of a backup.
\<close>

datatype restore_phase =
    VMFRPhaseUnset
  | VMFRPhaseNew
  | VMFRPhaseInProgress
  | VMFRPhaseCompleted
  | VMFRPhasePartiallyFailed
  | VMFRPhaseFailed
  | VMFRPhaseDeleting

record secret_reference =
  sr_name :: string
  sr_namespace :: string

record ssh_access_spec =
  ssh_username :: string
  ssh_publicKey :: string
  ssh_secretRef :: "secret_reference option"

record filebrowser_access_spec =
  fb_secretRef :: "secret_reference option"
  fb_exposeExternally :: bool

record file_access_spec =
  fa_ssh :: "ssh_access_spec option"
  fa_fileBrowser :: "filebrowser_access_spec option"

record vmfr_spec =
  BackupsDiscoveryRef :: string
  SelectedBackups :: "string list"
  RestoreNamespace :: string
  NamespacePrefix :: string
  FileAccess :: "file_access_spec option"

datatype backup_state =
    StateUnset
  | StateAvailable
  | StateBackupDeleted
  | StateBackupMissing
  | StateUnsupportedPlugin
  | StateExtractionFailed

record restore_info =
  ri_backupName :: string
  ri_backupNamespace :: string
  ri_timestamp :: "time option"
  ri_state :: backup_state
  ri_restoreName :: string
  ri_restoreNamespace :: string
  ri_phase :: string
  ri_createdAt :: "time option"
  ri_completedAt :: "time option"
  ri_failureReason :: string

record pvc_restore_info =
  pr_pvc :: pvc_info
  pr_restores :: "restore_info list"

record ssh_serving_info =
  ss_clusterAccess :: string
  ss_secretRef :: "secret_reference option"

record filebrowser_serving_info =
  fs_clusterAccess :: string
  fs_publicAccess :: string
  fs_secretRef :: "secret_reference option"

record file_serving_info =
  fi_podName :: string
  fi_ssh :: "ssh_serving_info option"
  fi_fileBrowser :: "filebrowser_serving_info option"

record vmfr_status =
  fs_phase :: restore_phase
  fs_observedGeneration :: int
  fs_conditions :: "condition list"
  fs_fileServingInfo :: "file_serving_info option"
  fs_pvcRestores :: "pvc_restore_info list"
  fs_createdNamespace :: string

text \<open>The API version and kind come with the object.\<close>

record vmfr =
  vmfr_apiVersion :: string
  vmfr_kind :: string
  vmfr_meta :: object_meta
  vmfr_spec :: vmfr_spec
  vmfr_status :: vmfr_status

text \<open>
  A virtual machine in a backup, reduced to the volumes of its template: for each volume the claim name
  and the data volume name, where present; \<^const>\<open>None\<close> when the template or its volumes are nil.
\<close>

record backup_vm =
  bvm_meta :: object_meta
  bvm_volumes :: "(string option \<times> string option) list option"

text \<open>A claim in a backup: its metadata, whether its label map is nil, and its storage request in bytes.\<close>

record backup_pvc =
  bpvc_meta :: object_meta
  bpvc_labelsNil :: bool
  bpvc_storage :: "int option"

text \<open>The interface \<open>BackupContentsInterface\<close> through which the controllers read backups. A result of
  \<^const>\<open>None\<close> is a nil pointer without an error.\<close>

record 'w backup_reader =
  BackupContainsVM :: "backup \<Rightarrow> string \<Rightarrow> string \<Rightarrow> ('w, bool) io"
  ExtractVMFromBackupMetadata :: "backup \<Rightarrow> string \<Rightarrow> string \<Rightarrow> ('w, backup_vm option) io"
  FetchPVCFromBackup :: "backup \<Rightarrow> string \<Rightarrow> string \<Rightarrow> ('w, backup_pvc) io"

definition empty_restore_info :: restore_info where
  "empty_restore_info = \<lparr>ri_backupName = [], ri_backupNamespace = [], ri_timestamp = None, ri_state = StateUnset,
     ri_restoreName = [], ri_restoreNamespace = [], ri_phase = [], ri_createdAt = None, ri_completedAt = None,
     ri_failureReason = []\<rparr>"

abbreviation pr_uid :: "pvc_restore_info \<Rightarrow> string" where "pr_uid p \<equiv> PVCUID (pr_pvc p)"

end
