(* ===== verification/Exchange_Sort.thy ===== *)
theory Exchange_Sort
  imports Prelude
begin

text \<open>
  The exchange sort of \<open>sortRestoresByTimestamp\<close> over an arbitrary key: two nested index loops that swap
  in place whenever the later element has the larger key. It returns a permutation of its input in
  descending key order.
\<close>

definition swap :: "'a list \<Rightarrow> nat \<Rightarrow> nat \<Rightarrow> 'a list" where
  "swap xs i j = xs[i := xs ! j, j := xs ! i]"

definition exchangeStep :: "('a \<Rightarrow> 'k::linorder) \<Rightarrow> nat \<Rightarrow> 'a list \<Rightarrow> nat \<Rightarrow> 'a list" where
  "exchangeStep f i xs j = (if f (xs ! j) > f (xs ! i) then swap xs i j else xs)"

definition exchangeRow :: "('a \<Rightarrow> 'k::linorder) \<Rightarrow> 'a list \<Rightarrow> nat \<Rightarrow> 'a list" where
  "exchangeRow f xs i = foldl (exchangeStep f i) xs [i + 1..<length xs]"

definition exchangeSort :: "('a \<Rightarrow> 'k::linorder) \<Rightarrow> 'a list \<Rightarrow> 'a list" where
  "exchangeSort f xs = foldl (exchangeRow f) xs [0..<length xs]"

lemma swap_length [simp]: "length (swap xs i j) = length xs"
  by (simp add: swap_def)

lemma swap_mset: "i < length xs \<Longrightarrow> j < length xs \<Longrightarrow> mset (swap xs i j) = mset xs"
  by (simp add: swap_def mset_swap)

lemma swap_nth:
  "i < length xs \<Longrightarrow> j < length xs \<Longrightarrow>
   swap xs i j ! k = (if k = j then xs ! i else if k = i then xs ! j else xs ! k)"
  by (auto simp: swap_def nth_list_update)

text \<open>What a row has achieved when its inner index reaches \<open>m\<close>.\<close>

lemma exchangeRow_prefix:
  assumes "i < m" and "m \<le> length xs" and "ys = foldl (exchangeStep f i) xs [i + 1..<m]"
  shows "length ys = length xs \<and> mset ys = mset xs \<and> (\<forall>k. k < i \<or> m \<le> k \<longrightarrow> ys ! k = xs ! k)
    \<and> (\<forall>k. i \<le> k \<and> k < m \<longrightarrow> f (ys ! k) \<le> f (ys ! i))
    \<and> (\<forall>k. i \<le> k \<and> k < m \<longrightarrow> (\<exists>l. i \<le> l \<and> l < m \<and> ys ! k = xs ! l))"
  using assms
proof (induction m arbitrary: ys)
  case 0
  then show ?case by simp
next
  case (Suc m)
  show ?case
  proof (cases "i = m")
    case True
    then show ?thesis using Suc.prems by (auto simp: le_less_Suc_eq)
  next
    case False
    let ?zs = "foldl (exchangeStep f i) xs [i + 1..<m]"
    have im: "i < m" using False Suc.prems(1) by simp
    have IH: "length ?zs = length xs \<and> mset ?zs = mset xs \<and> (\<forall>k. k < i \<or> m \<le> k \<longrightarrow> ?zs ! k = xs ! k)
        \<and> (\<forall>k. i \<le> k \<and> k < m \<longrightarrow> f (?zs ! k) \<le> f (?zs ! i))
        \<and> (\<forall>k. i \<le> k \<and> k < m \<longrightarrow> (\<exists>l. i \<le> l \<and> l < m \<and> ?zs ! k = xs ! l))"
      using Suc.IH [OF im] Suc.prems(2) by auto
    have ys: "ys = exchangeStep f i ?zs m" using Suc.prems(3) im by simp
    have ml: "m < length ?zs" "i < length ?zs" using IH Suc.prems(2) im by auto
    show ?thesis
    proof (cases "f (?zs ! m) > f (?zs ! i)")
      case False
      then show ?thesis using IH ys
        by (auto simp: exchangeStep_def less_Suc_eq)
    next
      case True
      then have sw: "ys = swap ?zs i m" using ys by (simp add: exchangeStep_def)
      have nth: "ys ! k = (if k = m then ?zs ! i else if k = i then ?zs ! m else ?zs ! k)" for k
        unfolding sw by (rule swap_nth) (use ml in auto)
      have "f (ys ! k) \<le> f (ys ! i)" if "i \<le> k" "k < Suc m" for k
        using that True IH im by (auto simp: nth less_Suc_eq intro: order.trans less_imp_le)
      moreover have "\<exists>l. i \<le> l \<and> l < Suc m \<and> ys ! k = xs ! l" if kk: "i \<le> k" "k < Suc m" for k
      proof (cases "k = i")
        case True
        then show ?thesis using nth [of k] IH im by (auto intro!: exI [of _ m])
      next
        case False
        have "\<exists>k'. i \<le> k' \<and> k' < m \<and> ys ! k = ?zs ! k'"
          using False kk nth [of k] im by (cases "k = m") (auto simp: less_Suc_eq)
        then obtain k' where "i \<le> k'" "k' < m" "ys ! k = ?zs ! k'" by blast
        then show ?thesis using IH less_SucI by metis
      qed
      moreover have "mset ys = mset xs" unfolding sw using swap_mset [of i ?zs m] ml IH by simp
      moreover have "ys ! k = xs ! k" if "k < i \<or> Suc m \<le> k" for k
        using that nth [of k] IH im by auto
      ultimately show ?thesis using sw IH by auto
    qed
  qed
qed

lemma exchangeRow_spec:
  assumes "i < length xs"
  shows "length (exchangeRow f xs i) = length xs \<and> mset (exchangeRow f xs i) = mset xs
    \<and> (\<forall>k<i. exchangeRow f xs i ! k = xs ! k)
    \<and> (\<forall>k. i \<le> k \<and> k < length xs \<longrightarrow> f (exchangeRow f xs i ! k) \<le> f (exchangeRow f xs i ! i))
    \<and> (\<forall>k. i \<le> k \<and> k < length xs \<longrightarrow> (\<exists>l. i \<le> l \<and> l < length xs \<and> exchangeRow f xs i ! k = xs ! l))"
  using exchangeRow_prefix [OF assms order.refl refl, of f] unfolding exchangeRow_def by auto

text \<open>After \<open>n\<close> rows the first \<open>n\<close> elements are final.\<close>

lemma exchangeSort_prefix:
  assumes "n \<le> length xs" and "ys = foldl (exchangeRow f) xs [0..<n]"
  shows "length ys = length xs \<and> mset ys = mset xs
    \<and> (\<forall>i<n. \<forall>k. i \<le> k \<and> k < length xs \<longrightarrow> f (ys ! k) \<le> f (ys ! i))"
  using assms
proof (induction n arbitrary: ys)
  case 0
  then show ?case by simp
next
  case (Suc n)
  let ?zs = "foldl (exchangeRow f) xs [0..<n]"
  have IH: "length ?zs = length xs \<and> mset ?zs = mset xs
      \<and> (\<forall>i<n. \<forall>k. i \<le> k \<and> k < length xs \<longrightarrow> f (?zs ! k) \<le> f (?zs ! i))"
    using Suc by auto
  have ys: "ys = exchangeRow f ?zs n" using Suc.prems(2) by simp
  have n: "n < length ?zs" using IH Suc.prems(1) by simp
  note R = exchangeRow_spec [OF n, of f, folded ys]
  have "f (ys ! k) \<le> f (ys ! i)" if ik: "i < Suc n" "i \<le> k" "k < length xs" for i k
  proof (cases "i = n")
    case True
    then show ?thesis using R ik IH by auto
  next
    case False
    then have i: "i < n" "ys ! i = ?zs ! i" using ik R by auto
    show ?thesis
    proof (cases "k < n")
      case True
      then show ?thesis using R IH i ik by auto
    next
      case False
      then obtain l where "n \<le> l" "l < length xs" "ys ! k = ?zs ! l" using R ik IH by (metis not_less)
      then show ?thesis using IH i by (auto dest: less_le_trans)
    qed
  qed
  then show ?case using R IH by auto
qed

lemma exchangeSort_perm: "mset (exchangeSort f xs) = mset xs"
  using exchangeSort_prefix [OF order.refl refl] unfolding exchangeSort_def by blast

lemma exchangeSort_descending: "sorted_wrt (\<lambda>x y. f y \<le> f x) (exchangeSort f xs)"
  using exchangeSort_prefix [OF order.refl refl, of f xs]
  unfolding exchangeSort_def sorted_wrt_iff_nth_less by (metis less_imp_le less_trans)

end
