(* ===== verification/Restore_Discovery.thy ===== *)
theory Restore_Discovery
  imports Restore_Types Exchange_Sort
begin

text \<open>
  The validation half of the VirtualMachineFileRestore controller that turns backups into claims to restore:
  selecting the backups to serve, discovering the claims of the VM in each backup concurrently, grouping
  the results by claim and judging their availability
  (\<open>internal/controller/virtualmachinefilerestore_controller.go\<close>, lines 490 to 549 and 1330 to 1905).
\<close>

section \<open>The environment\<close>

record 'w pvc_env =
  pe_getBackup :: "namespaced_name \<Rightarrow> ('w, backup) io"
  pe_reader :: "'w backup_reader option"
  pe_now :: "'w \<Rightarrow> time \<times> 'w"
  pe_formatSize :: "int \<Rightarrow> string"
  pe_nameOrder :: "string list \<Rightarrow> string list"
  pe_finishOrder :: "velero_backup_info list \<Rightarrow> velero_backup_info list"
  pe_mapOrder :: "(string \<times> pvc_restore_info) list \<Rightarrow> (string \<times> pvc_restore_info) list"

definition pe_nowR :: "'w pvc_env \<Rightarrow> ('w, time) io" where
  "pe_nowR E w = (let (t, w1) = pe_now E w in (Inr t, w1))"

section \<open>Selection of the backups to serve\<close>

text \<open>The lookup map keeps the last backup of each name.\<close>

definition lookupBackup :: "velero_backup_info list \<Rightarrow> string \<Rightarrow> velero_backup_info option" where
  "lookupBackup bs n = find (\<lambda>b. vb_name b = n) (rev bs)"

text \<open>\<open>fmt.Sprintf("%v", names)\<close> of a string slice\<close>

definition showNames :: "string list \<Rightarrow> string" where
  "showNames ns = ''['' @ join ns '' '' @ '']''"

definition getFilteredBackupsToServe ::
    "string list \<Rightarrow> velero_backup_info list \<Rightarrow> velero_backup_info list result" where
  "getFilteredBackupsToServe selected valid =
    (if selected = [] then Inr valid
     else let invalidSelections = filter (\<lambda>n. lookupBackup valid n = None) selected
          in if invalidSelections \<noteq> []
             then Inl (errorf (''selected backups not found in discovery results: '' @ showNames invalidSelections))
             else Inr (List.map_filter (lookupBackup valid) selected))"

section \<open>Discovery of the claims in one backup\<close>

text \<open>The error of the extraction: \<open>ErrUnsupportedBackup\<close>, which carries the claim, or any other.\<close>

datatype extract_error = ErrUnsupportedBackup pvc_info string | ErrOther go_error

definition getVeleroBackup :: "'w pvc_env \<Rightarrow> string \<Rightarrow> string \<Rightarrow> ('w, backup) io" where
  "getVeleroBackup E backupName backupNamespace w =
    (case pe_getBackup E \<lparr>nn_namespace = backupNamespace, nn_name = backupName\<rparr> w of
       (Inl e, w1) \<Rightarrow>
         (Inl (errorf_w (''failed to get Velero backup '' @ backupName @ '' in namespace '' @ backupNamespace @ '': '') e), w1)
     | (Inr b, w1) \<Rightarrow> (Inr b, w1))"

definition getBackupMetadata :: "'w pvc_env \<Rightarrow> velero_backup_info \<Rightarrow> ('w, backup_progress) io" where
  "getBackupMetadata E bi w =
    (case getVeleroBackup E (vb_name bi) (vb_namespace bi) w of
       (Inl e, w1) \<Rightarrow>
         (Inl (if IsNotFound e then errorf ''backup CRD object deleted from cluster''
               else errorf_w ''failed to get Velero backup metadata: '' e), w1)
     | (Inr b, w1) \<Rightarrow>
         if BackupAsyncOperationsIncomplete (Some b) then
           (case BackupAsyncOperationsReason (Some b) of
              Some r \<Rightarrow> (Inl (errorf (if r = [] then ''backup has incomplete async operations'' else r)), w1)
            | None \<Rightarrow> (Inl (errorf ''panic: index out of range''), w1))
         else bindR (pe_nowR E) (\<lambda>t. returnR
           \<lparr>bp_info = plain_info (vb_name bi) (vb_namespace bi) (Some (GetBackupTimestamp b)),
            bp_status = StatusInProgress, bp_message = ''Extracting PVC information'', bp_lastUpdated = Some t\<rparr>) w1)"

text \<open>The claim names a VM's volumes refer to, the keys of \<open>vmPVCNames\<close>.\<close>

definition vmPVCNames :: "backup_vm \<Rightarrow> string list" where
  "vmPVCNames vm = (case bvm_volumes vm of None \<Rightarrow> []
     | Some vs \<Rightarrow> remdups (concat (map (\<lambda>(c, d).
         (case c of None \<Rightarrow> [] | Some n \<Rightarrow> [n]) @ (case d of None \<Rightarrow> [] | Some n \<Rightarrow> [n])) vs)))"

definition pvcSize :: "'w pvc_env \<Rightarrow> backup_pvc \<Rightarrow> string" where
  "pvcSize E p = (case bpvc_storage p of None \<Rightarrow> [] | Some b \<Rightarrow> pe_formatSize E b)"

definition pvcInfoOf :: "'w pvc_env \<Rightarrow> backup_pvc \<Rightarrow> pvc_info" where
  "pvcInfoOf E p = \<lparr>PVCUID = om_uid (bpvc_meta p), PVCName = om_name (bpvc_meta p),
     PVCNamespace = om_namespace (bpvc_meta p), PVCSize = pvcSize E p\<rparr>"

definition checkPVC :: "'w pvc_env \<Rightarrow> backup_pvc \<Rightarrow> extract_error + pvc_info" where
  "checkPVC E p =
    (let unsupported = (\<lambda>reason. Inl (ErrUnsupportedBackup (pvcInfoOf E p) reason)); uid = om_uid (bpvc_meta p)
     in if bpvc_labelsNil p
        then unsupported ''PVC missing labels - backup created with plugin not compatible with vmfr''
        else case map_of (om_labels (bpvc_meta p)) PVCUIDLabel of
          None \<Rightarrow> unsupported (''PVC missing required label '' @ [chr 39] @ PVCUIDLabel @ [chr 39] @
                    '' - backup created with plugin not compatible with vmfr'')
        | Some l \<Rightarrow>
            if l \<noteq> uid
            then unsupported (''PVC UID label mismatch (label: '' @ l @ '', actual: '' @ uid @
                   '') - backup metadata corrupted or created with incompatible plugin'')
            else Inr (pvcInfoOf E p))"

fun fetchPVCs :: "'w pvc_env \<Rightarrow> 'w backup_reader \<Rightarrow> backup \<Rightarrow> string \<Rightarrow> string list \<Rightarrow> pvc_info list \<Rightarrow> 'w
    \<Rightarrow> (extract_error + pvc_info list) \<times> 'w" where
  "fetchPVCs E rd b ns [] acc w = (Inr acc, w)"
| "fetchPVCs E rd b ns (n # names) acc w = (case FetchPVCFromBackup rd b n ns w of
     (Inl e, w1) \<Rightarrow> (Inl (ErrOther (errorf_w (''failed to fetch PVC '' @ n @ '' from backup: '') e)), w1)
   | (Inr p, w1) \<Rightarrow> (case checkPVC E p of
       Inl e \<Rightarrow> (Inl e, w1)
     | Inr i \<Rightarrow> fetchPVCs E rd b ns names (acc @ [i]) w1))"

definition extractPVCsForGivenVMFromBackup :: "'w pvc_env \<Rightarrow> string \<Rightarrow> string \<Rightarrow> string \<Rightarrow> string \<Rightarrow> 'w
    \<Rightarrow> (extract_error + pvc_info list) \<times> 'w" where
  "extractPVCsForGivenVMFromBackup E backupName backupNamespace vmName vmNamespace w = (case pe_reader E of
     None \<Rightarrow> (Inl (ErrOther (errorf ''backup contents reader not configured'')), w)
   | Some rd \<Rightarrow>
      (case getVeleroBackup E backupName backupNamespace w of
         (Inl e, w1) \<Rightarrow> (Inl (ErrOther (errorf_w (''failed to get Velero backup '' @ backupName @ '': '') e)), w1)
       | (Inr b, w1) \<Rightarrow>
          (case ExtractVMFromBackupMetadata rd b vmName vmNamespace w1 of
             (Inl e, w2) \<Rightarrow> (Inl (ErrOther (errorf_w ''failed to extract VM from backup: '' e)), w2)
           | (Inr None, w2) \<Rightarrow> (Inr [], w2)
           | (Inr (Some vm), w2) \<Rightarrow>
               if vmPVCNames vm = [] then (Inr [], w2)
               else fetchPVCs E rd b vmNamespace (pe_nameOrder E (vmPVCNames vm)) [] w2)))"

definition buildFailedProgress :: "'w pvc_env \<Rightarrow> velero_backup_info \<Rightarrow> string \<Rightarrow> string \<Rightarrow> 'w \<Rightarrow> backup_progress \<times> 'w" where
  "buildFailedProgress E bi reason message w =
    (let (t, w1) = pe_now E w
     in (\<lparr>bp_info = plain_info (vb_name bi) (vb_namespace bi) None, bp_status = StatusFailed,
          bp_message = reason @ '': '' @ message, bp_lastUpdated = Some t\<rparr>, w1))"

definition discoverPVCsFromSingleBackup ::
    "'w pvc_env \<Rightarrow> vmbd_spec \<Rightarrow> velero_backup_info \<Rightarrow> 'w \<Rightarrow> backup_progress \<times> 'w" where
  "discoverPVCsFromSingleBackup E sp bi w = (case getBackupMetadata E bi w of
     (Inl e, w1) \<Rightarrow> buildFailedProgress E bi ''BackupNotFound'' (err_msg e) w1
   | (Inr progress, w1) \<Rightarrow>
      (case extractPVCsForGivenVMFromBackup E (vb_name bi) (vb_namespace bi) (VirtualMachineName sp)
              (VirtualMachineNamespace sp) w1 of
         (Inl (ErrUnsupportedBackup pvc reason), w2) \<Rightarrow>
            (let (t, w3) = pe_now E w2
             in (progress \<lparr>bp_info := (bp_info progress) \<lparr>vb_pvcs := [pvc]\<rparr>, bp_status := StatusFailed,
                   bp_message := ''UnsupportedBackupFormat: '' @ reason, bp_lastUpdated := Some t\<rparr>, w3))
       | (Inl (ErrOther e), w2) \<Rightarrow>
            if containsStr (err_msg e) ''file not found''
            then buildFailedProgress E bi ''BackupFilesMissing'' ''Backup files missing from storage'' w2
            else buildFailedProgress E bi ''ExtractionFailed'' (err_msg e) w2
       | (Inr pvcs, w2) \<Rightarrow>
            (let (t, w3) = pe_now E w2
             in (progress \<lparr>bp_info := (bp_info progress) \<lparr>vb_pvcs := pvcs\<rparr>, bp_status := StatusCompleted,
                   bp_message := ''Successfully discovered '' @ decimal (length pvcs) @ '' PVCs'',
                   bp_lastUpdated := Some t\<rparr>, w3))))"

text \<open>Each goroutine sends one result; the channel delivers them in the order in which they finish.\<close>

fun collectResults :: "'w pvc_env \<Rightarrow> vmbd_spec \<Rightarrow> velero_backup_info list \<Rightarrow> 'w \<Rightarrow> backup_progress list \<times> 'w" where
  "collectResults E sp [] w = ([], w)"
| "collectResults E sp (b # bs) w =
    (let (p, w1) = discoverPVCsFromSingleBackup E sp b w; (ps, w2) = collectResults E sp bs w1 in (p # ps, w2))"

definition runConcurrentPVCDiscovery ::
    "'w pvc_env \<Rightarrow> vmbd_spec \<Rightarrow> velero_backup_info list \<Rightarrow> 'w \<Rightarrow> backup_progress list \<times> 'w" where
  "runConcurrentPVCDiscovery E sp backupsToServe w =
    (if backupsToServe = [] then ([], w) else collectResults E sp (pe_finishOrder E backupsToServe) w)"

end
