(* ===== verification/Restore_Grouping.thy ===== *)
theory Restore_Grouping
  imports Restore_Discovery
begin

text \<open>
  Grouping the discovery results by claim, \<open>processDiscoveryResults\<close>, and the judgement of their
  availability in \<open>validateAndDiscoverPVCs\<close>. The Go map from claim UIDs to claims is an association
  list; the order in which Go iterates it is a parameter.
\<close>

section \<open>Model\<close>

definition backupState :: "backup_progress \<Rightarrow> backup_state option" where
  "backupState p = (case bp_status p of
     StatusCompleted \<Rightarrow> Some StateAvailable
   | StatusFailed \<Rightarrow>
      Some (if containsStr (bp_message p) ''BackupNotFound'' \<or> containsStr (bp_message p) ''backup CRD object deleted''
            then StateBackupDeleted
            else if containsStr (bp_message p) ''BackupFilesMissing'' \<or> containsStr (bp_message p) ''Backup files missing''
            then StateBackupMissing
            else if containsStr (bp_message p) ''UnsupportedBackupFormat'' then StateUnsupportedPlugin
            else StateExtractionFailed)
   | _ \<Rightarrow> None)"

definition restoreInfoOf :: "backup_progress \<Rightarrow> backup_state \<Rightarrow> restore_info" where
  "restoreInfoOf p s = empty_restore_info \<lparr>ri_backupName := bp_name p, ri_backupNamespace := vb_namespace (bp_info p),
     ri_timestamp := vb_createdAt (bp_info p), ri_state := s,
     ri_failureReason := (if s \<noteq> StateAvailable then bp_message p else [])\<rparr>"

type_synonym pvc_map = "(string \<times> pvc_restore_info) list"

definition syntheticUID :: "backup_progress \<Rightarrow> string" where
  "syntheticUID p = ''backup-failure-'' @ vb_namespace (bp_info p) @ ''-'' @ bp_name p"

definition syntheticEntry :: "backup_progress \<Rightarrow> backup_state \<Rightarrow> pvc_restore_info" where
  "syntheticEntry p s = \<lparr>pr_pvc = \<lparr>PVCUID = syntheticUID p, PVCName = BackupLevelFailurePVCName,
       PVCNamespace = vb_namespace (bp_info p), PVCSize = ''N/A''\<rparr>,
     pr_restores = [restoreInfoOf p s]\<rparr>"

definition addPVC :: "backup_progress \<Rightarrow> backup_state \<Rightarrow> pvc_map \<Rightarrow> pvc_info \<Rightarrow> pvc_map" where
  "addPVC p s m c =
    (let m1 = (if map_of m (PVCUID c) = None
               then AList.update (PVCUID c) \<lparr>pr_pvc = c, pr_restores = []\<rparr> m else m)
     in case map_of m1 (PVCUID c) of
          Some i \<Rightarrow> AList.update (PVCUID c) (i \<lparr>pr_restores := pr_restores i @ [restoreInfoOf p s]\<rparr>) m1
        | None \<Rightarrow> m1)"

definition addProgress :: "pvc_map \<Rightarrow> backup_progress \<Rightarrow> pvc_map" where
  "addProgress m p = (case backupState p of
     None \<Rightarrow> m
   | Some s \<Rightarrow>
      if s \<noteq> StateAvailable \<and> vb_pvcs (bp_info p) = []
      then AList.update (syntheticUID p) (syntheticEntry p s) m
      else foldl (addPVC p s) m (vb_pvcs (bp_info p)))"

definition groupResults :: "backup_progress list \<Rightarrow> pvc_map" where
  "groupResults ps = foldl addProgress [] ps"

text \<open>A nil timestamp compares as the zero time.\<close>

definition restoreTime :: "restore_info \<Rightarrow> time" where
  "restoreTime r = (case ri_timestamp r of None \<Rightarrow> instant zeroTime | Some t \<Rightarrow> t)"

definition sortRestoresByTimestamp :: "restore_info list \<Rightarrow> restore_info list" where
  "sortRestoresByTimestamp rs = exchangeSort restoreTime rs"

definition pvcRestoresOf :: "'w pvc_env \<Rightarrow> backup_progress list \<Rightarrow> pvc_restore_info list" where
  "pvcRestoresOf E ps = map (\<lambda>(k, v). v \<lparr>pr_restores := sortRestoresByTimestamp (pr_restores v)\<rparr>)
     (pe_mapOrder E (groupResults ps))"

text \<open>The availability loop: claims fully, partially and not available, and their total.\<close>

record availability =
  av_total :: nat
  av_fully :: nat
  av_partially :: nat
  av_none :: nat

definition countPVC :: "availability \<Rightarrow> pvc_restore_info \<Rightarrow> availability" where
  "countPVC a p =
    (if PVCName (pr_pvc p) = BackupLevelFailurePVCName then a
     else let allAvailable = list_all (\<lambda>r. ri_state r = StateAvailable) (pr_restores p);
              hasAvailable = list_ex (\<lambda>r. ri_state r = StateAvailable) (pr_restores p);
              b = a \<lparr>av_total := av_total a + 1\<rparr>
          in if allAvailable \<and> hasAvailable then b \<lparr>av_fully := av_fully b + 1\<rparr>
             else if hasAvailable then b \<lparr>av_partially := av_partially b + 1\<rparr>
             else b \<lparr>av_none := av_none b + 1\<rparr>)"

definition availabilityOf :: "pvc_restore_info list \<Rightarrow> availability" where
  "availabilityOf ps = foldl countPVC \<lparr>av_total = 0, av_fully = 0, av_partially = 0, av_none = 0\<rparr> ps"

datatype verdict = NoAvailableBackups | PartialAvailability | AllAvailable

definition judge :: "availability \<Rightarrow> verdict" where
  "judge a = (if av_fully a = 0 \<and> av_partially a = 0 then NoAvailableBackups
     else if av_partially a > 0 \<or> av_none a > 0 then PartialAvailability
     else AllAvailable)"

section \<open>Facts about the grouping\<close>

definition restoresAt :: "pvc_map \<Rightarrow> string \<Rightarrow> restore_info list" where
  "restoresAt m u = (case map_of m u of None \<Rightarrow> [] | Some i \<Rightarrow> pr_restores i)"

text \<open>The restores a backup contributes to a claim.\<close>

definition restoresFor :: "string \<Rightarrow> backup_progress \<Rightarrow> restore_info list" where
  "restoresFor u p = (case backupState p of None \<Rightarrow> []
     | Some s \<Rightarrow> map (\<lambda>c. restoreInfoOf p s) (filter (\<lambda>c. PVCUID c = u) (vb_pvcs (bp_info p))))"

definition keyed :: "pvc_map \<Rightarrow> bool" where
  "keyed m \<longleftrightarrow> distinct (map fst m) \<and> (\<forall>(k, v)\<in>set m. pr_uid v = k)"

lemma keyed_Nil [simp]: "keyed []"
  by (simp add: keyed_def)

lemma set_update: "set (AList.update k v m) \<subseteq> insert (k, v) (set m)"
  by (induction m) auto

lemma keyed_update: "keyed m \<Longrightarrow> pr_uid v = k \<Longrightarrow> keyed (AList.update k v m)"
  using set_update [of k v m] by (fastforce simp: keyed_def distinct_update)

lemma keyed_lookup: "keyed m \<Longrightarrow> map_of m k = Some v \<Longrightarrow> pr_uid v = k"
  by (auto simp: keyed_def dest!: map_of_SomeD)

lemma map_of_AUpdate: "map_of (AList.update k v m) k' = (if k' = k then Some v else map_of m k')"
  by (simp add: update_conv')

lemma keyed_addPVC:
  assumes "keyed m"
  shows "keyed (addPVC p s m c)"
proof -
  let ?m1 = "if map_of m (PVCUID c) = None then AList.update (PVCUID c) \<lparr>pr_pvc = c, pr_restores = []\<rparr> m else m"
  have "keyed ?m1" using assms by (simp add: keyed_update)
  then show ?thesis
    using assms unfolding addPVC_def Let_def
    by (auto split: option.splits intro!: keyed_update dest: keyed_lookup)
qed

lemma keyed_addProgress: "keyed m \<Longrightarrow> keyed (addProgress m p)"
proof -
  assume m: "keyed m"
  have "keyed (foldl (addPVC p s) m cs)" for s cs
    using m by (induction cs arbitrary: m) (auto simp: keyed_addPVC)
  then show ?thesis
    using m by (auto simp: addProgress_def syntheticEntry_def split: option.splits intro!: keyed_update)
qed

lemma keyed_groupResults: "keyed (groupResults ps)"
  unfolding groupResults_def by (induction ps rule: rev_induct) (auto simp: keyed_addProgress)

lemma restoresAt_addPVC:
  "restoresAt (addPVC p s m c) u = restoresAt m u @ (if PVCUID c = u then [restoreInfoOf p s] else [])"
  by (auto simp: addPVC_def restoresAt_def Let_def map_of_AUpdate split: option.splits)

lemma restoresAt_addPVCs:
  "restoresAt (foldl (addPVC p s) m cs) u = restoresAt m u @ map (\<lambda>c. restoreInfoOf p s) (filter (\<lambda>c. PVCUID c = u) cs)"
  by (induction cs arbitrary: m) (auto simp: restoresAt_addPVC)

lemma restoresAt_addProgress:
  assumes "u \<noteq> syntheticUID p"
  shows "restoresAt (addProgress m p) u = restoresAt m u @ restoresFor u p"
  using assms
  by (auto simp: addProgress_def restoresFor_def restoresAt_addPVCs split: option.split)
     (simp_all add: restoresAt_def map_of_AUpdate)

lemma restoresAt_groupResults:
  assumes "\<forall>p\<in>set ps. u \<noteq> syntheticUID p"
  shows "restoresAt (groupResults ps) u = concat (map (restoresFor u) ps)"
  using assms
proof (induction ps rule: rev_induct)
  case Nil
  then show ?case by (simp add: groupResults_def restoresAt_def)
next
  case (snoc p ps)
  then show ?case using restoresAt_addProgress [of u p "groupResults ps"] by (simp add: groupResults_def)
qed

section \<open>Facts about availability\<close>

definition realPVCs :: "pvc_restore_info list \<Rightarrow> pvc_restore_info list" where
  "realPVCs ps = filter (\<lambda>p. PVCName (pr_pvc p) \<noteq> BackupLevelFailurePVCName) ps"

definition fullyAvailable :: "pvc_restore_info \<Rightarrow> bool" where
  "fullyAvailable p \<longleftrightarrow> pr_restores p \<noteq> [] \<and> (\<forall>r\<in>set (pr_restores p). ri_state r = StateAvailable)"

definition someAvailable :: "pvc_restore_info \<Rightarrow> bool" where
  "someAvailable p \<longleftrightarrow> (\<exists>r\<in>set (pr_restores p). ri_state r = StateAvailable)"

lemma fully_some: "fullyAvailable p \<Longrightarrow> someAvailable p"
  by (cases "pr_restores p") (auto simp: fullyAvailable_def someAvailable_def)

lemma countPVC_cases:
  "countPVC a p = (if PVCName (pr_pvc p) = BackupLevelFailurePVCName then a
     else if fullyAvailable p then a \<lparr>av_total := av_total a + 1, av_fully := av_fully a + 1\<rparr>
     else if someAvailable p then a \<lparr>av_total := av_total a + 1, av_partially := av_partially a + 1\<rparr>
     else a \<lparr>av_total := av_total a + 1, av_none := av_none a + 1\<rparr>)"
proof -
  have "list_ex (\<lambda>r. ri_state r = StateAvailable) (pr_restores p) \<longleftrightarrow> someAvailable p"
    by (simp add: list_ex_iff someAvailable_def)
  moreover have "list_all (\<lambda>r. ri_state r = StateAvailable) (pr_restores p) \<and> someAvailable p \<longleftrightarrow> fullyAvailable p"
    by (cases "pr_restores p") (auto simp: list_all_iff fullyAvailable_def someAvailable_def)
  ultimately show ?thesis unfolding countPVC_def Let_def by simp
qed

lemma availabilityOf_counts:
  "av_total (availabilityOf ps) = length (realPVCs ps)
   \<and> av_fully (availabilityOf ps) = length (filter fullyAvailable (realPVCs ps))
   \<and> av_partially (availabilityOf ps) = length (filter (\<lambda>p. someAvailable p \<and> \<not> fullyAvailable p) (realPVCs ps))
   \<and> av_none (availabilityOf ps) = length (filter (\<lambda>p. \<not> someAvailable p) (realPVCs ps))"
proof (induction ps rule: rev_induct)
  case Nil
  then show ?case by (simp add: availabilityOf_def realPVCs_def)
next
  case (snoc p ps)
  have "availabilityOf (ps @ [p]) = countPVC (availabilityOf ps) p" by (simp add: availabilityOf_def)
  then show ?case using snoc fully_some [of p] by (auto simp: countPVC_cases realPVCs_def)
qed

lemma judge_spec:
  "judge (availabilityOf ps) = (if \<forall>p\<in>set (realPVCs ps). \<not> someAvailable p then NoAvailableBackups
     else if \<forall>p\<in>set (realPVCs ps). fullyAvailable p then AllAvailable else PartialAvailability)"
proof -
  let ?r = "set (realPVCs ps)"
  have c: "av_fully (availabilityOf ps) = 0 \<longleftrightarrow> (\<forall>p\<in>?r. \<not> fullyAvailable p)"
    "av_partially (availabilityOf ps) = 0 \<longleftrightarrow> (\<forall>p\<in>?r. someAvailable p \<longrightarrow> fullyAvailable p)"
    "av_none (availabilityOf ps) = 0 \<longleftrightarrow> (\<forall>p\<in>?r. someAvailable p)"
    using availabilityOf_counts [of ps] by (auto simp: filter_empty_conv)
  show ?thesis
  proof (cases "\<forall>p\<in>?r. \<not> someAvailable p")
    case True
    then have "\<forall>p\<in>?r. \<not> fullyAvailable p" using fully_some by blast
    then show ?thesis using True c(1,2) by (simp add: judge_def)
  next
    case False
    then have "\<not> (av_fully (availabilityOf ps) = 0 \<and> av_partially (availabilityOf ps) = 0)"
      unfolding c by blast
    moreover have "(av_partially (availabilityOf ps) = 0 \<and> av_none (availabilityOf ps) = 0) \<longleftrightarrow> (\<forall>p\<in>?r. fullyAvailable p)"
      unfolding c using fully_some by blast
    ultimately show ?thesis using False by (auto simp: judge_def)
  qed
qed

lemma filter_key_lookup:
  "distinct (map fst m) \<Longrightarrow> filter (\<lambda>kv. fst kv = u) m = (case map_of m u of None \<Rightarrow> [] | Some v \<Rightarrow> [(u, v)])"
proof (induction m)
  case (Cons kv m)
  show ?case
  proof (cases "fst kv = u")
    case True
    then have "\<forall>x\<in>set m. fst x \<noteq> u" using Cons.prems by (metis distinct.simps(2) image_eqI list.map(2) list.set_map)
    then have "filter (\<lambda>kv. fst kv = u) m = []" by (simp add: filter_empty_conv)
    then show ?thesis using True by (cases kv) auto
  next
    case False
    then show ?thesis using Cons by (cases kv) auto
  qed
qed simp

lemma restores_perm: "mset (sortRestoresByTimestamp rs) = mset rs"
  by (simp add: sortRestoresByTimestamp_def exchangeSort_perm)

lemma restores_desc: "sorted_wrt (\<lambda>x y. restoreTime y \<le> restoreTime x) (sortRestoresByTimestamp rs)"
  by (simp add: sortRestoresByTimestamp_def exchangeSort_descending)

section \<open>Properties\<close>

text \<open>Sorting restores by timestamp returns a permutation of them with the newest first, a missing
  timestamp counting as the zero time.\<close>

theorem restores_sorted_newest_first:
  "mset (sortRestoresByTimestamp rs) = mset rs
   \<and> sorted_wrt (\<lambda>x y. restoreTime y \<le> restoreTime x) (sortRestoresByTimestamp rs)"
  by (simp add: restores_perm restores_desc)

text \<open>C15. Grouping by claim loses and invents nothing: whatever the iteration order of the map, the grouped
  claims have pairwise different UIDs, each claim's restores are sorted newest first, and for a UID that is not
  a synthetic one they are, up to order, exactly one restore for each listing of that claim in each backup
  that was not skipped, with the backup's name, time, state and failure message.\<close>

theorem grouping_faithful:
  assumes "mset (pe_mapOrder E (groupResults ps)) = mset (groupResults ps)"
    and "\<forall>p\<in>set ps. u \<noteq> syntheticUID p"
  shows "distinct (map pr_uid (pvcRestoresOf E ps))
    \<and> (\<forall>q\<in>set (pvcRestoresOf E ps). sorted_wrt (\<lambda>x y. restoreTime y \<le> restoreTime x) (pr_restores q))
    \<and> mset (concat (map pr_restores (filter (\<lambda>q. pr_uid q = u) (pvcRestoresOf E ps))))
        = mset (concat (map (restoresFor u) ps))"
proof -
  let ?m = "groupResults ps" and ?o = "pe_mapOrder E (groupResults ps)"
  let ?srt = "\<lambda>v. v \<lparr>pr_restores := sortRestoresByTimestamp (pr_restores v)\<rparr>"
  have k: "keyed ?m" by (rule keyed_groupResults)
  have "mset (map fst ?o) = mset (map fst ?m)" using assms(1) by (metis mset_map)
  then have d: "distinct (map fst ?o)" using k unfolding keyed_def by (metis mset_eq_imp_distinct_iff)
  have s: "set ?o = set ?m" using assms(1) by (metis set_mset_mset)
  have ko: "pr_uid v = kk" if "(kk, v) \<in> set ?o" for kk v using that s k by (auto simp: keyed_def)
  have res: "pvcRestoresOf E ps = map (\<lambda>(kk, v). ?srt v) ?o" by (simp add: pvcRestoresOf_def)
  have ids: "map pr_uid (pvcRestoresOf E ps) = map fst ?o"
    unfolding res by (auto simp: ko)
  have "filter (\<lambda>q. pr_uid q = u) (pvcRestoresOf E ps) = map (?srt \<circ> snd) (filter (\<lambda>kv. fst kv = u) ?o)"
  proof -
    have "filter (\<lambda>q. pr_uid q = u) (pvcRestoresOf E ps)
        = map (\<lambda>(kk, v). ?srt v) (filter (\<lambda>kv. pr_uid (snd kv) = u) ?o)"
      unfolding res filter_map by (simp add: o_def case_prod_beta)
    moreover have "filter (\<lambda>kv. pr_uid (snd kv) = u) ?o = filter (\<lambda>kv. fst kv = u) ?o"
      by (rule filter_cong) (auto simp: ko)
    ultimately show ?thesis by (simp add: o_def case_prod_beta)
  qed
  moreover have "map_of ?o u = map_of ?m u"
    using d s k unfolding keyed_def by (metis map_of_inject_set)
  ultimately have "mset (concat (map pr_restores (filter (\<lambda>q. pr_uid q = u) (pvcRestoresOf E ps)))) = mset (restoresAt ?m u)"
    using filter_key_lookup [OF d, of u]
    by (auto simp: restoresAt_def restores_perm split: option.splits)
  moreover have "distinct (map pr_uid (pvcRestoresOf E ps))" using d by (simp only: ids)
  moreover have "\<forall>q\<in>set (pvcRestoresOf E ps). sorted_wrt (\<lambda>x y. restoreTime y \<le> restoreTime x) (pr_restores q)"
    using restores_desc by (auto simp: res)
  ultimately show ?thesis using restoresAt_groupResults [OF assms(2)] by simp
qed

definition demo_progress :: "string \<Rightarrow> time \<Rightarrow> backup_progress" where
  "demo_progress n t = \<lparr>bp_info = \<lparr>vb_name = n, vb_namespace = ''adp'', vb_createdAt = Some t,
       vb_pvcs = [\<lparr>PVCUID = ''u'', PVCName = ''disk'', PVCNamespace = ''vms'', PVCSize = ''5Gi''\<rparr>]\<rparr>,
     bp_status = StatusCompleted, bp_message = [], bp_lastUpdated = None\<rparr>"

definition demo_pvc_env :: "unit pvc_env" where
  "demo_pvc_env = \<lparr>pe_getBackup = (\<lambda>k w. (Inl (errorf ''none''), w)), pe_reader = None, pe_now = (\<lambda>w. (0, w)),
     pe_formatSize = (\<lambda>n. []), pe_nameOrder = rev, pe_finishOrder = rev, pe_mapOrder = rev\<rparr>"

theorem grouping_faithful_witness:
  "mset (concat (map pr_restores (filter (\<lambda>q. pr_uid q = ''u'')
       (pvcRestoresOf demo_pvc_env [demo_progress ''b1'' 5, demo_progress ''b2'' 7]))))
   = mset (concat (map (restoresFor ''u'') [demo_progress ''b1'' 5, demo_progress ''b2'' 7]))"
  by (rule grouping_faithful [THEN conjunct2, THEN conjunct2])
     (simp_all add: demo_pvc_env_def demo_progress_def syntheticUID_def)

text \<open>C30. The verdict on availability is exactly the three documented rules over the claims other than the
  synthetic ones: no claim has an available backup, all claims have only available backups (and at least one each), or
  something in between.\<close>

theorem availability_verdict:
  "judge (availabilityOf ps) = (if \<forall>p\<in>set (realPVCs ps). \<not> someAvailable p then NoAvailableBackups
     else if \<forall>p\<in>set (realPVCs ps). fullyAvailable p then AllAvailable else PartialAvailability)"
  by (rule judge_spec)

definition demo_claim :: "string \<Rightarrow> string \<Rightarrow> backup_state list \<Rightarrow> pvc_restore_info" where
  "demo_claim u n ss = \<lparr>pr_pvc = \<lparr>PVCUID = u, PVCName = n, PVCNamespace = ''vms'', PVCSize = ''5Gi''\<rparr>,
     pr_restores = map (\<lambda>s. empty_restore_info \<lparr>ri_backupName := ''b'', ri_state := s\<rparr>) ss\<rparr>"

theorem availability_verdict_witness:
  "judge (availabilityOf [demo_claim ''u'' ''disk'' [StateAvailable],
     demo_claim ''s'' BackupLevelFailurePVCName [StateBackupDeleted]]) = AllAvailable
   \<and> judge (availabilityOf [demo_claim ''u'' ''disk'' [StateAvailable, StateBackupMissing]]) = PartialAvailability"
  using availability_verdict [of "[demo_claim ''u'' ''disk'' [StateAvailable], demo_claim ''s'' BackupLevelFailurePVCName [StateBackupDeleted]]"]
    availability_verdict [of "[demo_claim ''u'' ''disk'' [StateAvailable, StateBackupMissing]]"]
  by (simp add: realPVCs_def demo_claim_def fullyAvailable_def someAvailable_def empty_restore_info_def BackupLevelFailurePVCName_def)

text \<open>Selecting backups either rejects the request, when some selected name is not a valid backup, or serves
  exactly the selected backups in the order and number of the selection, all of them valid; with no selection it
  serves all valid backups.\<close>

theorem filtered_backups_served:
  "(case getFilteredBackupsToServe selected valid of
      Inl e \<Rightarrow> selected \<noteq> [] \<and> \<not> set selected \<subseteq> vb_name ` set valid
    | Inr bs \<Rightarrow> set bs \<subseteq> set valid \<and> (if selected = [] then bs = valid else map vb_name bs = selected))"
proof -
  have look: "lookupBackup valid n = None \<longleftrightarrow> n \<notin> vb_name ` set valid" for n
    by (force simp: lookupBackup_def find_None_iff)
  have some: "b \<in> set valid \<and> vb_name b = n" if "lookupBackup valid n = Some b" for n b
    using find_Some_in [OF that [unfolded lookupBackup_def]] by simp
  have served: "set (List.map_filter (lookupBackup valid) ns) \<subseteq> set valid
      \<and> map vb_name (List.map_filter (lookupBackup valid) ns) = ns" if "\<forall>n\<in>set ns. lookupBackup valid n \<noteq> None" for ns
    using that some by (induction ns) (auto simp: map_filter_simps split: option.split)
  show ?thesis
    using served [of selected] look
    by (auto simp: getFilteredBackupsToServe_def Let_def filter_empty_conv)
qed

end
