(* ===== verification/Restore_Velero.thy ===== *)
theory Restore_Velero
  imports Restore_Grouping
begin

text \<open>
  The Velero restores of a file restore: creating one restore per backup, recording its name, and
  following its phase (\<open>findExistingVeleroRestore\<close>, \<open>checkVeleroRestoresAlreadyCreated\<close>,
  \<open>createVeleroRestores\<close>, \<open>monitorVeleroRestores\<close> of the file restore controller). The API calls are
  fields of \<open>vmfr_env\<close>; a status patch takes the baseline and the modified object, as the server
  receives only their difference.
\<close>

section \<open>Environment\<close>

record velero_restore =
  vr_meta :: object_meta
  vr_backupName :: string
  vr_pvcUIDs :: "string list"
  vr_includedNamespaces :: "string list"
  vr_namespaceMapping :: strmap
  vr_includedResources :: "string list"
  vr_phase :: string

abbreviation vr_name :: "velero_restore \<Rightarrow> string" where "vr_name r \<equiv> om_name (vr_meta r)"

record 'w vmfr_env =
  fe_oadpNamespace :: string
  fe_get :: "namespaced_name \<Rightarrow> ('w, vmfr) io"
  fe_getDiscovery :: "namespaced_name \<Rightarrow> ('w, vmbd) io"
  fe_patchStatus :: "vmfr \<Rightarrow> vmfr \<Rightarrow> ('w, vmfr) io"
  fe_updateStatus :: "vmfr \<Rightarrow> ('w, vmfr) io"
  fe_patch :: "vmfr \<Rightarrow> vmfr \<Rightarrow> ('w, vmfr) io"
  fe_listRestores :: "string \<Rightarrow> strmap \<Rightarrow> ('w, velero_restore list) io"
  fe_createRestore :: "velero_restore \<Rightarrow> ('w, velero_restore) io"
  fe_setCondition :: set_condition
  fe_findCondition :: find_condition
  fe_addFinalizer :: "string list \<Rightarrow> string \<Rightarrow> string list"
  fe_uidOrder :: "(string \<times> string list) list \<Rightarrow> (string \<times> string list) list"
  fe_pvc :: "'w pvc_env"

definition ownedBy :: "vmfr \<Rightarrow> strmap" where
  "ownedBy v = [(VMFROriginUUIDLabel, om_uid (vmfr_meta v))]"

section \<open>Creating the restores\<close>

definition isSynthetic :: "pvc_restore_info \<Rightarrow> bool" where
  "isSynthetic p \<longleftrightarrow> PVCName (pr_pvc p) = BackupLevelFailurePVCName"

definition checkVeleroRestoresAlreadyCreated :: "pvc_restore_info list \<Rightarrow> bool" where
  "checkVeleroRestoresAlreadyCreated ps =
     list_all (\<lambda>p. isSynthetic p \<or>
       list_all (\<lambda>r. ri_state r \<noteq> StateAvailable \<or> ri_restoreName r \<noteq> []) (pr_restores p)) ps"

text \<open>An annotation that is not set reads as the empty string.\<close>

definition annotation :: "object_meta \<Rightarrow> string \<Rightarrow> string" where
  "annotation m k = (case map_of (om_annotations m) k of None \<Rightarrow> [] | Some v \<Rightarrow> v)"

definition findExistingVeleroRestore :: "'w vmfr_env \<Rightarrow> string \<Rightarrow> vmfr \<Rightarrow> ('w, velero_restore) io" where
  "findExistingVeleroRestore E backupName v w = (case fe_listRestores E (fe_oadpNamespace E) (ownedBy v) w of
     (Inl e, w1) \<Rightarrow> (Inl (errorf_w ''failed to list Velero Restores: '' e), w1)
   | (Inr rs, w1) \<Rightarrow> (case find (\<lambda>r. annotation (vr_meta r) BackupNameAnnotation = backupName) rs of
       Some r \<Rightarrow> (Inr r, w1)
     | None \<Rightarrow> (Inl (errorf (''no existing Velero Restore found for backup '' @ backupName)), w1)))"

definition getDiscoveryResource :: "'w vmfr_env \<Rightarrow> vmfr \<Rightarrow> ('w, vmbd) io" where
  "getDiscoveryResource E v = fe_getDiscovery E
     \<lparr>nn_namespace = om_namespace (vmfr_meta v), nn_name = BackupsDiscoveryRef (vmfr_spec v)\<rparr>"

text \<open>The (backup, claim) pairs to restore, in the order of the loop, and the map built from them.\<close>

definition availablePairs :: "pvc_restore_info list \<Rightarrow> (string \<times> string) list" where
  "availablePairs ps = concat (map (\<lambda>p. if isSynthetic p then []
     else map (\<lambda>r. (ri_backupName r, pr_uid p)) (filter (\<lambda>r. ri_state r = StateAvailable) (pr_restores p))) ps)"

definition addUID :: "(string \<times> string list) list \<Rightarrow> string \<times> string \<Rightarrow> (string \<times> string list) list" where
  "addUID m bu = AList.update (fst bu) ((case map_of m (fst bu) of None \<Rightarrow> [] | Some us \<Rightarrow> us) @ [snd bu]) m"

definition backupToPVCUIDs :: "pvc_restore_info list \<Rightarrow> (string \<times> string list) list" where
  "backupToPVCUIDs ps = foldl addUID [] (availablePairs ps)"

definition restoreObject :: "'w vmfr_env \<Rightarrow> vmfr \<Rightarrow> vmbd_spec \<Rightarrow> string \<Rightarrow> string \<Rightarrow> string list \<Rightarrow> velero_restore" where
  "restoreObject E v sp restoreNamespace backupName uids =
     \<lparr>vr_meta = empty_meta \<lparr>
        om_generateName := GenerateVeleroRestorePrefix (om_name (vmfr_meta v)) backupName,
        om_namespace := fe_oadpNamespace E, om_labels := ownedBy v,
        om_annotations := [(VMFROriginNameAnnotation, om_name (vmfr_meta v)),
          (VMFROriginNamespaceAnnotation, om_namespace (vmfr_meta v)),
          (''oadp.openshift.io/vm-name'', VirtualMachineName sp),
          (''oadp.openshift.io/vm-namespace'', VirtualMachineNamespace sp),
          (BackupNameAnnotation, backupName), (''oadp.openshift.io/vmfr-restore'', TrueString)]\<rparr>,
      vr_backupName = backupName, vr_pvcUIDs = uids,
      vr_includedNamespaces = [VirtualMachineNamespace sp],
      vr_namespaceMapping = [(VirtualMachineNamespace sp, restoreNamespace)],
      vr_includedResources = [''persistentvolumeclaims'', ''volumesnapshots''], vr_phase = []\<rparr>"

definition createOne :: "'w vmfr_env \<Rightarrow> vmfr \<Rightarrow> vmbd_spec \<Rightarrow> string \<Rightarrow> string \<times> string list \<Rightarrow> strmap \<Rightarrow> ('w, strmap) io" where
  "createOne E v sp ns bu names w =
    (let (backupName, uids) = bu; obj = restoreObject E v sp ns backupName uids
     in case fe_createRestore E obj w of
          (Inr created, w1) \<Rightarrow> (Inr (AList.update backupName (vr_name created) names), w1)
        | (Inl e, w1) \<Rightarrow>
            if IsAlreadyExists e then
              (case findExistingVeleroRestore E backupName v w1 of
                 (Inl fe, w2) \<Rightarrow> (Inl (errorf_w (''failed to find existing Velero Restore for backup '' @ backupName @ '': '') fe), w2)
               | (Inr ex, w2) \<Rightarrow> (Inr (AList.update backupName (vr_name ex) names), w2))
            else (Inl (errorf_w (''failed to create Velero Restore with prefix '' @ om_generateName (vr_meta obj) @ '': '') e), w1))"

definition nameRestore :: "string \<Rightarrow> strmap \<Rightarrow> restore_info \<Rightarrow> restore_info" where
  "nameRestore oadp names r =
    (if ri_state r = StateAvailable then
       (case map_of names (ri_backupName r) of
          Some n \<Rightarrow> r \<lparr>ri_restoreName := n, ri_restoreNamespace := oadp, ri_phase := ''New''\<rparr>
        | None \<Rightarrow> r)
     else r)"

definition onRealRestores :: "(restore_info \<Rightarrow> restore_info) \<Rightarrow> pvc_restore_info list \<Rightarrow> pvc_restore_info list" where
  "onRealRestores f ps = map (\<lambda>p. if isSynthetic p then p else p \<lparr>pr_restores := map f (pr_restores p)\<rparr>) ps"

definition createVeleroRestores :: "'w vmfr_env \<Rightarrow> vmfr \<Rightarrow> ('w, vmfr) io" where
  "createVeleroRestores E v w =
    (let restoreNamespace = fs_createdNamespace (vmfr_status v)
     in if restoreNamespace = []
        then (Inl (errorf ''restore namespace not found in status - namespace creation may have failed''), w)
        else (case getDiscoveryResource E v w of
          (Inl e, w1) \<Rightarrow> (Inl (errorf_w ''failed to get discovery resource for VM metadata: '' e), w1)
        | (Inr d, w1) \<Rightarrow>
           (let m = backupToPVCUIDs (fs_pvcRestores (vmfr_status v))
            in if m = [] then (Inl (errorf ''no available backups found to restore - this should have been caught in validation''), w1)
               else bindR (foldR (createOne E v (vmbd_spec d) restoreNamespace) (fe_uidOrder E m) [])
                      (\<lambda>names w2.
                        (case fe_patchStatus E v (v \<lparr>vmfr_status := (vmfr_status v) \<lparr>fs_pvcRestores :=
                             onRealRestores (nameRestore (fe_oadpNamespace E) names) (fs_pvcRestores (vmfr_status v))\<rparr>\<rparr>) w2 of
                           (Inl e, w3) \<Rightarrow> (Inl (errorf_w ''failed to update PVCRestores with Velero Restore names: '' e), w3)
                         | (Inr v1, w3) \<Rightarrow> (Inr v1, w3))) w1)))"

section \<open>Following the restores\<close>

datatype restore_class = RCompleted | RFailed | RInProgress

definition classifyPhase :: "string \<Rightarrow> restore_class" where
  "classifyPhase ph =
    (if ph \<in> {''Completed'', ''Finalizing'', ''FinalizingPartiallyFailed''} then RCompleted
     else if ph \<in> {''Failed'', ''PartiallyFailed'', ''FailedValidation''} then RFailed
     else RInProgress)"

definition normalizePhase :: "string \<Rightarrow> string" where
  "normalizePhase ph = (if ph = ''Finalizing'' \<or> ph = ''FinalizingPartiallyFailed'' then ''Completed'' else ph)"

definition matchesRestore :: "velero_restore \<Rightarrow> restore_info \<Rightarrow> bool" where
  "matchesRestore r i \<longleftrightarrow> ri_backupName i = annotation (vr_meta r) BackupNameAnnotation \<and> ri_state i = StateAvailable
     \<and> (ri_restoreName i = [] \<or> ri_restoreName i = vr_name r)"

definition updateInfo :: "string \<Rightarrow> velero_restore \<Rightarrow> restore_info \<Rightarrow> restore_info" where
  "updateInfo oadp r i =
    (if matchesRestore r i then
       (let i1 = (if ri_restoreName i = [] then i \<lparr>ri_restoreName := vr_name r, ri_restoreNamespace := oadp\<rparr> else i)
        in i1 \<lparr>ri_phase := normalizePhase (vr_phase r)\<rparr>)
     else i)"

definition infoChanges :: "velero_restore \<Rightarrow> restore_info \<Rightarrow> bool" where
  "infoChanges r i \<longleftrightarrow> matchesRestore r i \<and> (ri_restoreName i = [] \<or> ri_phase i \<noteq> normalizePhase (vr_phase r))"

record monitor =
  mo_completed :: nat
  mo_failed :: nat
  mo_inProgress :: nat
  mo_updated :: bool
  mo_pvcs :: "pvc_restore_info list"

definition monitorOne :: "string \<Rightarrow> monitor \<Rightarrow> velero_restore \<Rightarrow> monitor" where
  "monitorOne oadp m r =
    (let m1 = (case classifyPhase (vr_phase r) of
                 RCompleted \<Rightarrow> m \<lparr>mo_completed := mo_completed m + 1\<rparr>
               | RFailed \<Rightarrow> m \<lparr>mo_failed := mo_failed m + 1\<rparr>
               | RInProgress \<Rightarrow> m \<lparr>mo_inProgress := mo_inProgress m + 1\<rparr>)
     in m1 \<lparr>mo_updated := mo_updated m \<or>
             list_ex (\<lambda>p. \<not> isSynthetic p \<and> list_ex (infoChanges r) (pr_restores p)) (mo_pvcs m),
           mo_pvcs := onRealRestores (updateInfo oadp r) (mo_pvcs m)\<rparr>)"

definition monitorAll :: "string \<Rightarrow> velero_restore list \<Rightarrow> pvc_restore_info list \<Rightarrow> monitor" where
  "monitorAll oadp rs ps = foldl (monitorOne oadp)
     \<lparr>mo_completed = 0, mo_failed = 0, mo_inProgress = 0, mo_updated = False, mo_pvcs = ps\<rparr> rs"

text \<open>The result also carries the object with the phases updated in memory.\<close>

definition monitorVeleroRestores :: "'w vmfr_env \<Rightarrow> vmfr \<Rightarrow> ('w, monitor \<times> vmfr) io" where
  "monitorVeleroRestores E v w = (case fe_listRestores E (fe_oadpNamespace E) (ownedBy v) w of
     (Inl e, w1) \<Rightarrow> (Inl (errorf_w ''failed to list Velero Restores: '' e), w1)
   | (Inr rs, w1) \<Rightarrow>
      if rs = [] then (Inl (errorf ''no Velero Restores found - this should not happen''), w1)
      else (let m = monitorAll (fe_oadpNamespace E) rs (fs_pvcRestores (vmfr_status v))
            in (Inr (m, v \<lparr>vmfr_status := (vmfr_status v) \<lparr>fs_pvcRestores := mo_pvcs m\<rparr>\<rparr>), w1)))"

end
