(* ===== verification/Restore_Velero_Facts.thy ===== *)
theory Restore_Velero_Facts
  imports Restore_Velero
begin

text \<open>
  Facts about the Velero restores of a file restore: what each restore selects, that creating them makes the
  idempotency check succeed, and what following them reports.
\<close>

section \<open>The map from backups to claims\<close>

definition uidsOf :: "(string \<times> string) list \<Rightarrow> string \<Rightarrow> string list" where
  "uidsOf pairs b = map snd (filter (\<lambda>bu. fst bu = b) pairs)"

lemma map_of_addUID:
  "map_of (addUID m bu) b = (if b = fst bu then Some ((case map_of m b of None \<Rightarrow> [] | Some us \<Rightarrow> us) @ [snd bu]) else map_of m b)"
  by (simp add: addUID_def update_conv')

lemma map_of_foldl_addUID:
  "map_of (foldl addUID [] pairs) b = (if uidsOf pairs b = [] then None else Some (uidsOf pairs b))"
proof (induction pairs rule: rev_induct)
  case Nil
  then show ?case by (simp add: uidsOf_def)
next
  case (snoc bu pairs)
  have app: "uidsOf (pairs @ [bu]) b = uidsOf pairs b @ (if fst bu = b then [snd bu] else [])"
    by (simp add: uidsOf_def)
  show ?case using snoc by (auto simp: map_of_addUID app)
qed

lemma distinct_foldl_addUID: "distinct (map fst (foldl addUID [] pairs))"
  by (induction pairs rule: rev_induct) (auto simp: addUID_def distinct_update)

lemma set_backupToPVCUIDs:
  "(b, us) \<in> set (backupToPVCUIDs ps) \<longleftrightarrow> us = uidsOf (availablePairs ps) b \<and> us \<noteq> []"
proof -
  have "(b, us) \<in> set (backupToPVCUIDs ps) \<longleftrightarrow> map_of (backupToPVCUIDs ps) b = Some us"
    unfolding backupToPVCUIDs_def using distinct_foldl_addUID by simp
  then show ?thesis unfolding backupToPVCUIDs_def map_of_foldl_addUID by auto
qed

lemma keys_backupToPVCUIDs: "fst ` set (backupToPVCUIDs ps) = fst ` set (availablePairs ps)"
proof -
  have "b \<in> fst ` set (backupToPVCUIDs ps) \<longleftrightarrow> uidsOf (availablePairs ps) b \<noteq> []" for b
    using set_backupToPVCUIDs [of b] by force
  moreover have "uidsOf pairs b \<noteq> [] \<longleftrightarrow> b \<in> fst ` set pairs" for pairs b
    by (auto simp: uidsOf_def filter_empty_conv image_iff)
  ultimately show ?thesis by blast
qed

text \<open>The pairs read off the status.\<close>

lemma uidsOf_append: "uidsOf (ps @ qs) b = uidsOf ps b @ uidsOf qs b" and uidsOf_Nil: "uidsOf [] b = []"
  by (simp_all add: uidsOf_def)

lemma uidsOf_availablePairs:
  "uidsOf (availablePairs ps) b = concat (map (\<lambda>p. map (\<lambda>r. pr_uid p)
     (filter (\<lambda>r. ri_backupName r = b \<and> ri_state r = StateAvailable) (pr_restores p)))
     (filter (\<lambda>p. PVCName (pr_pvc p) \<noteq> BackupLevelFailurePVCName) ps))"
proof (induction ps)
  case Nil
  then show ?case by (simp add: availablePairs_def uidsOf_def)
next
  case (Cons p ps)
  have "uidsOf (map (\<lambda>r. (ri_backupName r, u)) (filter (\<lambda>r. ri_state r = StateAvailable) rs)) b
      = map (\<lambda>r. u) (filter (\<lambda>r. ri_backupName r = b \<and> ri_state r = StateAvailable) rs)" for u rs
    by (induction rs) (auto simp: uidsOf_def)
  then show ?case using Cons by (auto simp: availablePairs_def uidsOf_append uidsOf_Nil isSynthetic_def)
qed

section \<open>Creation names every available restore\<close>

text \<open>What creation relies on: objects the server returns have names.\<close>

locale named_restores =
  fixes E :: "'w vmfr_env"
  assumes created_named: "fe_createRestore E r w = (Inr c, w1) \<Longrightarrow> vr_name c \<noteq> []"
    and listed_named: "fe_listRestores E ns ls w = (Inr rs, w1) \<Longrightarrow> c \<in> set rs \<Longrightarrow> vr_name c \<noteq> []"
begin

lemma createOne_names:
  assumes "createOne E v sp ns bu names w = (Inr names1, w1)"
  shows "\<exists>n. n \<noteq> [] \<and> names1 = AList.update (fst bu) n names"
proof -
  have ex: "vr_name r \<noteq> []" if "findExistingVeleroRestore E b v w = (Inr r, w2)" for b w w2 r
    using that by (auto simp: findExistingVeleroRestore_def split: prod.splits sum.splits option.splits
        dest: find_Some_in listed_named)
  show ?thesis
    using assms
    by (cases bu) (auto simp: createOne_def Let_def split: prod.splits sum.splits if_splits dest: created_named ex)
qed

lemma createAll_names:
  assumes "foldR (createOne E v sp ns) bus names w = (Inr names1, w1)"
    and "\<forall>b n. map_of names b = Some n \<longrightarrow> n \<noteq> []"
  shows "(\<forall>b n. map_of names1 b = Some n \<longrightarrow> n \<noteq> [])
    \<and> dom (map_of names1) = dom (map_of names) \<union> fst ` set bus"
  using assms
proof (induction bus arbitrary: names w)
  case Nil
  then show ?case by simp
next
  case (Cons bu bus)
  from Cons.prems(1) obtain names2 w2 where
    c: "createOne E v sp ns bu names w = (Inr names2, w2)"
    and f: "foldR (createOne E v sp ns) bus names2 w2 = (Inr names1, w1)"
    by (auto elim: bindR_InrE)
  obtain n where n: "n \<noteq> []" "names2 = AList.update (fst bu) n names" using createOne_names [OF c] by blast
  have "\<forall>b m. map_of names2 b = Some m \<longrightarrow> m \<noteq> []" using Cons.prems(2) n by (simp add: update_conv')
  from Cons.IH [OF f this] show ?case using n(2) by (auto simp: update_conv')
qed

lemma names_all_available:
  assumes "\<forall>b\<in>fst ` set (availablePairs ps). \<exists>n. map_of names b = Some n \<and> n \<noteq> []"
  shows "checkVeleroRestoresAlreadyCreated (onRealRestores (nameRestore oadp names) ps)"
  unfolding checkVeleroRestoresAlreadyCreated_def list_all_iff
proof (intro ballI)
  fix q
  assume "q \<in> set (onRealRestores (nameRestore oadp names) ps)"
  then obtain p where p: "p \<in> set ps" and q: "q = (if isSynthetic p then p else p \<lparr>pr_restores := map (nameRestore oadp names) (pr_restores p)\<rparr>)"
    by (auto simp: onRealRestores_def)
  show "isSynthetic q \<or> (\<forall>r\<in>set (pr_restores q). ri_state r \<noteq> StateAvailable \<or> ri_restoreName r \<noteq> [])"
  proof (cases "isSynthetic p")
    case False
    have "ri_restoreName (nameRestore oadp names r) \<noteq> []" if r: "r \<in> set (pr_restores p)" "ri_state r = StateAvailable" for r
    proof -
      have "(ri_backupName r, pr_uid p) \<in> set (availablePairs ps)"
        using p r False by (auto simp: availablePairs_def)
      then obtain n where "map_of names (ri_backupName r) = Some n" "n \<noteq> []" using assms by force
      then show ?thesis using r by (simp add: nameRestore_def)
    qed
    moreover have "ri_state (nameRestore oadp names r) = ri_state r" for r
      by (simp add: nameRestore_def split: option.split)
    ultimately show ?thesis using q False by auto
  qed (simp add: q)
qed

lemma create_then_created:
  assumes "createVeleroRestores E v w = (Inr v1, w1)"
    and order: "mset (fe_uidOrder E (backupToPVCUIDs (fs_pvcRestores (vmfr_status v))))
      = mset (backupToPVCUIDs (fs_pvcRestores (vmfr_status v)))"
    and patch: "\<forall>m w w2 a. fe_patchStatus E v m w = (Inr a, w2) \<longrightarrow>
      fs_pvcRestores (vmfr_status a) = fs_pvcRestores (vmfr_status m)"
  shows "checkVeleroRestoresAlreadyCreated (fs_pvcRestores (vmfr_status v1))"
proof -
  let ?ps = "fs_pvcRestores (vmfr_status v)" and ?m = "backupToPVCUIDs (fs_pvcRestores (vmfr_status v))"
  let ?ns = "fs_createdNamespace (vmfr_status v)"
  have ne: "?ns \<noteq> []" using assms(1) by (auto simp: createVeleroRestores_def Let_def)
  obtain d w2 where d: "getDiscoveryResource E v w = (Inr d, w2)"
    using assms(1) ne by (auto simp: createVeleroRestores_def Let_def split: prod.splits sum.splits)
  let ?f = "\<lambda>names. onRealRestores (nameRestore (fe_oadpNamespace E) names) ?ps"
  let ?obj = "\<lambda>names. v \<lparr>vmfr_status := (vmfr_status v) \<lparr>fs_pvcRestores := ?f names\<rparr>\<rparr>"
  have mne: "?m \<noteq> []" using assms(1) ne d by (auto simp: createVeleroRestores_def Let_def)
  obtain names w3 where c: "foldR (createOne E v (vmbd_spec d) ?ns) (fe_uidOrder E ?m) [] w2 = (Inr names, w3)"
    and p: "fe_patchStatus E v (?obj names) w3 = (Inr v1, w1)"
    using assms(1) ne d mne
    by (auto simp: createVeleroRestores_def Let_def elim!: bindR_InrE split: prod.splits sum.splits)
  have "set (fe_uidOrder E ?m) = set ?m" using order by (metis set_mset_mset)
  then have "dom (map_of names) = fst ` set (availablePairs ?ps)" "\<forall>b n. map_of names b = Some n \<longrightarrow> n \<noteq> []"
    using createAll_names [OF c] keys_backupToPVCUIDs by auto
  then have "checkVeleroRestoresAlreadyCreated (?f names)"
    by (intro names_all_available) blast
  moreover have "fs_pvcRestores (vmfr_status v1) = ?f names"
    using patch p by fastforce
  ultimately show ?thesis by simp
qed

end

section \<open>Creation makes one restore per backup\<close>

text \<open>The claims for which a backup is available, in status order; entries that stand for the failure of a whole
  backup do not count.\<close>

definition availableClaims :: "pvc_restore_info list \<Rightarrow> string \<Rightarrow> string list" where
  "availableClaims ps b = concat (map (\<lambda>p. map (\<lambda>r. pr_uid p)
     (filter (\<lambda>r. ri_backupName r = b \<and> ri_state r = StateAvailable) (pr_restores p)))
     (filter (\<lambda>p. PVCName (pr_pvc p) \<noteq> BackupLevelFailurePVCName) ps))"

lemma set_backups: "(b, us) \<in> set (backupToPVCUIDs ps) \<longleftrightarrow> us = availableClaims ps b \<and> us \<noteq> []"
  by (simp add: set_backupToPVCUIDs uidsOf_availablePairs availableClaims_def)

text \<open>What the server keeps of a restore it is asked to create.\<close>

definition createdAs :: "velero_restore \<Rightarrow> velero_restore \<Rightarrow> bool" where
  "createdAs r c \<longleftrightarrow> vr_backupName c = vr_backupName r \<and> vr_pvcUIDs c = vr_pvcUIDs r
     \<and> vr_includedNamespaces c = vr_includedNamespaces r \<and> vr_namespaceMapping c = vr_namespaceMapping r
     \<and> om_labels (vr_meta c) = om_labels (vr_meta r) \<and> om_namespace (vr_meta c) = om_namespace (vr_meta r)"

text \<open>A restore found in place of a new one: the server refused to create one for the backup because it exists, and
  lists this one for the file restore and the backup.\<close>

definition foundFor :: "'w vmfr_env \<Rightarrow> vmfr \<Rightarrow> string \<Rightarrow> velero_restore \<Rightarrow> bool" where
  "foundFor E v b c \<longleftrightarrow> (\<exists>r w e w1 rs w2. vr_backupName r = b \<and> fe_createRestore E r w = (Inl e, w1) \<and> IsAlreadyExists e
     \<and> fe_listRestores E (fe_oadpNamespace E) (ownedBy v) w1 = (Inr rs, w2) \<and> c \<in> set rs
     \<and> annotation (vr_meta c) BackupNameAnnotation = b)"

text \<open>The status names the restore for every claim for which the backup is available.\<close>

definition recordedAs :: "string \<Rightarrow> pvc_restore_info list \<Rightarrow> string \<Rightarrow> string \<Rightarrow> bool" where
  "recordedAs oadp ps b n \<longleftrightarrow> (\<forall>p\<in>set ps. PVCName (pr_pvc p) \<noteq> BackupLevelFailurePVCName \<longrightarrow>
     (\<forall>i\<in>set (pr_restores p). ri_backupName i = b \<and> ri_state i = StateAvailable \<longrightarrow>
        ri_restoreName i = n \<and> ri_restoreNamespace i = oadp))"

lemma recorded: "map_of names b = Some n \<Longrightarrow> recordedAs oadp (onRealRestores (nameRestore oadp names) ps) b n"
  by (auto simp: recordedAs_def onRealRestores_def isSynthetic_def nameRestore_def split: if_splits option.splits)

text \<open>\<open>made w\<close> are the restores created so far, in order.\<close>

locale restore_server = named_restores E for E :: "'w vmfr_env" +
  fixes made :: "'w \<Rightarrow> velero_restore list"
  assumes made_create: "fe_createRestore E r w = (Inr c, w1) \<Longrightarrow> made w1 = made w @ [c] \<and> createdAs r c"
    and made_refused: "fe_createRestore E r w = (Inl e, w1) \<Longrightarrow> made w1 = made w"
    and made_other: "fe_listRestores E ns ls w = (rl, w1) \<Longrightarrow> made w1 = made w"
      "fe_getDiscovery E key w = (rd, w1) \<Longrightarrow> made w1 = made w"
      "fe_patchStatus E v m w = (rv, w1) \<Longrightarrow> made w1 = made w"
    and patch_keeps: "fe_patchStatus E v m w = (Inr a, w1) \<Longrightarrow> fs_pvcRestores (vmfr_status a) = fs_pvcRestores (vmfr_status m)"
    and order_keeps: "mset (fe_uidOrder E bus) = mset bus"
begin

lemma createOne_made:
  assumes "createOne E v sp ns (b, us) names w = (res, w1)"
  shows "\<exists>rs. made w1 = made w @ rs \<and> length rs \<le> 1 \<and> (\<forall>r\<in>set rs. createdAs (restoreObject E v sp ns b us) r)
    \<and> (\<forall>names1. res = Inr names1 \<longrightarrow> (\<exists>c. names1 = AList.update b (vr_name c) names \<and> (c \<in> set rs \<or> foundFor E v b c)))"
proof -
  let ?obj = "restoreObject E v sp ns b us"
  obtain cr wc where c: "fe_createRestore E ?obj w = (cr, wc)" by fastforce
  show ?thesis
  proof (cases cr)
    case (Inr r)
    then show ?thesis using assms c made_create [OF c [unfolded Inr]] by (intro exI [of _ "[r]"]) (auto simp: createOne_def)
  next
    case (Inl e)
    obtain ls wl where l: "fe_listRestores E (fe_oadpNamespace E) (ownedBy v) wc = (ls, wl)" by fastforce
    note same = made_refused [OF c [unfolded Inl]] made_other(1) [OF l]
    have backup: "vr_backupName ?obj = b" by (simp add: restoreObject_def)
    have found: "foundFor E v b q" if "IsAlreadyExists e" "ls = Inr rs" "find (\<lambda>r. annotation (vr_meta r) BackupNameAnnotation = b) rs = Some q" for rs q
    proof -
      have "q \<in> set rs \<and> annotation (vr_meta q) BackupNameAnnotation = b" using find_Some_in [OF that(3)] by blast
      then show ?thesis unfolding foundFor_def using c l Inl that(1,2) backup by blast
    qed
    show ?thesis
      using assms c Inl same l found
      by (intro exI [of _ "[]"])
         (auto simp: createOne_def Let_def findExistingVeleroRestore_def split: if_splits sum.splits option.splits)
  qed
qed

lemma createAll_made:
  assumes "foldR (createOne E v sp ns) bus names w = (res, w1)" and "distinct (map fst bus)"
  shows "\<exists>rs. made w1 = made w @ rs \<and> distinct (map vr_backupName rs)
    \<and> (\<forall>r\<in>set rs. \<exists>b us. (b, us) \<in> set bus \<and> createdAs (restoreObject E v sp ns b us) r)
    \<and> (\<forall>names1. res = Inr names1 \<longrightarrow> (\<forall>b\<in>fst ` set bus. \<exists>c. map_of names1 b = Some (vr_name c) \<and>
          (c \<in> set rs \<and> vr_backupName c = b \<or> foundFor E v b c)) \<and> (\<forall>b. b \<notin> fst ` set bus \<longrightarrow> map_of names1 b = map_of names b))"
  using assms
proof (induction bus arbitrary: names w)
  case Nil
  then show ?case by auto
next
  case (Cons bu bus)
  obtain b us where bu: "bu = (b, us)" by fastforce
  obtain r1 wa where one: "createOne E v sp ns (b, us) names w = (r1, wa)" by fastforce
  obtain qs where q: "made wa = made w @ qs" "length qs \<le> 1" "\<forall>r\<in>set qs. createdAs (restoreObject E v sp ns b us) r"
    "\<forall>names1. r1 = Inr names1 \<longrightarrow> (\<exists>c. names1 = AList.update b (vr_name c) names \<and> (c \<in> set qs \<or> foundFor E v b c))"
    using createOne_made [OF one] by blast
  have named: "createdAs (restoreObject E v sp ns x us) r \<Longrightarrow> vr_backupName r = x" for x us r
    by (simp add: createdAs_def restoreObject_def)
  have dq: "distinct (map vr_backupName qs)" using q(2) by (cases qs) auto
  show ?case
  proof (cases r1)
    case (Inl e)
    then have "res = Inl e" "w1 = wa" using Cons.prems(1) bu one by simp_all
    then show ?thesis using q(1,3) dq bu by (intro exI [of _ qs]) auto
  next
    case (Inr names2)
    then obtain c where c: "names2 = AList.update b (vr_name c) names" "c \<in> set qs \<or> foundFor E v b c" using q(4) by blast
    have rest: "foldR (createOne E v sp ns) bus names2 wa = (res, w1)" using Cons.prems(1) bu one Inr by simp
    obtain rs where rs: "made w1 = made wa @ rs" "distinct (map vr_backupName rs)"
      "\<forall>r\<in>set rs. \<exists>x us. (x, us) \<in> set bus \<and> createdAs (restoreObject E v sp ns x us) r"
      "\<forall>names1. res = Inr names1 \<longrightarrow> (\<forall>x\<in>fst ` set bus. \<exists>c. map_of names1 x = Some (vr_name c) \<and>
          (c \<in> set rs \<and> vr_backupName c = x \<or> foundFor E v x c)) \<and> (\<forall>x. x \<notin> fst ` set bus \<longrightarrow> map_of names1 x = map_of names2 x)"
      using Cons.IH [OF rest] Cons.prems(2) by auto
    have apart: "b \<notin> fst ` set bus" using Cons.prems(2) bu by simp
    have "vr_backupName r \<noteq> b" if "r \<in> set rs" for r
      using rs(3) that named apart by (metis fst_conv image_eqI)
    moreover have mine: "vr_backupName r = b" if "r \<in> set qs" for r using q(3) that named by blast
    ultimately have apart_names: "distinct (map vr_backupName (qs @ rs))" using dq rs(2) by auto
    have n2: "map_of names2 b = Some (vr_name c)" "x \<noteq> b \<Longrightarrow> map_of names2 x = map_of names x" for x
      using c(1) by (simp_all add: update_conv')
    have "made w1 = made w @ (qs @ rs)" using q(1) rs(1) by simp
    moreover have "\<exists>x us. (x, us) \<in> set (bu # bus) \<and> createdAs (restoreObject E v sp ns x us) r" if "r \<in> set (qs @ rs)" for r
      using that q(3) rs(3) unfolding bu set_append list.set by blast
    moreover have "(\<forall>x\<in>fst ` set (bu # bus). \<exists>c. map_of names1 x = Some (vr_name c) \<and>
          (c \<in> set (qs @ rs) \<and> vr_backupName c = x \<or> foundFor E v x c))
        \<and> (\<forall>x. x \<notin> fst ` set (bu # bus) \<longrightarrow> map_of names1 x = map_of names x)" if ok: "res = Inr names1" for names1
    proof -
      have tail: "\<forall>x\<in>fst ` set bus. \<exists>c. map_of names1 x = Some (vr_name c) \<and> (c \<in> set rs \<and> vr_backupName c = x \<or> foundFor E v x c)"
        "\<forall>x. x \<notin> fst ` set bus \<longrightarrow> map_of names1 x = map_of names2 x" using rs(4) ok by blast+
      have "map_of names1 b = Some (vr_name c)" using tail(2) apart n2(1) by simp
      moreover have "c \<in> set qs \<and> vr_backupName c = b \<or> foundFor E v b c" using c(2) mine by blast
      ultimately show ?thesis using tail n2(2) bu by auto
    qed
    ultimately show ?thesis using apart_names by (intro exI [of _ "qs @ rs"]) blast
  qed
qed

lemma created_per_backup:
  assumes "createVeleroRestores E v w = (res, w1)"
  shows "\<exists>rs. made w1 = made w @ rs \<and> distinct (map vr_backupName rs)
    \<and> (\<forall>r\<in>set rs. vr_pvcUIDs r = availableClaims (fs_pvcRestores (vmfr_status v)) (vr_backupName r) \<and> vr_pvcUIDs r \<noteq> []
        \<and> (\<exists>d wd. getDiscoveryResource E v w = (Inr d, wd) \<and> vr_includedNamespaces r = [VirtualMachineNamespace (vmbd_spec d)]
            \<and> vr_namespaceMapping r = [(VirtualMachineNamespace (vmbd_spec d), fs_createdNamespace (vmfr_status v))]))
    \<and> (\<forall>v1. res = Inr v1 \<longrightarrow> (\<forall>b. availableClaims (fs_pvcRestores (vmfr_status v)) b \<noteq> [] \<longrightarrow>
          (\<exists>c. recordedAs (fe_oadpNamespace E) (fs_pvcRestores (vmfr_status v1)) b (vr_name c)
             \<and> (c \<in> set rs \<and> vr_backupName c = b \<or> foundFor E v b c))))"
proof -
  let ?ps = "fs_pvcRestores (vmfr_status v)" and ?ns = "fs_createdNamespace (vmfr_status v)"
  let ?m = "backupToPVCUIDs ?ps"
  obtain dr wd where d: "getDiscoveryResource E v w = (dr, wd)" by fastforce
  have same: "made wd = made w" using d made_other(2) by (simp add: getDiscoveryResource_def)
  show ?thesis
  proof (cases "?ns = [] \<or> isl dr \<or> ?m = []")
    case True
    have "\<exists>e. createVeleroRestores E v w = (Inl e, w) \<or> createVeleroRestores E v w = (Inl e, wd)"
    proof (cases "?ns = []")
      case False
      then show ?thesis using True d by (cases dr) (auto simp: createVeleroRestores_def Let_def)
    qed (auto simp: createVeleroRestores_def)
    then obtain e where "res = Inl e" "w1 = w \<or> w1 = wd" using assms by auto
    then show ?thesis using same by (intro exI [of _ "[]"]) auto
  next
    case False
    then obtain dd where dd: "dr = Inr dd" by (cases dr) auto
    obtain nr w2 where f: "foldR (createOne E v (vmbd_spec dd) ?ns) (fe_uidOrder E ?m) [] wd = (nr, w2)" by fastforce
    have "mset (map fst (fe_uidOrder E ?m)) = mset (map fst ?m)" by (simp add: order_keeps)
    moreover have "distinct (map fst ?m)" unfolding backupToPVCUIDs_def by (rule distinct_foldl_addUID)
    ultimately have keys: "distinct (map fst (fe_uidOrder E ?m))" using mset_eq_imp_distinct_iff by blast
    have same_set: "set (fe_uidOrder E ?m) = set ?m" by (rule mset_eq_setD [OF order_keeps])
    obtain rs where rs: "made w2 = made wd @ rs" "distinct (map vr_backupName rs)"
      "\<forall>r\<in>set rs. \<exists>b us. (b, us) \<in> set ?m \<and> createdAs (restoreObject E v (vmbd_spec dd) ?ns b us) r"
      "\<forall>names1. nr = Inr names1 \<longrightarrow> (\<forall>b\<in>fst ` set ?m. \<exists>c. map_of names1 b = Some (vr_name c) \<and>
          (c \<in> set rs \<and> vr_backupName c = b \<or> foundFor E v b c))"
      using createAll_made [OF f keys] unfolding same_set by blast
    let ?named = "\<lambda>names. v \<lparr>vmfr_status := (vmfr_status v) \<lparr>fs_pvcRestores :=
        onRealRestores (nameRestore (fe_oadpNamespace E) names) ?ps\<rparr>\<rparr>"
    have unnamed: "res = Inl e \<and> w1 = w2" if "nr = Inl e" for e
      using assms d dd False f that by (simp add: createVeleroRestores_def Let_def)
    have named: "\<exists>pr. fe_patchStatus E v (?named names) w2 = (pr, w1) \<and> (\<forall>v1. res = Inr v1 \<longrightarrow> pr = Inr v1)" if "nr = Inr names" for names
      using assms d dd False f that by (auto simp: createVeleroRestores_def Let_def split: sum.splits prod.splits)
    have "made w1 = made w2"
    proof (cases nr)
      case (Inr names)
      then obtain pr where "fe_patchStatus E v (?named names) w2 = (pr, w1)" using named by blast
      then show ?thesis by (rule made_other(3))
    qed (use unnamed in blast)
    then have made: "made w1 = made w @ rs" using rs(1) same by simp
    have each: "vr_pvcUIDs r = availableClaims ?ps (vr_backupName r) \<and> vr_pvcUIDs r \<noteq> []
        \<and> vr_includedNamespaces r = [VirtualMachineNamespace (vmbd_spec dd)]
        \<and> vr_namespaceMapping r = [(VirtualMachineNamespace (vmbd_spec dd), ?ns)]" if r: "r \<in> set rs" for r
    proof -
      obtain b us where "(b, us) \<in> set ?m" "createdAs (restoreObject E v (vmbd_spec dd) ?ns b us) r"
        using rs(3) r by blast
      then have "us = availableClaims ?ps b" "us \<noteq> []" "vr_backupName r = b" "vr_pvcUIDs r = us"
        "vr_includedNamespaces r = [VirtualMachineNamespace (vmbd_spec dd)]"
        "vr_namespaceMapping r = [(VirtualMachineNamespace (vmbd_spec dd), ?ns)]"
        unfolding set_backups createdAs_def restoreObject_def by auto
      then show ?thesis by simp
    qed
    have "\<exists>c. recordedAs (fe_oadpNamespace E) (fs_pvcRestores (vmfr_status v1)) b (vr_name c)
        \<and> (c \<in> set rs \<and> vr_backupName c = b \<or> foundFor E v b c)" if v1: "res = Inr v1" and b: "availableClaims ?ps b \<noteq> []" for v1 b
    proof -
      obtain names where n: "nr = Inr names" using unnamed v1 by (cases nr) auto
      then have "fe_patchStatus E v (?named names) w2 = (Inr v1, w1)" using named v1 by auto
      then have "fs_pvcRestores (vmfr_status v1) = onRealRestores (nameRestore (fe_oadpNamespace E) names) ?ps"
        using patch_keeps by fastforce
      moreover have "b \<in> fst ` set ?m" using b set_backups [of b] by force
      ultimately show ?thesis using rs(4) n recorded by metis
    qed
    then show ?thesis using made rs(2) each d [unfolded dd] by (intro exI [of _ rs]) blast
  qed
qed

end

section \<open>What following the restores reports\<close>

lemma onReal_comp: "onRealRestores g (onRealRestores f ps) = onRealRestores (g \<circ> f) ps"
  by (auto simp: onRealRestores_def isSynthetic_def)

lemma onReal_id: "(\<And>p i. p \<in> set ps \<Longrightarrow> \<not> isSynthetic p \<Longrightarrow> i \<in> set (pr_restores p) \<Longrightarrow> f i = i) \<Longrightarrow> onRealRestores f ps = ps"
proof -
  assume *: "\<And>p i. p \<in> set ps \<Longrightarrow> \<not> isSynthetic p \<Longrightarrow> i \<in> set (pr_restores p) \<Longrightarrow> f i = i"
  have "map f (pr_restores p) = pr_restores p" if "p \<in> set ps" "\<not> isSynthetic p" for p
    using * that by (intro map_idI) auto
  then show ?thesis unfolding onRealRestores_def by (intro map_idI) auto
qed

definition followAll :: "string \<Rightarrow> velero_restore list \<Rightarrow> restore_info \<Rightarrow> restore_info" where
  "followAll oadp rs i = foldl (\<lambda>i r. updateInfo oadp r i) i rs"

lemma monitor_snoc: "monitorAll oadp (rs @ [r]) ps = monitorOne oadp (monitorAll oadp rs ps) r"
  by (simp add: monitorAll_def)

lemma monitor_counts:
  "mo_completed (monitorAll oadp rs ps) = length (filter (\<lambda>r. classifyPhase (vr_phase r) = RCompleted) rs)
   \<and> mo_failed (monitorAll oadp rs ps) = length (filter (\<lambda>r. classifyPhase (vr_phase r) = RFailed) rs)
   \<and> mo_inProgress (monitorAll oadp rs ps) = length (filter (\<lambda>r. classifyPhase (vr_phase r) = RInProgress) rs)"
proof (induction rs rule: rev_induct)
  case Nil
  then show ?case by (simp add: monitorAll_def)
next
  case (snoc r rs)
  then show ?case unfolding monitor_snoc by (cases "classifyPhase (vr_phase r)") (simp_all add: monitorOne_def)
qed

lemma monitor_pvcs: "mo_pvcs (monitorAll oadp rs ps) = onRealRestores (followAll oadp rs) ps"
proof (induction rs rule: rev_induct)
  case Nil
  then show ?case by (simp add: monitorAll_def followAll_def onReal_id)
next
  case (snoc r rs)
  have "mo_pvcs (monitorAll oadp (rs @ [r]) ps) = onRealRestores (updateInfo oadp r) (mo_pvcs (monitorAll oadp rs ps))"
    unfolding monitor_snoc by (cases "classifyPhase (vr_phase r)") (simp_all add: monitorOne_def)
  then show ?case using snoc by (simp add: onReal_comp followAll_def o_def)
qed

lemma no_change_update: "\<not> infoChanges r i \<Longrightarrow> updateInfo oadp r i = i"
  by (auto simp: infoChanges_def updateInfo_def)

lemma followed_stable:
  assumes "distinct (map vr_name rs)" and "\<forall>r\<in>set rs. vr_name r \<noteq> []"
  shows "\<forall>q\<in>set rs. \<not> infoChanges q (followAll oadp rs i)"
  using assms
proof (induction rs rule: rev_induct)
  case Nil
  then show ?case by simp
next
  case (snoc r rs)
  let ?x = "followAll oadp rs i"
  have step: "followAll oadp (rs @ [r]) i = updateInfo oadp r ?x" by (simp add: followAll_def)
  show ?case
  proof (cases "matchesRestore r ?x")
    case False
    then show ?thesis using snoc unfolding step by (auto simp: updateInfo_def infoChanges_def)
  next
    case True
    then have name: "ri_restoreName (updateInfo oadp r ?x) = vr_name r"
      "ri_phase (updateInfo oadp r ?x) = normalizePhase (vr_phase r)"
      by (auto simp: updateInfo_def matchesRestore_def)
    then show ?thesis
      using snoc.prems unfolding step by (auto simp: infoChanges_def matchesRestore_def)
  qed
qed

lemma monitor_unchanged:
  assumes "\<forall>r\<in>set rs. \<forall>p\<in>set ps. \<not> isSynthetic p \<longrightarrow> (\<forall>i\<in>set (pr_restores p). \<not> infoChanges r i)"
  shows "mo_pvcs (monitorAll oadp rs ps) = ps \<and> \<not> mo_updated (monitorAll oadp rs ps)"
  using assms
proof (induction rs rule: rev_induct)
  case Nil
  then show ?case by (simp add: monitorAll_def)
next
  case (snoc r rs)
  let ?m = "monitorAll oadp rs ps"
  have IH: "mo_pvcs ?m = ps" "\<not> mo_updated ?m" using snoc by auto
  have r: "\<not> isSynthetic p \<Longrightarrow> i \<in> set (pr_restores p) \<Longrightarrow> \<not> infoChanges r i" if "p \<in> set ps" for p i
    using snoc.prems that by auto
  have "onRealRestores (updateInfo oadp r) ps = ps" by (rule onReal_id) (auto intro: no_change_update dest: r)
  moreover have "\<not> list_ex (\<lambda>p. \<not> isSynthetic p \<and> list_ex (infoChanges r) (pr_restores p)) ps"
    using r by (auto simp: list_ex_iff)
  ultimately show ?case
    using IH unfolding monitor_snoc by (cases "classifyPhase (vr_phase r)") (simp_all add: monitorOne_def)
qed

lemma monitor_idempotent_core:
  assumes "distinct (map vr_name rs)" and "\<forall>r\<in>set rs. vr_name r \<noteq> []"
  shows "mo_pvcs (monitorAll oadp rs (mo_pvcs (monitorAll oadp rs ps))) = mo_pvcs (monitorAll oadp rs ps)
    \<and> \<not> mo_updated (monitorAll oadp rs (mo_pvcs (monitorAll oadp rs ps)))"
proof (rule monitor_unchanged, intro ballI impI)
  fix r q i
  assume r: "r \<in> set rs" and q: "q \<in> set (mo_pvcs (monitorAll oadp rs ps))" "\<not> isSynthetic q" and i: "i \<in> set (pr_restores q)"
  have "q \<in> (\<lambda>p. if isSynthetic p then p else p \<lparr>pr_restores := map (followAll oadp rs) (pr_restores p)\<rparr>) ` set ps"
    using q(1) by (simp add: monitor_pvcs onRealRestores_def)
  then obtain p where p: "q = (if isSynthetic p then p else p \<lparr>pr_restores := map (followAll oadp rs) (pr_restores p)\<rparr>)"
    by (rule imageE)
  then have "\<not> isSynthetic p" using q(2) by (auto split: if_splits)
  then obtain i0 where "i = followAll oadp rs i0" using i p by auto
  then show "\<not> infoChanges r i" using followed_stable [OF assms] r by blast
qed

section \<open>A reference server\<close>

text \<open>A server with one file restore, one discovery object and a list of Velero restores, which names a new
  restore after its prefix and the number of restores it holds.\<close>

record ref_cluster =
  rc_vmfr :: "vmfr option"
  rc_discovery :: "vmbd option"
  rc_restores :: "velero_restore list"
  rc_clock :: time

definition absent :: go_error where
  "absent = \<lparr>err_msg = ''not found'', err_reason = ReasonNotFound\<rparr>"

definition rc_create :: "velero_restore \<Rightarrow> (ref_cluster, velero_restore) io" where
  "rc_create r w = (let c = r \<lparr>vr_meta := (vr_meta r)
        \<lparr>om_name := om_generateName (vr_meta r) @ decimal (length (rc_restores w))\<rparr>\<rparr>
     in (Inr c, w \<lparr>rc_restores := rc_restores w @ [c]\<rparr>))"

definition rc_list :: "string \<Rightarrow> strmap \<Rightarrow> (ref_cluster, velero_restore list) io" where
  "rc_list ns ls w = (Inr (filter (\<lambda>r. om_namespace (vr_meta r) = ns \<and> vr_name r \<noteq> [] \<and>
     list_all (\<lambda>(k, x). map_of (om_labels (vr_meta r)) k = Some x) ls) (rc_restores w)), w)"

definition rc_store :: "vmfr \<Rightarrow> vmfr \<Rightarrow> (ref_cluster, vmfr) io" where
  "rc_store base v w = (Inr v, w \<lparr>rc_vmfr := Some v\<rparr>)"

definition ref_vmfr_env :: "string \<Rightarrow> ref_cluster vmfr_env" where
  "ref_vmfr_env ns = \<lparr>fe_oadpNamespace = ns,
     fe_get = (\<lambda>k w. (case rc_vmfr w of None \<Rightarrow> (Inl absent, w) | Some v \<Rightarrow> (Inr v, w))),
     fe_getDiscovery = (\<lambda>k w. (case rc_discovery w of None \<Rightarrow> (Inl absent, w) | Some d \<Rightarrow> (Inr d, w))),
     fe_patchStatus = rc_store, fe_updateStatus = (\<lambda>v. rc_store v v), fe_patch = rc_store,
     fe_listRestores = rc_list, fe_createRestore = rc_create,
     fe_setCondition = ref_set_condition, fe_findCondition = ref_find_condition,
     fe_addFinalizer = (\<lambda>fs f. if f \<in> set fs then fs else fs @ [f]), fe_uidOrder = rev,
     fe_pvc = \<lparr>pe_getBackup = (\<lambda>k w. (Inl absent, w)), pe_reader = None,
       pe_now = (\<lambda>w. (rc_clock w, w \<lparr>rc_clock := rc_clock w + 1\<rparr>)), pe_formatSize = (\<lambda>n. decimal (nat n)),
       pe_nameOrder = rev, pe_finishOrder = rev, pe_mapOrder = rev\<rparr>\<rparr>"

interpretation refvelero: named_restores "ref_vmfr_env ns" for ns
proof
  fix r w c w1
  assume "fe_createRestore (ref_vmfr_env ns) r w = (Inr c, w1)"
  then have "vr_name c = om_generateName (vr_meta r) @ decimal (length (rc_restores w))"
    by (auto simp: ref_vmfr_env_def rc_create_def Let_def)
  then show "vr_name c \<noteq> []" using decimal_hd [of "length (rc_restores w)"] by auto
next
  fix nss ls w rs w1 c
  assume "fe_listRestores (ref_vmfr_env ns) nss ls w = (Inr rs, w1)" and "c \<in> set rs"
  then show "vr_name c \<noteq> []" by (auto simp: ref_vmfr_env_def rc_list_def)
qed

interpretation refserver: restore_server "ref_vmfr_env ns" rc_restores for ns
  by unfold_locales
     (auto simp: ref_vmfr_env_def rc_create_def rc_list_def rc_store_def Let_def createdAs_def split: option.splits)

section \<open>Properties\<close>

text \<open>C14. Creating the Velero restores makes the idempotency check of the next reconciliation succeed: when
  creation returns without an error, every available restore in the status has a restore name, whatever the
  order in which the backups are processed. It relies on the server giving its objects names and on the
  patch storing the claims it was given.\<close>

theorem restores_created_once:
  assumes "named_restores E" and "createVeleroRestores E v w = (Inr v1, w1)"
    and "mset (fe_uidOrder E (backupToPVCUIDs (fs_pvcRestores (vmfr_status v))))
      = mset (backupToPVCUIDs (fs_pvcRestores (vmfr_status v)))"
    and "\<forall>m w w2 a. fe_patchStatus E v m w = (Inr a, w2) \<longrightarrow> fs_pvcRestores (vmfr_status a) = fs_pvcRestores (vmfr_status m)"
  shows "checkVeleroRestoresAlreadyCreated (fs_pvcRestores (vmfr_status v1))"
  by (rule named_restores.create_then_created [OF assms])

text \<open>Following the restores counts each listed restore in exactly one of completed, failed and in progress.\<close>

theorem monitor_counts_partition:
  "mo_completed (monitorAll oadp rs ps) + mo_failed (monitorAll oadp rs ps) + mo_inProgress (monitorAll oadp rs ps) = length rs
   \<and> mo_completed (monitorAll oadp rs ps) = length (filter (\<lambda>r. classifyPhase (vr_phase r) = RCompleted) rs)
   \<and> mo_failed (monitorAll oadp rs ps) = length (filter (\<lambda>r. classifyPhase (vr_phase r) = RFailed) rs)"
proof -
  have "length (filter (\<lambda>r. classifyPhase (vr_phase r) = RCompleted) rs) + length (filter (\<lambda>r. classifyPhase (vr_phase r) = RFailed) rs)
      + length (filter (\<lambda>r. classifyPhase (vr_phase r) = RInProgress) rs) = length rs"
  proof (induction rs)
    case (Cons r rs)
    then show ?case by (cases "classifyPhase (vr_phase r)") simp_all
  qed simp
  then show ?thesis using monitor_counts [of oadp rs ps] by simp
qed

text \<open>Following the restores is idempotent: a second pass over the same list of restores, whose names are
  non-empty and pairwise different, changes nothing in the status and reports no update, so a reconciliation
  loop does not write the status again.\<close>

theorem monitor_idempotent:
  assumes "distinct (map vr_name rs)" and "\<forall>r\<in>set rs. vr_name r \<noteq> []"
  shows "mo_pvcs (monitorAll oadp rs (mo_pvcs (monitorAll oadp rs ps))) = mo_pvcs (monitorAll oadp rs ps)
    \<and> \<not> mo_updated (monitorAll oadp rs (mo_pvcs (monitorAll oadp rs ps)))"
  by (rule monitor_idempotent_core [OF assms])

definition demo_restore :: "string \<Rightarrow> string \<Rightarrow> velero_restore" where
  "demo_restore n ph = \<lparr>vr_meta = empty_meta \<lparr>om_name := n, om_annotations := [(BackupNameAnnotation, ''b1'')]\<rparr>,
     vr_backupName = ''b1'', vr_pvcUIDs = [], vr_includedNamespaces = [], vr_namespaceMapping = [],
     vr_includedResources = [], vr_phase = ph\<rparr>"

definition demo_pvcs :: "pvc_restore_info list" where
  "demo_pvcs = [\<lparr>pr_pvc = \<lparr>PVCUID = ''u'', PVCName = ''disk'', PVCNamespace = ''vms'', PVCSize = ''5Gi''\<rparr>,
     pr_restores = [empty_restore_info \<lparr>ri_backupName := ''b1'', ri_state := StateAvailable\<rparr>]\<rparr>]"

theorem monitor_idempotent_witness:
  "\<not> mo_updated (monitorAll ''adp'' [demo_restore ''r1'' ''Finalizing'', demo_restore ''r2'' ''New'']
     (mo_pvcs (monitorAll ''adp'' [demo_restore ''r1'' ''Finalizing'', demo_restore ''r2'' ''New''] demo_pvcs)))"
  by (rule monitor_idempotent [THEN conjunct2]) (simp_all add: demo_restore_def)

definition demo_vmfr :: vmfr where
  "demo_vmfr = \<lparr>vmfr_apiVersion = ''oadp.openshift.io/v1alpha1'', vmfr_kind = ''VirtualMachineFileRestore'',
     vmfr_meta = empty_meta \<lparr>om_name := ''fr'', om_namespace := ''adp'', om_uid := ''1a2b''\<rparr>,
     vmfr_spec = \<lparr>BackupsDiscoveryRef = ''d'', SelectedBackups = [], RestoreNamespace = [], NamespacePrefix = [], FileAccess = None\<rparr>,
     vmfr_status = \<lparr>fs_phase = VMFRPhaseInProgress, fs_observedGeneration = 1, fs_conditions = [], fs_fileServingInfo = None,
       fs_pvcRestores = demo_pvcs, fs_createdNamespace = ''tmp''\<rparr>\<rparr>"

definition demo_cluster :: ref_cluster where
  "demo_cluster = \<lparr>rc_vmfr = Some demo_vmfr,
     rc_discovery = Some \<lparr>vmbd_meta = empty_meta, vmbd_spec = \<lparr>VirtualMachineName = ''vm'', VirtualMachineNamespace = ''vms'',
        StartTime = None, EndTime = None, RequestedBackups = []\<rparr>, vmbd_status = empty_status\<rparr>,
     rc_restores = [], rc_clock = 0\<rparr>"

lemma demo_pairs: "availablePairs demo_pvcs = [(''b1'', ''u'')]"
  by (simp add: availablePairs_def demo_pvcs_def isSynthetic_def BackupLevelFailurePVCName_def empty_restore_info_def)

lemma demo_create_runs:
  "\<exists>v1 w1. createVeleroRestores (ref_vmfr_env ''adp'') demo_vmfr demo_cluster = (Inr v1, w1)"
proof -
  have "backupToPVCUIDs (fs_pvcRestores (vmfr_status demo_vmfr)) = [(''b1'', [''u''])]"
    by (simp add: demo_vmfr_def backupToPVCUIDs_def demo_pairs addUID_def)
  then show ?thesis
    by (simp add: createVeleroRestores_def getDiscoveryResource_def Let_def)
       (simp add: ref_vmfr_env_def demo_vmfr_def demo_cluster_def rc_store_def createOne_def rc_create_def Let_def bindR_def)
qed

text \<open>C13. One call of the creation gives every backup one restore, for exactly the claims for which it is available. However the creation of
  the Velero restores ends, no two of the restores it made are for the same backup, and each selects exactly
  the claims for which its backup is available, in status order and at least one, in the namespace of the virtual machine, mapped
  to the restore namespace. When it succeeds, every backup that is available for a claim has its restore recorded in
  the status of those claims: one of those made, or, when the server answered that one exists already, one it lists for
  that backup. Entries that stand for the failure of a whole backup select nothing.\<close>

theorem restore_selects_claims:
  assumes "restore_server E made" and "createVeleroRestores E v w = (res, w1)"
  shows "\<exists>rs. made w1 = made w @ rs \<and> distinct (map vr_backupName rs)
    \<and> (\<forall>r\<in>set rs. vr_pvcUIDs r = availableClaims (fs_pvcRestores (vmfr_status v)) (vr_backupName r) \<and> vr_pvcUIDs r \<noteq> []
        \<and> (\<exists>d wd. getDiscoveryResource E v w = (Inr d, wd) \<and> vr_includedNamespaces r = [VirtualMachineNamespace (vmbd_spec d)]
            \<and> vr_namespaceMapping r = [(VirtualMachineNamespace (vmbd_spec d), fs_createdNamespace (vmfr_status v))]))
    \<and> (\<forall>v1. res = Inr v1 \<longrightarrow> (\<forall>b. availableClaims (fs_pvcRestores (vmfr_status v)) b \<noteq> [] \<longrightarrow>
          (\<exists>c. recordedAs (fe_oadpNamespace E) (fs_pvcRestores (vmfr_status v1)) b (vr_name c)
             \<and> (c \<in> set rs \<and> vr_backupName c = b \<or> foundFor E v b c))))"
  by (rule restore_server.created_per_backup [OF assms])

lemma demo_claims: "availableClaims demo_pvcs ''b1'' = [''u'']"
  by (simp add: availableClaims_def demo_pvcs_def BackupLevelFailurePVCName_def empty_restore_info_def)

theorem restore_selects_claims_witness:
  "\<exists>v1 w1. createVeleroRestores (ref_vmfr_env ''adp'') demo_vmfr demo_cluster = (Inr v1, w1)
     \<and> (\<exists>rs. rc_restores w1 = rs \<and> distinct (map vr_backupName rs)
         \<and> (\<exists>c\<in>set rs. recordedAs ''adp'' (fs_pvcRestores (vmfr_status v1)) ''b1'' (vr_name c) \<and> vr_pvcUIDs c = [''u'']))"
proof -
  obtain v1 w1 where r: "createVeleroRestores (ref_vmfr_env ''adp'') demo_vmfr demo_cluster = (Inr v1, w1)"
    using demo_create_runs by blast
  have none: "\<not> foundFor (ref_vmfr_env ''adp'') demo_vmfr b c" for b c
    by (simp add: foundFor_def ref_vmfr_env_def rc_create_def Let_def)
  have ps: "fs_pvcRestores (vmfr_status demo_vmfr) = demo_pvcs" "rc_restores demo_cluster = []"
    "fe_oadpNamespace (ref_vmfr_env ''adp'') = ''adp''" by (simp_all add: demo_vmfr_def demo_cluster_def ref_vmfr_env_def)
  have b1: "availableClaims demo_pvcs ''b1'' \<noteq> []" by (simp add: demo_claims)
  obtain rs where rs: "rc_restores w1 = rs" "distinct (map vr_backupName rs)"
    and each: "\<forall>r\<in>set rs. vr_pvcUIDs r = availableClaims demo_pvcs (vr_backupName r)"
    and all: "\<forall>b. availableClaims demo_pvcs b \<noteq> [] \<longrightarrow> (\<exists>c. recordedAs ''adp'' (fs_pvcRestores (vmfr_status v1)) b (vr_name c)
        \<and> (c \<in> set rs \<and> vr_backupName c = b))"
    using restore_selects_claims [OF refserver.restore_server_axioms r] none unfolding ps by auto
  obtain c where "recordedAs ''adp'' (fs_pvcRestores (vmfr_status v1)) ''b1'' (vr_name c)" "c \<in> set rs" "vr_backupName c = ''b1''"
    using all b1 by blast
  moreover from this have "vr_pvcUIDs c = [''u'']" using each by (simp add: demo_claims)
  ultimately show ?thesis using r rs by blast
qed

theorem restores_created_once_witness:
  "\<exists>v1 w1. createVeleroRestores (ref_vmfr_env ''adp'') demo_vmfr demo_cluster = (Inr v1, w1)
     \<and> checkVeleroRestoresAlreadyCreated (fs_pvcRestores (vmfr_status v1))"
proof -
  obtain v1 w1 where r: "createVeleroRestores (ref_vmfr_env ''adp'') demo_vmfr demo_cluster = (Inr v1, w1)"
    using demo_create_runs by blast
  have "checkVeleroRestoresAlreadyCreated (fs_pvcRestores (vmfr_status v1))"
    by (rule restores_created_once [OF refvelero.named_restores_axioms r])
       (auto simp: ref_vmfr_env_def rc_store_def)
  then show ?thesis using r by blast
qed

end
