(* ===== verification/Watches.thy ===== *)
theory Watches
  imports Restore_Velero_Facts Discovery_Properties
begin

text \<open>
  The event filters of package \<open>predicate\<close>, the functions of the file restore controller that map a changed
  object to the file restores to reconcile, and the watches the two \<open>SetupWithManager\<close> methods build from them. An
  object is reduced to its kind and metadata, a Velero restore kept whole because its phase is read. Calling the
  filter of a watch and then its mapping function is the manager's part.
\<close>

section \<open>Objects and events\<close>

datatype client_object =
    RestoreObj velero_restore
  | ServiceObj object_meta
  | RouteObj object_meta
  | DiscoveryObj object_meta
  | FileRestoreObj object_meta
  | BackupObj object_meta

primrec objectMeta :: "client_object \<Rightarrow> object_meta" where
  "objectMeta (RestoreObj r) = vr_meta r"
| "objectMeta (ServiceObj m) = m"
| "objectMeta (RouteObj m) = m"
| "objectMeta (DiscoveryObj m) = m"
| "objectMeta (FileRestoreObj m) = m"
| "objectMeta (BackupObj m) = m"

datatype watch_event =
    CreateEvent client_object
  | UpdateEvent client_object client_object
  | DeleteEvent client_object
  | GenericEvent client_object

text \<open>The object an event is about: the new one of an update.\<close>

primrec eventObject :: "watch_event \<Rightarrow> client_object" where
  "eventObject (CreateEvent x) = x"
| "eventObject (UpdateEvent old new) = new"
| "eventObject (DeleteEvent x) = x"
| "eventObject (GenericEvent x) = x"

abbreviation inNamespace :: "string \<Rightarrow> client_object \<Rightarrow> bool" where
  "inNamespace ns x \<equiv> om_namespace (objectMeta x) = ns"

abbreviation labelled :: "client_object \<Rightarrow> bool" where
  "labelled x \<equiv> HasVMFRLabel (objectMeta x)"

section \<open>Event filters\<close>

primrec NamespacePredicate :: "string \<Rightarrow> watch_event \<Rightarrow> bool" where
  "NamespacePredicate ns (CreateEvent x) = inNamespace ns x"
| "NamespacePredicate ns (UpdateEvent old new) = inNamespace ns new"
| "NamespacePredicate ns (DeleteEvent x) = inNamespace ns x"
| "NamespacePredicate ns (GenericEvent x) = inNamespace ns x"

primrec RoutePredicate :: "watch_event \<Rightarrow> bool" where
  "RoutePredicate (CreateEvent x) = labelled x"
| "RoutePredicate (UpdateEvent old new) = labelled new"
| "RoutePredicate (DeleteEvent x) = labelled x"
| "RoutePredicate (GenericEvent x) = False"

primrec ServicePredicate :: "watch_event \<Rightarrow> bool" where
  "ServicePredicate (CreateEvent x) = labelled x"
| "ServicePredicate (UpdateEvent old new) = labelled new"
| "ServicePredicate (DeleteEvent x) = labelled x"
| "ServicePredicate (GenericEvent x) = False"

text \<open>The type assertions on both objects of an update and the comparison of their phases.\<close>

definition restorePhaseChanged :: "client_object \<Rightarrow> client_object \<Rightarrow> bool" where
  "restorePhaseChanged old new = (case (old, new) of
     (RestoreObj oldRestore, RestoreObj newRestore) \<Rightarrow> vr_phase oldRestore \<noteq> vr_phase newRestore
   | _ \<Rightarrow> False)"

primrec VeleroRestorePredicate :: "string \<Rightarrow> watch_event \<Rightarrow> bool" where
  "VeleroRestorePredicate ns (CreateEvent x) = False"
| "VeleroRestorePredicate ns (UpdateEvent old new) =
     (inNamespace ns new \<and> labelled new \<and> restorePhaseChanged old new)"
| "VeleroRestorePredicate ns (DeleteEvent x) = (inNamespace ns x \<and> labelled x)"
| "VeleroRestorePredicate ns (GenericEvent x) = False"

section \<open>Mapping functions\<close>

text \<open>The common tail of three mapping functions: label, annotations, namespace.\<close>

definition originRequest :: "string \<Rightarrow> object_meta \<Rightarrow> namespaced_name list" where
  "originRequest oadp m =
    (if map_of (om_labels m) VMFROriginUUIDLabel = None then []
     else case (map_of (om_annotations m) VMFROriginNameAnnotation, map_of (om_annotations m) VMFROriginNamespaceAnnotation) of
       (Some vmfrName, Some vmfrNamespace) \<Rightarrow>
         if vmfrNamespace \<noteq> oadp then [] else [\<lparr>nn_namespace = vmfrNamespace, nn_name = vmfrName\<rparr>]
     | _ \<Rightarrow> [])"

definition mapVeleroRestoreToVMFR :: "string \<Rightarrow> client_object \<Rightarrow> namespaced_name list" where
  "mapVeleroRestoreToVMFR oadp obj = (case obj of RestoreObj restore \<Rightarrow> originRequest oadp (vr_meta restore) | _ \<Rightarrow> [])"

definition mapServiceToVMFR :: "string \<Rightarrow> client_object \<Rightarrow> namespaced_name list" where
  "mapServiceToVMFR oadp obj = (case obj of ServiceObj service \<Rightarrow> originRequest oadp service | _ \<Rightarrow> [])"

definition mapRouteToVMFR :: "string \<Rightarrow> client_object \<Rightarrow> namespaced_name list" where
  "mapRouteToVMFR oadp obj = originRequest oadp (objectMeta obj)"

text \<open>The result of listing the file restores is an argument; an error gives no requests.\<close>

definition mapVMBDToVMFR :: "vmfr list result \<Rightarrow> client_object \<Rightarrow> namespaced_name list" where
  "mapVMBDToVMFR listed obj = (case listed of
     Inl _ \<Rightarrow> []
   | Inr vmfrs \<Rightarrow> map (\<lambda>v. key_of (vmfr_meta v))
       (filter (\<lambda>v. BackupsDiscoveryRef (vmfr_spec v) = om_name (objectMeta obj)
          \<and> om_namespace (vmfr_meta v) = om_namespace (objectMeta obj)) vmfrs))"

section \<open>Watches\<close>

datatype watched_kind = KindFileRestore | KindDiscovery | KindVeleroRestore | KindService | KindRoute | KindBackup

primrec kindOf :: "client_object \<Rightarrow> watched_kind" where
  "kindOf (RestoreObj r) = KindVeleroRestore"
| "kindOf (ServiceObj m) = KindService"
| "kindOf (RouteObj m) = KindRoute"
| "kindOf (DiscoveryObj m) = KindDiscovery"
| "kindOf (FileRestoreObj m) = KindFileRestore"
| "kindOf (BackupObj m) = KindBackup"

record watch =
  wt_kind :: watched_kind
  wt_filter :: "watch_event \<Rightarrow> bool"
  wt_map :: "client_object \<Rightarrow> namespaced_name list"

text \<open>The cluster has routes when they can be listed.\<close>

definition isOpenShiftCluster :: "unit result \<Rightarrow> bool" where
  "isOpenShiftCluster routes = (case routes of Inl err \<Rightarrow> False | Inr _ \<Rightarrow> True)"

text \<open>The watches \<open>SetupWithManager\<close> registers for file restores; \<open>openshift\<close> is the result of \<open>isOpenShiftCluster\<close>,
  \<open>listed\<close> that of listing the file restores. Events of file restores enqueue the object itself.\<close>

definition SetupWithManager :: "string \<Rightarrow> bool \<Rightarrow> vmfr list result \<Rightarrow> watch list" where
  "SetupWithManager oadp openshift listed =
     [\<lparr>wt_kind = KindFileRestore, wt_filter = NamespacePredicate oadp, wt_map = (\<lambda>x. [key_of (objectMeta x)])\<rparr>,
      \<lparr>wt_kind = KindDiscovery, wt_filter = NamespacePredicate oadp, wt_map = mapVMBDToVMFR listed\<rparr>,
      \<lparr>wt_kind = KindVeleroRestore, wt_filter = VeleroRestorePredicate oadp, wt_map = mapVeleroRestoreToVMFR oadp\<rparr>,
      \<lparr>wt_kind = KindService, wt_filter = ServicePredicate, wt_map = mapServiceToVMFR oadp\<rparr>]
     @ (if openshift then [\<lparr>wt_kind = KindRoute, wt_filter = RoutePredicate, wt_map = mapRouteToVMFR oadp\<rparr>] else [])"

text \<open>The watches of the discovery controller; the watch on backups has no filter, and its mapping function lists the
  discoveries in the world \<open>w\<close> of the event.\<close>

definition discoveryWatches :: "'w vmbd_env \<Rightarrow> 'w \<Rightarrow> watch list" where
  "discoveryWatches E w =
     [\<lparr>wt_kind = KindDiscovery, wt_filter = NamespacePredicate (OADPNamespace E), wt_map = (\<lambda>x. [key_of (objectMeta x)])\<rparr>,
      \<lparr>wt_kind = KindBackup, wt_filter = (\<lambda>ev. True), wt_map = (\<lambda>x. fst (mapBackupToVMBD E (objectMeta x) w))\<rparr>]"

section \<open>The contract of a watch on owned objects\<close>

lemma originRequest_iff:
  "k \<in> set (originRequest oadp m) \<longleftrightarrow> HasVMFRLabel m
     \<and> map_of (om_annotations m) VMFROriginNameAnnotation = Some (nn_name k)
     \<and> map_of (om_annotations m) VMFROriginNamespaceAnnotation = Some (nn_namespace k) \<and> nn_namespace k = oadp"
  by (cases k) (auto simp: originRequest_def HasVMFRLabel_def split: option.splits)

text \<open>
  A watch on objects the controller created: its filter accepts an event only for a labelled object, never
  misses the deletion of a labelled object in the OADP namespace, and its mapping function follows the
  origin annotations.
\<close>

locale owned_watch =
  fixes accepts :: "watch_event \<Rightarrow> bool" and mapObj :: "client_object \<Rightarrow> namespaced_name list"
    and kind :: watched_kind and oadp :: string
  assumes accepts_labelled: "accepts ev \<Longrightarrow> labelled (eventObject ev)"
    and delete_accepted: "labelled x \<Longrightarrow> inNamespace oadp x \<Longrightarrow> accepts (DeleteEvent x)"
    and map_origin: "kindOf x = kind \<Longrightarrow> mapObj x = originRequest oadp (objectMeta x)"
begin

lemma requests_in_oadp: "kindOf x = kind \<Longrightarrow> k \<in> set (mapObj x) \<Longrightarrow> nn_namespace k = oadp"
  by (simp add: map_origin originRequest_iff)

lemma deletion_reaches_origin:
  assumes "kindOf x = kind" and "inNamespace oadp x" and "originRequest oadp (objectMeta x) = [k]"
  shows "accepts (DeleteEvent x) \<and> mapObj x = [k]"
proof -
  have "k \<in> set (originRequest oadp (objectMeta x))" using assms(3) by simp
  then have "labelled x" by (simp add: originRequest_iff)
  then show ?thesis using assms by (simp add: delete_accepted map_origin)
qed

lemma unlabelled_ignored: "\<not> labelled (eventObject ev) \<Longrightarrow> \<not> accepts ev"
  using accepts_labelled by blast

end

interpretation velero: owned_watch "VeleroRestorePredicate oadp" "mapVeleroRestoreToVMFR oadp" KindVeleroRestore oadp for oadp
proof
  show "labelled (eventObject ev)" if "VeleroRestorePredicate oadp ev" for ev using that by (cases ev) auto
  show "mapVeleroRestoreToVMFR oadp x = originRequest oadp (objectMeta x)" if "kindOf x = KindVeleroRestore" for x
    using that by (cases x) (auto simp: mapVeleroRestoreToVMFR_def)
qed simp

interpretation service: owned_watch ServicePredicate "mapServiceToVMFR oadp" KindService oadp for oadp
proof
  show "labelled (eventObject ev)" if "ServicePredicate ev" for ev using that by (cases ev) auto
  show "mapServiceToVMFR oadp x = originRequest oadp (objectMeta x)" if "kindOf x = KindService" for x
    using that by (cases x) (auto simp: mapServiceToVMFR_def)
qed simp

interpretation route: owned_watch RoutePredicate "mapRouteToVMFR oadp" KindRoute oadp for oadp
proof
  show "labelled (eventObject ev)" if "RoutePredicate ev" for ev using that by (cases ev) auto
qed (simp_all add: mapRouteToVMFR_def)

section \<open>Properties\<close>

lemma namespace_accepts: "NamespacePredicate ns ev \<longleftrightarrow> inNamespace ns (eventObject ev)"
  by (cases ev) simp_all

lemma watch_requests_in_oadp:
  assumes "wt \<in> set (SetupWithManager oadp openshift listed)" and "wt_filter wt ev"
    and "kindOf (eventObject ev) = wt_kind wt" and "k \<in> set (wt_map wt (eventObject ev))"
  shows "nn_namespace k = oadp"
  using assms velero.requests_in_oadp service.requests_in_oadp route.requests_in_oadp
  by (auto simp: SetupWithManager_def namespace_accepts mapVMBDToVMFR_def split: if_splits sum.splits)

text \<open>C40. A backup that changes wakes the file restores it matters to, through the two controllers: an event of a
  backup in the OADP namespace enqueues every discovery the server lists there, and an event of such a discovery
  enqueues exactly the file restores of that namespace that refer to it. A backup of another namespace enqueues nothing.\<close>

theorem backup_events_reach_restores:
  assumes "list_vmbds E w = (Inr ds, w1)" and "d \<in> set ds" and "om_namespace (vmbd_meta d) = OADPNamespace E"
    and "bw \<in> set (discoveryWatches E w)" "wt_kind bw = KindBackup" "eventObject bev = BackupObj m"
    and "fw \<in> set (SetupWithManager (OADPNamespace E) openshift (Inr vs))" "wt_kind fw = KindDiscovery"
    and "eventObject dev = DiscoveryObj (vmbd_meta d)"
  shows "wt_filter bw bev \<and> wt_filter fw dev
    \<and> (key_of (vmbd_meta d) \<in> set (wt_map bw (eventObject bev)) \<longleftrightarrow> om_namespace m = OADPNamespace E)
    \<and> (om_namespace m \<noteq> OADPNamespace E \<longrightarrow> wt_map bw (eventObject bev) = [])
    \<and> (\<forall>k. k \<in> set (wt_map fw (eventObject dev)) \<longleftrightarrow> (\<exists>v\<in>set vs. k = key_of (vmfr_meta v)
         \<and> BackupsDiscoveryRef (vmfr_spec v) = om_name (vmbd_meta d) \<and> om_namespace (vmfr_meta v) = OADPNamespace E))"
proof -
  have bw: "wt_filter bw bev" "wt_map bw (eventObject bev) = fst (mapBackupToVMBD E m w)"
    using assms(4-6) by (auto simp: discoveryWatches_def)
  have fw: "wt_filter fw dev" "wt_map fw (eventObject dev) = mapVMBDToVMFR (Inr vs) (eventObject dev)"
    using assms(3,7-9) by (auto simp: SetupWithManager_def namespace_accepts split: if_splits)
  show ?thesis using assms(1-3) unfolding bw(2) fw(2)
    by (auto simp: assms(9) bw(1) fw(1) mapBackupToVMBD_def mapVMBDToVMFR_def)
qed

theorem backup_events_reach_restores_witness:
  "\<exists>bw fw. bw \<in> set (discoveryWatches (ref_env ''adp'' (\<lambda>_. True)) demo_world) \<and> wt_kind bw = KindBackup
     \<and> wt_map bw (BackupObj (empty_meta \<lparr>om_namespace := ''adp''\<rparr>)) = [demo_key]
     \<and> fw \<in> set (SetupWithManager ''adp'' False (Inr [demo_vmfr])) \<and> wt_kind fw = KindDiscovery
     \<and> key_of (vmfr_meta demo_vmfr) \<in> set (wt_map fw (DiscoveryObj (empty_meta \<lparr>om_namespace := ''adp'', om_name := ''d''\<rparr>)))"
proof -
  let ?E = "ref_env ''adp'' (\<lambda>_. True)" and ?d = "the (rw_obj demo_world)"
  let ?m = "empty_meta \<lparr>om_namespace := ''adp''\<rparr>"
  let ?bw = "\<lparr>wt_kind = KindBackup, wt_filter = (\<lambda>ev. True), wt_map = (\<lambda>x. fst (mapBackupToVMBD ?E (objectMeta x) demo_world))\<rparr>"
  let ?fw = "\<lparr>wt_kind = KindDiscovery, wt_filter = NamespacePredicate ''adp'', wt_map = mapVMBDToVMFR (Inr [demo_vmfr])\<rparr>"
  have d: "vmbd_meta ?d = empty_meta \<lparr>om_namespace := ''adp'', om_name := ''d''\<rparr>" by (simp add: demo_world_def)
  have l: "list_vmbds ?E demo_world = (Inr [?d], demo_world)" and n: "OADPNamespace ?E = ''adp''"
    by (simp_all add: ref_env_def demo_world_def)
  have b: "?bw \<in> set (discoveryWatches ?E demo_world)" by (simp add: discoveryWatches_def)
  have f: "?fw \<in> set (SetupWithManager (OADPNamespace ?E) False (Inr [demo_vmfr]))" by (simp add: SetupWithManager_def n)
  have k: "key_of (vmfr_meta demo_vmfr) \<in> set (wt_map ?fw (eventObject (UpdateEvent (DiscoveryObj (vmbd_meta ?d)) (DiscoveryObj (vmbd_meta ?d)))))"
    using backup_events_reach_restores [OF l _ _ b _ _ f, of ?d "CreateEvent (BackupObj ?m)" ?m
        "UpdateEvent (DiscoveryObj (vmbd_meta ?d)) (DiscoveryObj (vmbd_meta ?d))"]
    by (simp add: n d) (simp add: demo_vmfr_def)
  have "fst (mapBackupToVMBD ?E ?m demo_world) = [demo_key]" by code_simp
  then show ?thesis using b f k by (intro exI [of _ ?bw] exI [of _ ?fw]) (simp add: n d)
qed

text \<open>No watch ever asks for the reconciliation of a file restore outside the OADP namespace: for every watch
  the controller registers, every event its filter accepts and every request its mapping function gives for
  the object concerned.\<close>

theorem watches_stay_in_oadp_namespace:
  assumes "wt \<in> set (SetupWithManager oadp openshift listed)" and "wt_filter wt ev"
    and "kindOf (eventObject ev) = wt_kind wt" and "k \<in> set (wt_map wt (eventObject ev))"
  shows "nn_namespace k = oadp"
  by (rule watch_requests_in_oadp [OF assms])

definition demo_service :: client_object where
  "demo_service = ServiceObj (empty_meta \<lparr>om_name := ''svc'', om_namespace := ''tmp'',
     om_labels := [(VMFROriginUUIDLabel, ''1a2b'')],
     om_annotations := [(VMFROriginNameAnnotation, ''fr''), (VMFROriginNamespaceAnnotation, ''adp'')]\<rparr>)"

theorem watches_stay_in_oadp_namespace_witness:
  "\<exists>k. ServicePredicate (CreateEvent demo_service) \<and> mapServiceToVMFR ''adp'' demo_service = [k] \<and> nn_namespace k = ''adp''"
proof -
  let ?w = "\<lparr>wt_kind = KindService, wt_filter = ServicePredicate, wt_map = mapServiceToVMFR ''adp''\<rparr>"
  let ?k = "\<lparr>nn_namespace = ''adp'', nn_name = ''fr''\<rparr>"
  have acc: "ServicePredicate (CreateEvent demo_service)" by (simp add: demo_service_def HasVMFRLabel_def)
  have maps: "mapServiceToVMFR ''adp'' demo_service = [?k]"
    by (simp add: demo_service_def mapServiceToVMFR_def originRequest_def VMFROriginNameAnnotation_def
        VMFROriginNamespaceAnnotation_def)
  have "nn_namespace ?k = ''adp''"
    by (rule watches_stay_in_oadp_namespace [of ?w _ False "Inr []" "CreateEvent demo_service"])
       (use acc maps in \<open>simp_all add: SetupWithManager_def demo_service_def\<close>)
  then show ?thesis using acc maps by blast
qed

text \<open>C31. A Velero restore finds its way back to the file restore it was created for: whatever the server has
  set since (the name, the UID, the phase), as long as namespace, labels and annotations are those the
  controller wrote, a phase change and the deletion are accepted by the filter and map to exactly the owner,
  and an update that leaves the phase alone is filtered out.\<close>

theorem restore_events_reach_owner:
  assumes "om_namespace (vmfr_meta v) = fe_oadpNamespace E"
    and "vr_meta old = (vr_meta (restoreObject E v sp ns b us)) \<lparr>om_name := n, om_uid := u\<rparr>"
    and "vr_meta new = vr_meta old"
  shows "VeleroRestorePredicate (fe_oadpNamespace E) (UpdateEvent (RestoreObj old) (RestoreObj new)) = (vr_phase old \<noteq> vr_phase new)
    \<and> VeleroRestorePredicate (fe_oadpNamespace E) (DeleteEvent (RestoreObj new))
    \<and> mapVeleroRestoreToVMFR (fe_oadpNamespace E) (RestoreObj new) = [key_of (vmfr_meta v)]"
proof -
  let ?x = "RestoreObj new"
  have o: "originRequest (fe_oadpNamespace E) (objectMeta ?x) = [key_of (vmfr_meta v)]"
    and ns: "inNamespace (fe_oadpNamespace E) ?x" and l: "labelled ?x"
    using assms by (simp_all add: originRequest_def restoreObject_def ownedBy_def empty_meta_def key_of_def HasVMFRLabel_def
      VMFROriginNameAnnotation_def VMFROriginNamespaceAnnotation_def)
  show ?thesis using velero.deletion_reaches_origin [OF _ ns o] ns l by (simp add: restorePhaseChanged_def)
qed

theorem restore_events_reach_owner_witness:
  "\<exists>r. vr_phase r = ''New'' \<and> VeleroRestorePredicate ''adp'' (UpdateEvent (RestoreObj r) (RestoreObj (r \<lparr>vr_phase := ''Completed''\<rparr>)))
     \<and> mapVeleroRestoreToVMFR ''adp'' (RestoreObj (r \<lparr>vr_phase := ''Completed''\<rparr>)) = [key_of (vmfr_meta demo_vmfr)]"
proof -
  let ?E = "ref_vmfr_env ''adp''"
  let ?sp = "\<lparr>VirtualMachineName = ''vm'', VirtualMachineNamespace = ''vms'', StartTime = None, EndTime = None, RequestedBackups = []\<rparr>"
  let ?o = "restoreObject ?E demo_vmfr ?sp ''tmp'' ''b1'' [''u'']"
  let ?r = "?o \<lparr>vr_meta := (vr_meta ?o) \<lparr>om_name := ''r1'', om_uid := ''9''\<rparr>, vr_phase := ''New''\<rparr>"
  have E: "fe_oadpNamespace ?E = ''adp''" by (simp add: ref_vmfr_env_def)
  show ?thesis
    using restore_events_reach_owner [of demo_vmfr ?E ?r "''9''" "''r1''" ?sp "''tmp''" "''b1''" "[''u'']" "?r \<lparr>vr_phase := ''Completed''\<rparr>"]
    by (intro exI [of _ ?r]) (simp add: E demo_vmfr_def)
qed

end
