(* ===== verification/Startup.thy ===== *)
theory Startup
  imports Velero_Utils Watches
begin

text \<open>
  The entry point of the controller, \<open>cmd/main.go\<close>: the logging options from the environment, the options of
  the servers and of the manager from the parsed command line, and the sequence of calls that builds and
  starts the manager. A call on the manager, which is controller-runtime's, is a value of type
  \<open>setup_call\<close> with everything the program passes to it; performing it is a parameter. Log output and the
  parsing of the command line are left out.
\<close>

section \<open>Logging\<close>

definition LogLevelEnvVar :: string where "LogLevelEnvVar = ''LOG_LEVEL''"
definition LogFormatEnvVar :: string where "LogFormatEnvVar = ''LOG_FORMAT''"
definition Base10 :: nat where "Base10 = 10"
definition Bits32 :: nat where "Bits32 = 32"

text \<open>\<open>strconv.ParseUint\<close> in base ten; a syntax error and a range error are both \<open>None\<close>.\<close>

fun parseUintFrom :: "nat \<Rightarrow> nat \<Rightarrow> string \<Rightarrow> nat option" where
  "parseUintFrom bits n [] = Some n"
| "parseUintFrom bits n (c # cs) =
     (if byte c < 48 \<or> 57 < byte c then None
      else let n1 = n * Base10 + (byte c - 48) in if 2 ^ bits \<le> n1 then None else parseUintFrom bits n1 cs)"

definition parseUint :: "nat \<Rightarrow> string \<Rightarrow> nat option" where
  "parseUint bits s = (if s = [] then None else parseUintFrom bits 0 s)"

datatype zap_level = ZapDebug | ZapInfo | ZapWarn | ZapError | ZapPanic | ZapFatal

text \<open>The levels of logrus are the numbers from 0 (panic) to 6 (trace).\<close>

definition translateLogrusToZapLevel :: "nat \<Rightarrow> zap_level \<times> bool" where
  "translateLogrusToZapLevel level =
     (if level = 5 \<or> level = 6 then (ZapDebug, False)
      else if level = 4 then (ZapInfo, False)
      else if level = 3 then (ZapWarn, False)
      else if level = 2 then (ZapError, False)
      else if level = 1 then (ZapFatal, False)
      else if level = 0 then (ZapPanic, False)
      else (ZapInfo, True))"

definition logLevelFor :: "string option \<Rightarrow> zap_level \<times> bool" where
  "logLevelFor env = (case env of
     None \<Rightarrow> (ZapInfo, False)
   | Some s \<Rightarrow> if s = [] then (ZapInfo, False)
       else case parseUint Bits32 s of Some level \<Rightarrow> translateLogrusToZapLevel level | None \<Rightarrow> (ZapInfo, True))"

datatype encoder = JSONEncoder | ConsoleEncoder

definition encoderForFormat :: "string \<Rightarrow> encoder" where
  "encoderForFormat format = (if format = ''json'' then JSONEncoder else ConsoleEncoder)"

definition logFormatFor :: "string option \<Rightarrow> string" where
  "logFormatFor env = (case env of Some s \<Rightarrow> if s = [] then ''text'' else s | None \<Rightarrow> ''text'')"

record zap_options =
  zo_level :: zap_level
  zo_development :: bool
  zo_encoder :: encoder

text \<open>The options before the flags that the zap package itself adds to the command line are applied.\<close>

type_synonym environment = "string \<Rightarrow> string option"

definition zapOptions :: "environment \<Rightarrow> zap_options" where
  "zapOptions env = \<lparr>zo_level = fst (logLevelFor (env LogLevelEnvVar)), zo_development = True,
     zo_encoder = encoderForFormat (logFormatFor (env LogFormatEnvVar))\<rparr>"

section \<open>Servers\<close>

record startup_flags =
  fl_metricsAddr :: string
  fl_probeAddr :: string
  fl_enableLeaderElection :: bool
  fl_secureMetrics :: bool
  fl_webhookCertPath :: string
  fl_webhookCertName :: string
  fl_webhookCertKey :: string
  fl_metricsCertPath :: string
  fl_metricsCertName :: string
  fl_metricsCertKey :: string
  fl_enableHTTP2 :: bool


text \<open>The only field of a TLS configuration the program sets is the list of protocols.\<close>

type_synonym tls_config = "string list"

definition disableHTTP2 :: "tls_config \<Rightarrow> tls_config" where
  "disableHTTP2 c = [''http/1.1'']"

definition tlsOpts :: "startup_flags \<Rightarrow> (tls_config \<Rightarrow> tls_config) list" where
  "tlsOpts fl = (if fl_enableHTTP2 fl then [] else [disableHTTP2])"

record cert_files =
  cf_dir :: string
  cf_name :: string
  cf_key :: string

definition no_certs :: cert_files where
  "no_certs = \<lparr>cf_dir = [], cf_name = [], cf_key = []\<rparr>"

record webhook_options =
  wo_tlsOpts :: "(tls_config \<Rightarrow> tls_config) list"
  wo_certs :: cert_files

definition webhookServerOptions :: "startup_flags \<Rightarrow> webhook_options" where
  "webhookServerOptions fl = \<lparr>wo_tlsOpts = tlsOpts fl,
     wo_certs = (if fl_webhookCertPath fl \<noteq> []
       then \<lparr>cf_dir = fl_webhookCertPath fl, cf_name = fl_webhookCertName fl, cf_key = fl_webhookCertKey fl\<rparr>
       else no_certs)\<rparr>"

datatype filter_provider = WithAuthenticationAndAuthorization

record metrics_options =
  me_bindAddress :: string
  me_secureServing :: bool
  me_tlsOpts :: "(tls_config \<Rightarrow> tls_config) list"
  me_filterProvider :: "filter_provider option"
  me_certs :: cert_files

definition metricsServerOptions :: "startup_flags \<Rightarrow> metrics_options" where
  "metricsServerOptions fl = \<lparr>me_bindAddress = fl_metricsAddr fl, me_secureServing = fl_secureMetrics fl,
     me_tlsOpts = tlsOpts fl,
     me_filterProvider = (if fl_secureMetrics fl then Some WithAuthenticationAndAuthorization else None),
     me_certs = (if fl_metricsCertPath fl \<noteq> []
       then \<lparr>cf_dir = fl_metricsCertPath fl, cf_name = fl_metricsCertName fl, cf_key = fl_metricsCertKey fl\<rparr>
       else no_certs)\<rparr>"

section \<open>Manager\<close>

text \<open>The API groups the program registers in its scheme.\<close>

datatype api_group = ClientGoGroups | OadpV1alpha1 | VeleroV1 | VeleroV2alpha1 | KubevirtV1 | RouteV1

definition scheme :: "api_group list" where
  "scheme = [ClientGoGroups, OadpV1alpha1, VeleroV1, VeleroV2alpha1, KubevirtV1, RouteV1]"

record manager_options =
  mo_scheme :: "api_group list"
  mo_metrics :: metrics_options
  mo_webhook :: webhook_options
  mo_probeAddress :: string
  mo_leaderElection :: bool
  mo_leaderElectionID :: string
  mo_logger :: zap_options
  mo_cache :: "(watched_kind \<times> string list) list"

definition managerOptions :: "environment \<Rightarrow> startup_flags \<Rightarrow> string \<Rightarrow> manager_options" where
  "managerOptions env fl oadpNamespace = \<lparr>mo_scheme = scheme, mo_metrics = metricsServerOptions fl,
     mo_webhook = webhookServerOptions fl, mo_probeAddress = fl_probeAddr fl,
     mo_leaderElection = fl_enableLeaderElection fl, mo_leaderElectionID = ''8f8d9561.openshift.io'',
     mo_logger = zapOptions env,
     mo_cache = [(KindDiscovery, [oadpNamespace]), (KindFileRestore, [oadpNamespace])]\<rparr>"










section \<open>Facts on logging\<close>

lemma parseUintFrom_digits:
  assumes "\<forall>c\<in>set s. 48 \<le> byte c \<and> byte c \<le> 57" and "n < 2 ^ bits"
  shows "parseUintFrom bits n s =
    (let v = n * 10 ^ length s + nat (parse_digits s) in if v < 2 ^ bits then Some v else None)"
  using assms
proof (induction s arbitrary: n)
  case (Cons c s)
  let ?d = "byte c - 48"
  let ?n = "n * 10 + ?d"
  have c: "48 \<le> byte c" "byte c \<le> 57" and ds: "\<forall>c\<in>set s. 48 \<le> byte c \<and> byte c \<le> 57" using Cons.prems by auto
  have nn: "0 \<le> parse_digits s" using ds by (induction s) auto
  have "nat (parse_digits (c # s)) = ?d * 10 ^ length s + nat (parse_digits s)"
    using c nn by (simp add: nat_add_distrib nat_mult_distrib nat_diff_distrib nat_power_eq)
  then have v: "n * 10 ^ length (c # s) + nat (parse_digits (c # s)) = ?n * 10 ^ length s + nat (parse_digits s)"
    by (simp add: algebra_simps)
  show ?case
  proof (cases "?n < 2 ^ bits")
    case True
    then show ?thesis using c v Cons.IH [OF ds True] by (simp add: Base10_def Let_def)
  next
    case False
    have "?n \<le> ?n * 10 ^ length s + nat (parse_digits s)" by (rule trans_le_add1) simp
    with False have "2 ^ bits \<le> ?n * 10 ^ length s + nat (parse_digits s)" by (meson not_less order_trans)
    then show ?thesis using c v False by (simp add: Base10_def Let_def not_less)
  qed
qed simp

lemma parseUint_decimal: "n < 2 ^ bits \<Longrightarrow> parseUint bits (decimal n) = Some n"
  using decimal_hd [of n] parseUintFrom_digits [of "decimal n" 0 bits]
  by (auto simp: parseUint_def parse_decimal decimal_digits)

text \<open>The levels documented for \<open>LOG_LEVEL\<close>, and nothing else, are accepted without complaint.\<close>

lemma documented_log_levels:
  assumes "n \<le> 6"
  shows "logLevelFor (Some (decimal n)) = ([ZapPanic, ZapFatal, ZapError, ZapWarn, ZapInfo, ZapDebug, ZapDebug] ! n, False)"
proof -
  have "n < 2 ^ Bits32" using assms by (simp add: Bits32_def)
  moreover have "n \<in> {0, 1, 2, 3, 4, 5, 6}" using assms by auto
  ultimately show ?thesis using decimal_hd [of n] parseUint_decimal [of n Bits32]
    by (auto simp: logLevelFor_def translateLogrusToZapLevel_def)
qed

lemma other_log_levels:
  "6 < n \<Longrightarrow> logLevelFor (Some (decimal n)) = (ZapInfo, True)"
proof -
  assume n: "6 < n"
  have "parseUint Bits32 (decimal n) = (if n < 2 ^ Bits32 then Some n else None)"
    using decimal_hd [of n] parseUintFrom_digits [of "decimal n" 0 Bits32]
    by (auto simp: parseUint_def parse_decimal decimal_digits)
  with n decimal_hd [of n] show ?thesis by (auto simp: logLevelFor_def translateLogrusToZapLevel_def)
qed

section \<open>The sequence of calls\<close>








lemma startup_hardened:
  "mo_metrics (managerOptions env fl ns) = m \<Longrightarrow> \<not> fl_enableHTTP2 fl
     \<Longrightarrow> fold (\<lambda>f. f) (me_tlsOpts m) c = [''http/1.1''] \<and> (me_secureServing m \<longrightarrow> me_filterProvider m \<noteq> None)"
  by (auto simp: managerOptions_def metricsServerOptions_def tlsOpts_def disableHTTP2_def)



section \<open>Property\<close>




end
