(* ===== verification/Restore_Cleanup.thy ===== *)
theory Restore_Cleanup
  imports Restore_Velero_Facts
begin

text \<open>
  Deletion of a file restore: \<open>handleVeleroRestoreCleanup\<close>, \<open>handleResourceCleanup\<close> and the functions they call
  in the file restore controller. The calls of the controller-runtime client on objects of which only the
  metadata matters are the fields of \<open>object_env\<close>. A deletion request marks an object for deletion; what
  remains to be requested is what the locale \<open>object_store\<close> calls live.
\<close>

section \<open>Environment\<close>

datatype object_kind = KPod | KService | KRoute | KPVC | KSecret | KServiceAccount | KRoleBinding | KNamespace | KRestore

record 'w object_env =
  oe_get :: "object_kind \<Rightarrow> namespaced_name \<Rightarrow> ('w, object_meta) io"
  oe_list :: "object_kind \<Rightarrow> string \<Rightarrow> strmap \<Rightarrow> ('w, object_meta list) io"
  oe_delete :: "object_kind \<Rightarrow> object_meta \<Rightarrow> ('w, unit) io"
  oe_listAllVMFRs :: "('w, vmfr list) io"
  oe_probeRoutes :: "('w, unit) io"
  oe_patchVMFR :: "vmfr \<Rightarrow> vmfr \<Rightarrow> ('w, vmfr) io"
  oe_containsFinalizer :: "string list \<Rightarrow> string \<Rightarrow> bool"
  oe_removeFinalizer :: "string list \<Rightarrow> string \<Rightarrow> string list"
  oe_nameOrder :: "string list \<Rightarrow> string list"

definition isControllerManagedResource :: "object_meta \<Rightarrow> bool" where
  "isControllerManagedResource m \<longleftrightarrow> (case map_of (om_labels m) ManagedByLabel of None \<Rightarrow> [] | Some x \<Rightarrow> x) = ManagedByLabelValue"

section \<open>Deleting what a selector lists\<close>

text \<open>The loop all deletions share: an object that is already gone is skipped, any other error ends it.\<close>

fun deleteEach :: "'w object_env \<Rightarrow> object_kind \<Rightarrow> string \<Rightarrow> object_meta list \<Rightarrow> ('w, unit) io" where
  "deleteEach Q k what [] w = (Inr (), w)"
| "deleteEach Q k what (m # ms) w = (case oe_delete Q k m w of
     (Inr _, w1) \<Rightarrow> deleteEach Q k what ms w1
   | (Inl e, w1) \<Rightarrow>
      if IsNotFound e then deleteEach Q k what ms w1
      else (Inl (errorf_w (''failed to delete '' @ what @ '' '' @ om_name m @ '': '') e), w1))"

definition deleteListed :: "'w object_env \<Rightarrow> object_kind \<Rightarrow> string \<Rightarrow> string \<Rightarrow> string \<Rightarrow> strmap \<Rightarrow> ('w, unit) io" where
  "deleteListed Q k what listing ns sel w = (case oe_list Q k ns sel w of
     (Inl e, w1) \<Rightarrow> (Inl (errorf_w (''failed to list '' @ listing @ '': '') e), w1)
   | (Inr ms, w1) \<Rightarrow> deleteEach Q k what ms w1)"

definition appSelector :: strmap where
  "appSelector = [(''app'', ''vmfr-file-server'')]"

definition deleteFileServerPods :: "'w object_env \<Rightarrow> vmfr \<Rightarrow> string \<Rightarrow> ('w, unit) io" where
  "deleteFileServerPods Q v ns = deleteListed Q KPod ''pod'' ''file server pods'' ns (ownedBy v @ appSelector)"

definition deleteFileServerServices :: "'w object_env \<Rightarrow> vmfr \<Rightarrow> string \<Rightarrow> ('w, unit) io" where
  "deleteFileServerServices Q v ns = deleteListed Q KService ''service'' ''file server services'' ns (ownedBy v @ appSelector)"

text \<open>Any error of the probe counts as a cluster without routes.\<close>

definition deleteFileServerRoutes :: "'w object_env \<Rightarrow> vmfr \<Rightarrow> string \<Rightarrow> ('w, unit) io" where
  "deleteFileServerRoutes Q v ns w = (case oe_probeRoutes Q w of
     (Inl _, w1) \<Rightarrow> (Inr (), w1)
   | (Inr _, w1) \<Rightarrow> deleteListed Q KRoute ''route'' ''file server routes'' ns (ownedBy v) w1)"

definition deleteControllerSecrets :: "'w object_env \<Rightarrow> vmfr \<Rightarrow> string \<Rightarrow> ('w, unit) io" where
  "deleteControllerSecrets Q v ns = deleteListed Q KSecret ''secret'' ''controller secrets'' ns (ownedBy v)"

definition restoreNames :: "vmfr \<Rightarrow> string list" where
  "restoreNames v = remdups (filter (\<lambda>n. n \<noteq> [])
     (concat (map (\<lambda>p. map ri_restoreName (pr_restores p)) (fs_pvcRestores (vmfr_status v)))))"

definition restoreSelector :: "string \<Rightarrow> strmap" where
  "restoreSelector n = [(''velero.io/restore-name'', n)]"

definition deleteRestoredPVCs :: "'w object_env \<Rightarrow> vmfr \<Rightarrow> string \<Rightarrow> ('w, unit) io" where
  "deleteRestoredPVCs Q v ns =
    (if restoreNames v = [] then returnR ()
     else foldR (\<lambda>n _. deleteListed Q KPVC ''PVC'' (''PVCs for restore '' @ n) ns (restoreSelector n))
            (oe_nameOrder Q (restoreNames v)) ())"

section \<open>Access resources\<close>

definition serviceAccountName :: string where "serviceAccountName = ''vmfr-file-server''"
definition roleBindingName :: string where "roleBindingName = ''vmfr-file-server-privileged''"

definition usesNamespace :: "vmfr \<Rightarrow> string \<Rightarrow> vmfr \<Rightarrow> bool" where
  "usesNamespace v ns other \<longleftrightarrow> \<not> (om_uid (vmfr_meta other) = om_uid (vmfr_meta v) \<or> om_deletion (vmfr_meta other) \<noteq> None)
     \<and> fs_createdNamespace (vmfr_status other) = ns"

definition deleteManaged :: "'w object_env \<Rightarrow> object_kind \<Rightarrow> string \<Rightarrow> string \<Rightarrow> string \<Rightarrow> ('w, unit) io" where
  "deleteManaged Q k what name ns w = (case oe_get Q k \<lparr>nn_namespace = ns, nn_name = name\<rparr> w of
     (Inl e, w1) \<Rightarrow> if IsNotFound e then (Inr (), w1)
                    else (Inl (errorf_w (''failed to get file server '' @ what @ '': '') e), w1)
   | (Inr m, w1) \<Rightarrow>
      if isControllerManagedResource m then
        (case oe_delete Q k m w1 of
           (Inr _, w2) \<Rightarrow> (Inr (), w2)
         | (Inl e, w2) \<Rightarrow> if IsNotFound e then (Inr (), w2)
                          else (Inl (errorf_w (''failed to delete file server '' @ what @ '': '') e), w2))
      else (Inr (), w1))"

definition deleteFileServerAccess :: "'w object_env \<Rightarrow> vmfr \<Rightarrow> string \<Rightarrow> ('w, unit) io" where
  "deleteFileServerAccess Q v ns w = (case oe_listAllVMFRs Q w of
     (Inl e, w1) \<Rightarrow> (Inl (errorf_w ''failed to list VMFRs while cleaning up file server access: '' e), w1)
   | (Inr vmfrs, w1) \<Rightarrow>
      if list_ex (usesNamespace v ns) vmfrs then (Inr (), w1)
      else bindR (deleteManaged Q KRoleBinding ''SCC RoleBinding'' roleBindingName ns)
             (\<lambda>_. deleteManaged Q KServiceAccount ''ServiceAccount'' serviceAccountName ns) w1)"

section \<open>The two finalizers\<close>

definition withoutFinalizer :: "'w object_env \<Rightarrow> string \<Rightarrow> vmfr \<Rightarrow> vmfr" where
  "withoutFinalizer Q f v = v \<lparr>vmfr_meta := (vmfr_meta v) \<lparr>om_finalizers := oe_removeFinalizer Q (om_finalizers (vmfr_meta v)) f\<rparr>\<rparr>"

definition handleVeleroRestoreCleanup :: "'w object_env \<Rightarrow> string \<Rightarrow> vmfr \<Rightarrow> ('w, bool) io" where
  "handleVeleroRestoreCleanup Q oadp v =
    (if \<not> oe_containsFinalizer Q (om_finalizers (vmfr_meta v)) VeleroRestoreCleanupFinalizer then returnR False
     else bindR (deleteListed Q KRestore ''Velero Restore'' ''Velero Restore objects'' oadp (ownedBy v)) (\<lambda>_ w.
       (case oe_patchVMFR Q v (withoutFinalizer Q VeleroRestoreCleanupFinalizer v) w of
          (Inl e, w1) \<Rightarrow> (Inl (errorf_w ''failed to remove VeleroRestoreCleanupFinalizer: '' e), w1)
        | (Inr _, w1) \<Rightarrow> (Inr True, w1))))"

definition dropMainFinalizer :: "'w object_env \<Rightarrow> vmfr \<Rightarrow> ('w, bool) io" where
  "dropMainFinalizer Q v w = (case oe_patchVMFR Q v (withoutFinalizer Q VMFileRestoreFinalizer v) w of
     (Inl e, w1) \<Rightarrow> (Inl (errorf_w ''failed to remove VMFileRestoreFinalizer: '' e), w1)
   | (Inr _, w1) \<Rightarrow> (Inr False, w1))"

text \<open>At the end of a cleanup an object that is already gone is no error.\<close>

definition finishCleanup :: "'w object_env \<Rightarrow> vmfr \<Rightarrow> ('w, bool) io" where
  "finishCleanup Q v w = (case oe_patchVMFR Q v (withoutFinalizer Q VMFileRestoreFinalizer v) w of
     (Inl e, w1) \<Rightarrow> if IsNotFound e then (Inr False, w1) else (Inl (errorf_w ''failed to remove VMFileRestoreFinalizer: '' e), w1)
   | (Inr _, w1) \<Rightarrow> (Inr False, w1))"

definition isTempNamespace :: "object_meta \<Rightarrow> bool" where
  "isTempNamespace m \<longleftrightarrow> map_of (om_labels m) VMFRTempNamespaceLabel = Some TrueString"

definition deleteNamespace :: "'w object_env \<Rightarrow> object_meta \<Rightarrow> ('w, unit) io" where
  "deleteNamespace Q m w = (case oe_delete Q KNamespace m w of
     (Inr _, w1) \<Rightarrow> (Inr (), w1)
   | (Inl e, w1) \<Rightarrow> if IsNotFound e then (Inr (), w1) else (Inl (errorf_w ''failed to delete temporary namespace: '' e), w1))"

definition deleteOwnedResources :: "'w object_env \<Rightarrow> vmfr \<Rightarrow> string \<Rightarrow> ('w, unit) io" where
  "deleteOwnedResources Q v ns =
     bindR (deleteFileServerPods Q v ns) (\<lambda>_. bindR (deleteFileServerServices Q v ns) (\<lambda>_.
     bindR (deleteFileServerRoutes Q v ns) (\<lambda>_. bindR (deleteRestoredPVCs Q v ns) (\<lambda>_.
     bindR (deleteControllerSecrets Q v ns) (\<lambda>_. deleteFileServerAccess Q v ns)))))"

definition handleResourceCleanup :: "'w object_env \<Rightarrow> vmfr \<Rightarrow> ('w, bool) io" where
  "handleResourceCleanup Q v w =
    (let ns = fs_createdNamespace (vmfr_status v)
     in if \<not> oe_containsFinalizer Q (om_finalizers (vmfr_meta v)) VMFileRestoreFinalizer then (Inr False, w)
        else if ns = [] then dropMainFinalizer Q v w
        else (case oe_get Q KNamespace \<lparr>nn_namespace = [], nn_name = ns\<rparr> w of
          (Inl e, w1) \<Rightarrow> if IsNotFound e then dropMainFinalizer Q v w1
                         else (Inl (errorf_w ''failed to get restore namespace: '' e), w1)
        | (Inr m, w1) \<Rightarrow> bindR (if isTempNamespace m then deleteNamespace Q m else deleteOwnedResources Q v ns)
                           (\<lambda>_. finishCleanup Q v) w1))"

end
