(* ===== verification/Cleanup_Facts.thy ===== *)
theory Cleanup_Facts
  imports Restore_Cleanup
begin

text \<open>
  What the deletion of a file restore does to the cluster: it requests the deletion of its own resources and of
  nothing else, and when it succeeds none of them is left. The contract it needs of the API server is the
  locale \<open>object_store\<close>; a small store that keeps it is interpreted at the end.
\<close>

section \<open>The contract of the server\<close>

definition selected :: "strmap \<Rightarrow> object_meta \<Rightarrow> bool" where
  "selected sel m \<longleftrightarrow> list_all (\<lambda>(k, x). map_of (om_labels m) k = Some x) sel"

text \<open>
  \<open>live w\<close> are the objects whose deletion has not been requested yet. Listing returns objects of the namespace
  that carry the labels, all live ones among them, and shows each object as it is; a deletion request affects
  one object (a namespace apart, whose contents go with it); nothing else changes what is live. \<open>stored w\<close>
  are the file restores of the cluster: listing them returns them all, and only a patch changes one.
\<close>

locale object_store =
  fixes Q :: "'w object_env" and live :: "'w \<Rightarrow> (object_kind \<times> object_meta) set" and stored :: "'w \<Rightarrow> vmfr set"
  assumes list_sound: "oe_list Q k ns sel w = (Inr ms, w1) \<Longrightarrow> m \<in> set ms \<Longrightarrow> om_namespace m = ns \<and> selected sel m"
    and list_complete: "oe_list Q k ns sel w = (Inr ms, w1) \<Longrightarrow> (k, m) \<in> live w \<Longrightarrow> om_namespace m = ns
      \<Longrightarrow> selected sel m \<Longrightarrow> m \<in> set ms"
    and list_current: "oe_list Q k ns sel w = (Inr ms, w1) \<Longrightarrow> m \<in> set ms \<Longrightarrow> (k, m') \<in> live w
      \<Longrightarrow> key_of m' = key_of m \<Longrightarrow> m' = m"
    and list_live: "oe_list Q k ns sel w = (rl, w1) \<Longrightarrow> live w1 = live w"
    and get_current: "oe_get Q k nn w = (Inr m, w1) \<Longrightarrow> key_of m = nn \<and> ((k, m') \<in> live w \<longrightarrow> key_of m' = nn \<longrightarrow> m' = m)"
    and get_absent: "oe_get Q k nn w = (Inl e, w1) \<Longrightarrow> IsNotFound e \<Longrightarrow> (k, m') \<in> live w \<Longrightarrow> key_of m' \<noteq> nn"
    and get_live: "oe_get Q k nn w = (rg, w1) \<Longrightarrow> live w1 = live w"
    and delete_ok: "oe_delete Q k m w = (Inr u, w1) \<Longrightarrow> k \<noteq> KNamespace
      \<Longrightarrow> live w1 = {(k', m') \<in> live w. \<not> (k' = k \<and> key_of m' = key_of m)}"
    and delete_namespace: "oe_delete Q KNamespace m w = (Inr u, w1)
      \<Longrightarrow> live w1 = {(k', m') \<in> live w. \<not> (k' = KNamespace \<and> key_of m' = key_of m) \<and> om_namespace m' \<noteq> om_name m}"
    and delete_err: "oe_delete Q k m w = (Inl e, w1) \<Longrightarrow> live w1 = live w"
    and delete_absent: "oe_delete Q k m w = (Inl e, w1) \<Longrightarrow> IsNotFound e \<Longrightarrow> (k, m') \<in> live w \<Longrightarrow> key_of m' \<noteq> key_of m"
    and other_calls_live: "oe_listAllVMFRs Q w = (rv, w1) \<Longrightarrow> live w1 = live w"
      "oe_probeRoutes Q w = (rp, w1) \<Longrightarrow> live w1 = live w"
      "oe_patchVMFR Q v v1 w = (rf, w1) \<Longrightarrow> live w1 = live w"
    and vmfrs_all: "oe_listAllVMFRs Q w = (Inr vs, w1) \<Longrightarrow> set vs = stored w"
    and calls_stored: "oe_listAllVMFRs Q w = (rv, w1) \<Longrightarrow> stored w1 = stored w"
      "oe_probeRoutes Q w = (rp, w1) \<Longrightarrow> stored w1 = stored w"
      "oe_get Q k nn w = (rg, w1) \<Longrightarrow> stored w1 = stored w"
      "oe_list Q k ns sel w = (rl, w1) \<Longrightarrow> stored w1 = stored w"
      "k \<noteq> KNamespace \<Longrightarrow> oe_delete Q k m w = (rd, w1) \<Longrightarrow> stored w1 = stored w"
    and order_perm: "set (oe_nameOrder Q ns0) = set ns0"
begin

text \<open>A call removes only what satisfies \<open>P\<close>, given the file restores, which it leaves alone; a call that succeeds
  leaves nothing that satisfies \<open>R\<close>.\<close>

definition effect :: "(vmfr set \<Rightarrow> object_kind \<times> object_meta \<Rightarrow> bool) \<Rightarrow> 'w \<Rightarrow> 'w \<Rightarrow> bool" where
  "effect P w w1 \<longleftrightarrow> live w1 \<subseteq> live w \<and> live w - live w1 \<subseteq> Collect (P (stored w)) \<and> stored w1 = stored w"

definition removes_only :: "(vmfr set \<Rightarrow> object_kind \<times> object_meta \<Rightarrow> bool) \<Rightarrow> ('w, 'a) io \<Rightarrow> bool" where
  "removes_only P f \<longleftrightarrow> (\<forall>w r w1. f w = (r, w1) \<longrightarrow> effect P w w1)"

definition clears :: "(vmfr set \<Rightarrow> object_kind \<times> object_meta \<Rightarrow> bool) \<Rightarrow> ('w, 'a) io \<Rightarrow> bool" where
  "clears R f \<longleftrightarrow> (\<forall>w y w1. f w = (Inr y, w1) \<longrightarrow> (\<forall>x\<in>live w1. \<not> R (stored w) x))"

definition shrinks :: "('w, 'a) io \<Rightarrow> bool" where
  "shrinks f \<longleftrightarrow> (\<forall>w r w1. f w = (r, w1) \<longrightarrow> live w1 \<subseteq> live w)"

lemma effect_refl [simp]: "live w1 = live w \<Longrightarrow> stored w1 = stored w \<Longrightarrow> effect P w w1"
  by (simp add: effect_def)

lemma effect_trans: "effect P w w1 \<Longrightarrow> effect P w1 w2 \<Longrightarrow> effect P w w2"
  unfolding effect_def by (simp add: subset_eq) blast

lemma removes_onlyI: "(\<And>w r w1. f w = (r, w1) \<Longrightarrow> effect P w w1) \<Longrightarrow> removes_only P f"
  by (simp add: removes_only_def)

text \<open>A call made after one that leaves the live objects alone.\<close>

lemma removes_onlyD: "removes_only P f \<Longrightarrow> f wq = (r, w1) \<Longrightarrow> live wq = live w \<Longrightarrow> stored wq = stored w \<Longrightarrow> effect P w w1"
  by (simp add: removes_only_def effect_def) metis

lemma removes_only_mono: "removes_only P f \<Longrightarrow> (\<And>vs x. P vs x \<Longrightarrow> P' vs x) \<Longrightarrow> removes_only P' f"
  unfolding removes_only_def effect_def by (meson Collect_mono subset_trans)

lemma removes_only_return [simp]: "removes_only P (returnR x)"
  by (simp add: removes_only_def)

lemma removes_only_shrinks: "removes_only P f \<Longrightarrow> shrinks f"
  by (simp add: removes_only_def effect_def shrinks_def)

lemma removes_only_bind:
  assumes "removes_only P f" and "\<And>x. removes_only P (g x)"
  shows "removes_only P (bindR f g)"
proof (rule removes_onlyI)
  fix w r w2
  assume "bindR f g w = (r, w2)"
  then consider (fail) "\<exists>e. f w = (Inl e, w2)" | (ok) x w1 where "f w = (Inr x, w1)" "g x w1 = (r, w2)"
    by (auto simp: bindR_def split: prod.splits sum.splits)
  then show "effect P w w2"
    by cases (use assms in \<open>unfold removes_only_def, blast intro: effect_trans\<close>)+
qed

lemma shrinks_bind:
  assumes "shrinks f" and "\<And>x. shrinks (g x)"
  shows "shrinks (bindR f g)"
  unfolding shrinks_def
proof (intro allI impI)
  fix w r w2
  assume "bindR f g w = (r, w2)"
  then consider (fail) "\<exists>e. f w = (Inl e, w2)" | (ok) x w1 where "f w = (Inr x, w1)" "g x w1 = (r, w2)"
    by (auto simp: bindR_def split: prod.splits sum.splits)
  then show "live w2 \<subseteq> live w"
    by cases (use assms in \<open>unfold shrinks_def, blast+\<close>)
qed

lemma removes_only_fold: "(\<And>x b. removes_only P (f x b)) \<Longrightarrow> removes_only P (foldR f xs b)"
proof (induction xs arbitrary: b)
  case (Cons x xs)
  then show ?case using removes_only_bind [of P "f x b" "foldR f xs"] by simp
qed simp

lemma clears_first: "clears R f \<Longrightarrow> (\<And>x. shrinks (g x)) \<Longrightarrow> clears R (bindR f g)"
  unfolding clears_def shrinks_def by (fastforce elim!: bindR_InrE)

lemma clears_second:
  assumes "removes_only P f" and "\<And>x. clears R (g x)"
  shows "clears R (bindR f g)"
  unfolding clears_def
proof (intro allI impI ballI)
  fix w y w2 x
  assume run: "bindR f g w = (Inr y, w2)" and x: "x \<in> live w2"
  from run obtain z w1 where "f w = (Inr z, w1)" and g: "g z w1 = (Inr y, w2)" by (rule bindR_InrE)
  then have "stored w1 = stored w" using assms(1) by (simp add: removes_only_def effect_def)
  moreover have "\<forall>x\<in>live w2. \<not> R (stored w1) x" using assms(2) [of z] g unfolding clears_def by blast
  ultimately show "\<not> R (stored w) x" using x by simp
qed

lemma clears_fold:
  assumes "\<And>x b. removes_only P (f x b)" and "\<And>b. clears R (f y b)" and "y \<in> set xs"
  shows "clears R (foldR f xs b)"
  using assms(3)
proof (induction xs arbitrary: b)
  case (Cons x xs)
  show ?case
  proof (cases "x = y")
    case True
    then show ?thesis
      using clears_first [OF assms(2), of "foldR f xs" b] removes_only_shrinks [OF removes_only_fold [of P f xs]] assms(1) by simp
  next
    case False
    then show ?thesis using clears_second [OF assms(1) Cons.IH] Cons.prems by simp
  qed
qed simp

lemma deleteEach_effect:
  assumes "deleteEach Q k what ms w = (r, w1)" and "k \<noteq> KNamespace"
    and "\<And>m m'. m \<in> set ms \<Longrightarrow> (k, m') \<in> live w \<Longrightarrow> key_of m' = key_of m \<Longrightarrow> m' = m"
  shows "effect (\<lambda>_ x. x \<in> {k} \<times> set ms) w w1 \<and> (\<forall>u. r = Inr u \<longrightarrow> (\<forall>m\<in>set ms. (k, m) \<notin> live w1))"
  using assms(1,3)
proof (induction ms arbitrary: w)
  case (Cons m ms)
  obtain d wd where d: "oe_delete Q k m w = (d, wd)" by fastforce
  have eff: "effect (\<lambda>_ x. x = (k, m)) w wd"
  proof (cases d)
    case (Inr u)
    then show ?thesis
      using delete_ok [OF d [unfolded Inr] assms(2)] Cons.prems(2) [of m] calls_stored(5) [OF assms(2) d] by (auto simp: effect_def)
  qed (use d delete_err calls_stored(5) [OF assms(2) d] in auto)
  show ?case
  proof (cases "\<exists>e. d = Inl e \<and> \<not> IsNotFound e")
    case True
    then show ?thesis using d eff Cons.prems(1) by (auto simp: effect_def)
  next
    case False
    then have rest: "deleteEach Q k what ms wd = (r, w1)"
      using d Cons.prems(1) by (cases d) auto
    have gone: "(k, m) \<notin> live wd"
      using False d delete_ok [of k m w _ wd] delete_absent [of k m w _ wd m] delete_err [of k m w _ wd] assms(2)
      by (cases d) auto
    have "effect (\<lambda>_ x. x \<in> {k} \<times> set ms) wd w1 \<and> (\<forall>u. r = Inr u \<longrightarrow> (\<forall>m\<in>set ms. (k, m) \<notin> live w1))"
      by (rule Cons.IH [OF rest]) (use Cons.prems(2) eff in \<open>auto simp: effect_def\<close>)
    then show ?thesis using eff gone by (simp add: effect_def subset_eq) blast
  qed
qed simp

definition matching :: "object_kind \<Rightarrow> string \<Rightarrow> strmap \<Rightarrow> vmfr set \<Rightarrow> object_kind \<times> object_meta \<Rightarrow> bool" where
  "matching k ns sel vs x \<longleftrightarrow> fst x = k \<and> om_namespace (snd x) = ns \<and> selected sel (snd x)"

lemma deleteListed_removes: "k \<noteq> KNamespace \<Longrightarrow> removes_only (matching k ns sel) (deleteListed Q k what lst ns sel)"
proof (rule removes_onlyI)
  fix w r w1
  assume k: "k \<noteq> KNamespace" and run: "deleteListed Q k what lst ns sel w = (r, w1)"
  obtain l wl where l: "oe_list Q k ns sel w = (l, wl)" by fastforce
  note same = list_live [OF l] calls_stored(4) [OF l]
  show "effect (matching k ns sel) w w1"
  proof (cases l)
    case (Inr ms)
    have "deleteEach Q k what ms wl = (r, w1)" using run l Inr by (simp add: deleteListed_def)
    then have "effect (\<lambda>_ x. x \<in> {k} \<times> set ms) wl w1"
      using deleteEach_effect [of k what ms wl r w1] k list_current [OF l [unfolded Inr]] same(1) by blast
    moreover have "{k} \<times> set ms \<subseteq> Collect (matching k ns sel (stored w))"
      using list_sound [OF l [unfolded Inr]] by (auto simp: matching_def)
    ultimately show ?thesis using same unfolding effect_def Collect_mem_eq by (metis subset_trans)
  qed (use run l same in \<open>auto simp: deleteListed_def\<close>)
qed

lemma deleteListed_clears: "k \<noteq> KNamespace \<Longrightarrow> clears (matching k ns sel) (deleteListed Q k what lst ns sel)"
  unfolding clears_def
proof (intro allI impI ballI)
  fix w y w1 x
  assume k: "k \<noteq> KNamespace" and run: "deleteListed Q k what lst ns sel w = (Inr y, w1)" and x: "x \<in> live w1"
  then obtain ms wl where l: "oe_list Q k ns sel w = (Inr ms, wl)" and e: "deleteEach Q k what ms wl = (Inr y, w1)"
    by (auto simp: deleteListed_def split: prod.splits sum.splits)
  have same: "live wl = live w" by (rule list_live [OF l])
  have eff: "live w1 \<subseteq> live w \<and> (\<forall>m\<in>set ms. (k, m) \<notin> live w1)"
    using deleteEach_effect [OF e k] list_current [OF l] unfolding same effect_def by blast
  have "(k, m) \<notin> live w1" if "m \<in> set ms" for m using eff that by auto
  moreover have "x \<in> live w" using eff x by auto
  ultimately show "\<not> matching k ns sel (stored w) x"
    using list_complete [OF l] x by (cases x) (auto simp: matching_def)
qed

definition managed :: "object_kind \<Rightarrow> string \<Rightarrow> string \<Rightarrow> vmfr set \<Rightarrow> object_kind \<times> object_meta \<Rightarrow> bool" where
  "managed k n ns vs x \<longleftrightarrow> fst x = k \<and> key_of (snd x) = \<lparr>nn_namespace = ns, nn_name = n\<rparr> \<and> isControllerManagedResource (snd x)"

lemma deleteManaged_effect:
  assumes "k \<noteq> KNamespace" and run: "deleteManaged Q k what n ns w = (r, w2)"
  shows "effect (managed k n ns) w w2 \<and> (\<forall>u. r = Inr u \<longrightarrow> (\<forall>x\<in>live w2. \<not> managed k n ns vs x))"
proof -
  let ?nn = "\<lparr>nn_namespace = ns, nn_name = n\<rparr>"
  obtain g w1 where g: "oe_get Q k ?nn w = (g, w1)" by fastforce
  note same = get_live [OF g] calls_stored(3) [OF g]
  show ?thesis
  proof (cases g)
    case (Inl e)
    then show ?thesis
      using run g same get_absent [OF g [unfolded Inl]] by (auto simp: deleteManaged_def managed_def split: if_splits)
  next
    case (Inr m)
    note cur = get_current [OF g [unfolded Inr]]
    show ?thesis
    proof (cases "isControllerManagedResource m")
      case False
      then show ?thesis using run g Inr same cur by (auto simp: deleteManaged_def managed_def)
    next
      case True
      obtain d wd where d: "oe_delete Q k m w1 = (d, wd)" by fastforce
      have w2: "w2 = wd" using run g Inr True d by (auto simp: deleteManaged_def split: sum.splits if_splits)
      show ?thesis
      proof (cases d)
        case (Inl e)
        then show ?thesis
          using run g Inr True d w2 same delete_err [OF d [unfolded Inl]] calls_stored(5) [OF assms(1) d] cur
            delete_absent [OF d [unfolded Inl]]
          by (auto simp: deleteManaged_def managed_def split: if_splits)
      next
        case (Inr u)
        have "live w2 = {(k', m') \<in> live w. \<not> (k' = k \<and> key_of m' = ?nn)}"
          using delete_ok [OF d [unfolded Inr] assms(1)] w2 same cur by simp
        then show ?thesis
          using True w2 same cur calls_stored(5) [OF assms(1) d] by (auto simp: effect_def managed_def)
      qed
    qed
  qed
qed

lemma deleteManaged_removes: "k \<noteq> KNamespace \<Longrightarrow> removes_only (managed k n ns) (deleteManaged Q k what n ns)"
  using deleteManaged_effect by (blast intro: removes_onlyI)

lemma deleteManaged_clears: "k \<noteq> KNamespace \<Longrightarrow> clears (managed k n ns) (deleteManaged Q k what n ns)"
  using deleteManaged_effect unfolding clears_def by blast

end

text \<open>The resources of a file restore in a namespace. The role binding and the service account are shared by all file
  restores with that restore namespace: they count only when no other one that is not being deleted uses it.\<close>

definition inUse :: "vmfr \<Rightarrow> string \<Rightarrow> vmfr set \<Rightarrow> bool" where
  "inUse v ns vs \<longleftrightarrow> (\<exists>u\<in>vs. om_uid (vmfr_meta u) \<noteq> om_uid (vmfr_meta v) \<and> om_deletion (vmfr_meta u) = None
     \<and> fs_createdNamespace (vmfr_status u) = ns)"

definition cleanupTarget :: "vmfr \<Rightarrow> string \<Rightarrow> vmfr set \<Rightarrow> object_kind \<times> object_meta \<Rightarrow> bool" where
  "cleanupTarget v ns vs = (\<lambda>(k, m). om_namespace m = ns \<and> (case k of
     KPod \<Rightarrow> selected (ownedBy v @ appSelector) m
   | KService \<Rightarrow> selected (ownedBy v @ appSelector) m
   | KRoute \<Rightarrow> selected (ownedBy v) m
   | KSecret \<Rightarrow> selected (ownedBy v) m
   | KPVC \<Rightarrow> (\<exists>n\<in>set (restoreNames v). selected (restoreSelector n) m)
   | KRoleBinding \<Rightarrow> om_name m = roleBindingName \<and> isControllerManagedResource m \<and> \<not> inUse v ns vs
   | KServiceAccount \<Rightarrow> om_name m = serviceAccountName \<and> isControllerManagedResource m \<and> \<not> inUse v ns vs
   | _ \<Rightarrow> False))"

lemma usesNamespace_inUse: "list_ex (usesNamespace v ns) vs \<longleftrightarrow> inUse v ns (set vs)"
  by (auto simp: list_ex_iff usesNamespace_def inUse_def)

lemma managed_target:
  "key_of m = \<lparr>nn_namespace = ns, nn_name = n\<rparr> \<longleftrightarrow> om_namespace m = ns \<and> om_name m = n"
  by (auto simp: key_of_def)

context object_store
begin

lemma matching_target:
  "matching KPod ns (ownedBy v @ appSelector) vs x \<Longrightarrow> cleanupTarget v ns vs x"
  "matching KService ns (ownedBy v @ appSelector) vs x \<Longrightarrow> cleanupTarget v ns vs x"
  "matching KRoute ns (ownedBy v) vs x \<Longrightarrow> cleanupTarget v ns vs x"
  "matching KSecret ns (ownedBy v) vs x \<Longrightarrow> cleanupTarget v ns vs x"
  "n \<in> set (restoreNames v) \<Longrightarrow> matching KPVC ns (restoreSelector n) vs x \<Longrightarrow> cleanupTarget v ns vs x"
  by (auto simp: matching_def cleanupTarget_def split: prod.splits)

lemma removes_only_foldset: "(\<And>x b. x \<in> set xs \<Longrightarrow> removes_only P (f x b)) \<Longrightarrow> removes_only P (foldR f xs b)"
proof (induction xs arbitrary: b)
  case (Cons x xs)
  then show ?case using removes_only_bind [of P "f x b" "foldR f xs"] by simp
qed simp

text \<open>Routes: any error of the probe leaves them alone.\<close>

definition served :: bool where
  "served \<longleftrightarrow> (\<forall>w e w1. oe_probeRoutes Q w \<noteq> (Inl e, w1))"

lemma routes_removes: "removes_only (cleanupTarget v ns) (deleteFileServerRoutes Q v ns)"
proof (rule removes_onlyI)
  fix w r w1
  assume run: "deleteFileServerRoutes Q v ns w = (r, w1)"
  obtain p wp where p: "oe_probeRoutes Q w = (p, wp)" by fastforce
  note same = other_calls_live(2) [OF p] calls_stored(2) [OF p]
  have "removes_only (cleanupTarget v ns) (deleteListed Q KRoute ''route'' ''file server routes'' ns (ownedBy v))"
    by (rule removes_only_mono [OF deleteListed_removes]) (auto intro: matching_target)
  then show "effect (cleanupTarget v ns) w w1"
    using run p same by (cases p) (simp_all add: deleteFileServerRoutes_def removes_onlyD)
qed

lemma routes_clear:
  assumes served
  shows "clears (matching KRoute ns (ownedBy v)) (deleteFileServerRoutes Q v ns)"
  unfolding clears_def
proof (intro allI impI)
  fix w y w1
  assume run: "deleteFileServerRoutes Q v ns w = (Inr y, w1)"
  obtain p wp where p: "oe_probeRoutes Q w = (p, wp)" by fastforce
  with assms obtain u where u: "p = Inr u" by (cases p) (auto simp: served_def)
  then have "deleteListed Q KRoute ''route'' ''file server routes'' ns (ownedBy v) wp = (Inr y, w1)"
    using run p by (simp add: deleteFileServerRoutes_def)
  then have "\<forall>x\<in>live w1. \<not> matching KRoute ns (ownedBy v) (stored wp) x"
    using deleteListed_clears [of KRoute] unfolding clears_def by blast
  then show "\<forall>x\<in>live w1. \<not> matching KRoute ns (ownedBy v) (stored w) x" by (simp add: matching_def)
qed

text \<open>The access resources, after the list of the other file restores.\<close>

definition accessTarget :: "vmfr \<Rightarrow> string \<Rightarrow> vmfr set \<Rightarrow> object_kind \<times> object_meta \<Rightarrow> bool" where
  "accessTarget v ns vs x \<longleftrightarrow> fst x \<in> {KRoleBinding, KServiceAccount} \<and> cleanupTarget v ns vs x"

abbreviation deleteAccess :: "string \<Rightarrow> ('w, unit) io" where
  "deleteAccess ns \<equiv> bindR (deleteManaged Q KRoleBinding ''SCC RoleBinding'' roleBindingName ns)
      (\<lambda>_. deleteManaged Q KServiceAccount ''ServiceAccount'' serviceAccountName ns)"

definition accessManaged :: "string \<Rightarrow> vmfr set \<Rightarrow> object_kind \<times> object_meta \<Rightarrow> bool" where
  "accessManaged ns vs x \<longleftrightarrow> managed KRoleBinding roleBindingName ns vs x \<or> managed KServiceAccount serviceAccountName ns vs x"

lemma deleteAccess_removes: "removes_only (accessManaged ns) (deleteAccess ns)"
  by (intro removes_only_bind; rule removes_only_mono [OF deleteManaged_removes]) (simp_all add: accessManaged_def)

lemma deleteAccess_clears:
  "clears (managed KRoleBinding roleBindingName ns) (deleteAccess ns)" "clears (managed KServiceAccount serviceAccountName ns) (deleteAccess ns)"
  by (rule clears_first [OF deleteManaged_clears removes_only_shrinks [OF deleteManaged_removes]]; simp)
     (rule clears_second [OF deleteManaged_removes deleteManaged_clears]; simp)

lemma accessManaged_target: "accessManaged ns vs x \<and> \<not> inUse v ns vs \<longleftrightarrow> accessTarget v ns vs x"
  by (cases x; cases "fst x")
     (auto simp: accessManaged_def managed_def accessTarget_def cleanupTarget_def managed_target)

lemma access_effect:
  assumes run: "deleteFileServerAccess Q v ns w = (r, w1)"
  shows "effect (accessTarget v ns) w w1 \<and> (\<forall>u. r = Inr u \<longrightarrow> (\<forall>x\<in>live w1. \<not> accessTarget v ns (stored w) x))"
proof -
  obtain l wl where l: "oe_listAllVMFRs Q w = (l, wl)" by fastforce
  note same = other_calls_live(1) [OF l] calls_stored(1) [OF l]
  show ?thesis
  proof (cases "\<exists>vs. l = Inr vs \<and> \<not> inUse v ns (stored w)")
    case True
    then obtain vs where vs: "l = Inr vs" "\<not> inUse v ns (stored w)" by blast
    then have del: "deleteAccess ns wl = (r, w1)"
      using run l vmfrs_all [OF l [unfolded vs(1)]] by (simp add: deleteFileServerAccess_def usesNamespace_inUse)
    have "effect (accessManaged ns) w w1" by (rule removes_onlyD [OF deleteAccess_removes del same])
    then have "effect (accessTarget v ns) w w1"
      using vs(2) accessManaged_target [of ns "stored w" _ v] unfolding effect_def by auto
    moreover have "\<not> accessManaged ns (stored w) x" if "r = Inr u" "x \<in> live w1" for u x
      using deleteAccess_clears [of ns] del that same unfolding clears_def accessManaged_def by (metis (no_types, lifting))
    ultimately show ?thesis using accessManaged_target [of ns "stored w" _ v] by blast
  next
    case False
    have "live w1 = live w \<and> stored w1 = stored w \<and> (\<forall>u. r = Inr u \<longrightarrow> inUse v ns (stored w))"
      using run l False same vmfrs_all
      by (cases l) (auto simp: deleteFileServerAccess_def usesNamespace_inUse split: if_splits)
    then show ?thesis using accessManaged_target [of ns "stored w" _ v] by auto
  qed
qed

lemma access_removes: "removes_only (cleanupTarget v ns) (deleteFileServerAccess Q v ns)"
proof -
  have "removes_only (accessTarget v ns) (deleteFileServerAccess Q v ns)" using access_effect by (blast intro: removes_onlyI)
  then show ?thesis by (rule removes_only_mono) (simp add: accessTarget_def)
qed

lemma access_clears: "clears (accessTarget v ns) (deleteFileServerAccess Q v ns)"
  unfolding clears_def using access_effect by blast

lemma pvcs_removes: "removes_only (cleanupTarget v ns) (deleteRestoredPVCs Q v ns)"
  unfolding deleteRestoredPVCs_def
  by (auto intro!: removes_only_foldset removes_only_mono [OF deleteListed_removes] intro: matching_target simp: order_perm)

lemma listed_removes:
  "removes_only (cleanupTarget v ns) (deleteFileServerPods Q v ns)"
  "removes_only (cleanupTarget v ns) (deleteFileServerServices Q v ns)"
  "removes_only (cleanupTarget v ns) (deleteControllerSecrets Q v ns)"
  unfolding deleteFileServerPods_def deleteFileServerServices_def deleteControllerSecrets_def
  by (rule removes_only_mono [OF deleteListed_removes]; auto intro: matching_target)+

lemmas parts_remove = listed_removes routes_removes pvcs_removes access_removes

lemma owned_removes: "removes_only (cleanupTarget v ns) (deleteOwnedResources Q v ns)"
  unfolding deleteOwnedResources_def by (intro removes_only_bind parts_remove)

text \<open>The patches that take the finalizers off come last and remove nothing.\<close>

lemma patch_live: "finishCleanup Q v w = (r, w1) \<Longrightarrow> live w1 = live w" "dropMainFinalizer Q v w = (r', w1) \<Longrightarrow> live w1 = live w"
  by (auto simp: finishCleanup_def dropMainFinalizer_def dest!: other_calls_live(3) split: prod.splits sum.splits if_splits)

lemma patch_shrinks: "shrinks (finishCleanup Q v)"
  by (simp add: shrinks_def patch_live)

lemma owned_then_finish:
  assumes "bindR (deleteOwnedResources Q v ns) (\<lambda>_. finishCleanup Q v) w = (r, w2)"
  shows "live w2 \<subseteq> live w \<and> live w - live w2 \<subseteq> Collect (cleanupTarget v ns (stored w))"
proof -
  obtain d w1 where d: "deleteOwnedResources Q v ns w = (d, w1)" by fastforce
  have "live w2 = live w1" using assms d patch_live(1) by (cases d) auto
  moreover have "effect (cleanupTarget v ns) w w1" using owned_removes d unfolding removes_only_def by blast
  ultimately show ?thesis by (simp add: effect_def)
qed

lemma resource_cleanup_removes:
  assumes run: "handleResourceCleanup Q v w = (r, w1)"
    and user: "\<And>m w2. oe_get Q KNamespace \<lparr>nn_namespace = [], nn_name = fs_createdNamespace (vmfr_status v)\<rparr> w = (Inr m, w2)
      \<Longrightarrow> \<not> isTempNamespace m"
  shows "live w1 \<subseteq> live w \<and> live w - live w1 \<subseteq> Collect (cleanupTarget v (fs_createdNamespace (vmfr_status v)) (stored w))"
proof -
  let ?ns = "fs_createdNamespace (vmfr_status v)"
  obtain g wg where g: "oe_get Q KNamespace \<lparr>nn_namespace = [], nn_name = ?ns\<rparr> w = (g, wg)" by fastforce
  note same = get_live [OF g] calls_stored(3) [OF g]
  show ?thesis
    using run g user owned_then_finish [of v ?ns wg r w1] patch_live(2) [of v wg r w1] patch_live(2) [of v w r w1] same
    unfolding handleResourceCleanup_def Let_def by (cases g) (simp_all split: if_splits)
qed

lemma pvcs_clear: "n \<in> set (restoreNames v) \<Longrightarrow> clears (matching KPVC ns (restoreSelector n)) (deleteRestoredPVCs Q v ns)"
  unfolding deleteRestoredPVCs_def
  by (auto intro!: clears_fold [of "\<lambda>_ x. fst x = KPVC" _ _ n] deleteListed_clears
      removes_only_mono [OF deleteListed_removes] simp: order_perm matching_def)

lemmas parts_shrink = parts_remove [THEN removes_only_shrinks]

lemmas after_part = parts_remove [THEN clears_second]

lemma owned_clears:
  "clears (matching KPod ns (ownedBy v @ appSelector)) (deleteOwnedResources Q v ns)"
  "clears (matching KService ns (ownedBy v @ appSelector)) (deleteOwnedResources Q v ns)"
  "clears (matching KSecret ns (ownedBy v)) (deleteOwnedResources Q v ns)"
  "n \<in> set (restoreNames v) \<Longrightarrow> clears (matching KPVC ns (restoreSelector n)) (deleteOwnedResources Q v ns)"
  "served \<Longrightarrow> clears (matching KRoute ns (ownedBy v)) (deleteOwnedResources Q v ns)"
  "clears (accessTarget v ns) (deleteOwnedResources Q v ns)"
proof -
  note rest = clears_first shrinks_bind parts_shrink
  have pods: "clears (matching KPod ns (ownedBy v @ appSelector)) (deleteFileServerPods Q v ns)"
    and services: "clears (matching KService ns (ownedBy v @ appSelector)) (deleteFileServerServices Q v ns)"
    and secrets: "clears (matching KSecret ns (ownedBy v)) (deleteControllerSecrets Q v ns)"
    unfolding deleteFileServerPods_def deleteFileServerServices_def deleteControllerSecrets_def
    by (rule deleteListed_clears; simp)+
  show "clears (matching KPod ns (ownedBy v @ appSelector)) (deleteOwnedResources Q v ns)"
    unfolding deleteOwnedResources_def by (intro rest pods)
  show "clears (matching KService ns (ownedBy v @ appSelector)) (deleteOwnedResources Q v ns)"
    unfolding deleteOwnedResources_def by (rule after_part(1), intro rest services)
  show "clears (matching KSecret ns (ownedBy v)) (deleteOwnedResources Q v ns)"
    unfolding deleteOwnedResources_def
    by (rule after_part(1), rule after_part(2), rule after_part(4), rule after_part(5), intro rest secrets)
  show "clears (matching KPVC ns (restoreSelector n)) (deleteOwnedResources Q v ns)" if "n \<in> set (restoreNames v)"
    unfolding deleteOwnedResources_def
    by (rule after_part(1), rule after_part(2), rule after_part(4), intro rest pvcs_clear that)
  show "clears (matching KRoute ns (ownedBy v)) (deleteOwnedResources Q v ns)" if served
    unfolding deleteOwnedResources_def
    by (rule after_part(1), rule after_part(2), intro rest routes_clear that)
  show "clears (accessTarget v ns) (deleteOwnedResources Q v ns)"
    unfolding deleteOwnedResources_def
    by (rule after_part(1), rule after_part(2), rule after_part(4), rule after_part(5), rule after_part(3), rule access_clears)
qed

lemma resource_cleanup_clears:
  assumes run: "handleResourceCleanup Q v w = (Inr b, w1)"
    and fin: "oe_containsFinalizer Q (om_finalizers (vmfr_meta v)) VMFileRestoreFinalizer"
    and ns: "fs_createdNamespace (vmfr_status v) = ns" "ns \<noteq> []"
    and user: "oe_get Q KNamespace \<lparr>nn_namespace = [], nn_name = ns\<rparr> w = (Inr nso, w2)" "\<not> isTempNamespace nso"
    and x: "(k, m) \<in> live w1" and routes: "k = KRoute \<longrightarrow> served"
  shows "\<not> cleanupTarget v ns (stored w) (k, m)"
proof -
  have b: "bindR (deleteOwnedResources Q v ns) (\<lambda>_. finishCleanup Q v) w2 = (Inr b, w1)"
    using run fin ns user by (simp add: handleResourceCleanup_def)
  have c: "\<not> R (stored w) (k, m)" if "clears R (deleteOwnedResources Q v ns)" for R
    using clears_first [OF that, of "\<lambda>_. finishCleanup Q v"] patch_shrinks b x calls_stored(3) [OF user(1)]
    unfolding clears_def by metis
  show ?thesis
  proof
    assume t: "cleanupTarget v ns (stored w) (k, m)"
    show False
    proof (cases k)
      case KPVC
      then show False using t c [OF owned_clears(4)] by (auto simp: cleanupTarget_def matching_def)
    next
      case KRoute
      then show False using t c [OF owned_clears(5)] routes by (simp add: cleanupTarget_def matching_def)
    qed (use t c [OF owned_clears(1)] c [OF owned_clears(2)] c [OF owned_clears(3)] c [OF owned_clears(6)]
        in \<open>auto simp: cleanupTarget_def matching_def accessTarget_def\<close>)
  qed
qed

lemma restore_cleanup_clears:
  assumes run: "handleVeleroRestoreCleanup Q oadp v w = (Inr True, w1)" and x: "(KRestore, m) \<in> live w1"
  shows "\<not> (om_namespace m = oadp \<and> selected (ownedBy v) m)"
proof -
  define g where "g = (\<lambda>(_::unit) w. case oe_patchVMFR Q v (withoutFinalizer Q VeleroRestoreCleanupFinalizer v) w of
          (Inl e, w1) \<Rightarrow> (Inl (errorf_w ''failed to remove VeleroRestoreCleanupFinalizer: '' e), w1)
        | (Inr _, w1) \<Rightarrow> (Inr True, w1))"
  let ?d = "deleteListed Q KRestore ''Velero Restore'' ''Velero Restore objects'' oadp (ownedBy v)"
  have "shrinks (g u)" for u
    unfolding shrinks_def by (auto simp: g_def dest!: other_calls_live(3) split: prod.splits sum.splits)
  then have "clears (matching KRestore oadp (ownedBy v)) (bindR ?d g)"
    by (intro clears_first deleteListed_clears) simp_all
  moreover have "bindR ?d g w = (Inr True, w1)"
    using run unfolding handleVeleroRestoreCleanup_def g_def by (auto split: if_splits)
  ultimately show ?thesis using x by (fastforce simp: clears_def matching_def)
qed

text \<open>A restore namespace with the label of a temporary one goes with all it contains.\<close>

lemma temporary_namespace_deleted:
  assumes run: "handleResourceCleanup Q v w = (Inr b, w1)"
    and fin: "oe_containsFinalizer Q (om_finalizers (vmfr_meta v)) VMFileRestoreFinalizer"
    and nso: "(KNamespace, nso) \<in> live w" "key_of nso = \<lparr>nn_namespace = [], nn_name = ns\<rparr>" "isTempNamespace nso"
    and ns: "fs_createdNamespace (vmfr_status v) = ns" "ns \<noteq> []"
    and x: "(k, m) \<in> live w1"
  shows "om_namespace m \<noteq> ns \<and> (k, m) \<noteq> (KNamespace, nso)"
proof -
  obtain g wg where g: "oe_get Q KNamespace \<lparr>nn_namespace = [], nn_name = ns\<rparr> w = (g, wg)" by fastforce
  have r: "(case g of Inl e \<Rightarrow> if IsNotFound e then dropMainFinalizer Q v wg
        else (Inl (errorf_w ''failed to get restore namespace: '' e), wg)
      | Inr m \<Rightarrow> bindR (if isTempNamespace m then deleteNamespace Q m else deleteOwnedResources Q v ns) (\<lambda>_. finishCleanup Q v) wg) = (Inr b, w1)"
    using run fin ns g by (simp add: handleResourceCleanup_def)
  have "g = Inr nso"
  proof (cases g)
    case (Inl e)
    then have "IsNotFound e" using r by (auto split: if_splits)
    then show ?thesis using get_absent [OF g [unfolded Inl]] nso by blast
  next
    case (Inr m)
    then show ?thesis using get_current [OF g [unfolded Inr]] nso by blast
  qed
  then have b: "bindR (deleteNamespace Q nso) (\<lambda>_. finishCleanup Q v) wg = (Inr b, w1)" using r nso(3) by simp
  obtain d wd where d: "oe_delete Q KNamespace nso wg = (d, wd)" by fastforce
  have same: "live wg = live w" by (rule get_live [OF g])
  obtain u where u: "d = Inr u"
    using b d delete_absent [of KNamespace nso wg _ wd nso] nso(1) same
    by (cases d) (auto simp: deleteNamespace_def bindR_def split: if_splits)
  then have "live w1 = live wd" using b d patch_live(1) [of v wd "Inr b" w1] by (simp add: deleteNamespace_def bindR_def)
  moreover have "om_name nso = ns" using nso(2) by (simp add: key_of_def)
  ultimately show ?thesis using x delete_namespace [OF d [unfolded u]] by auto
qed

end

section \<open>A reference store\<close>

record ref_store =
  os_objects :: "((object_kind \<times> namespaced_name) \<times> object_meta) list"
  os_vmfrs :: "vmfr list"

definition ref_live :: "ref_store \<Rightarrow> (object_kind \<times> object_meta) set" where
  "ref_live w = {(k, m). map_of (os_objects w) (k, key_of m) = Some m}"

definition ref_get :: "object_kind \<Rightarrow> namespaced_name \<Rightarrow> (ref_store, object_meta) io" where
  "ref_get k nn w = (case map_of (os_objects w) (k, nn) of
     Some m \<Rightarrow> if key_of m = nn then (Inr m, w) else (Inl absent, w)
   | None \<Rightarrow> (Inl absent, w))"

definition ref_list :: "object_kind \<Rightarrow> string \<Rightarrow> strmap \<Rightarrow> (ref_store, object_meta list) io" where
  "ref_list k ns sel w = (Inr (filter (\<lambda>m. map_of (os_objects w) (k, key_of m) = Some m \<and> om_namespace m = ns \<and> selected sel m)
     (map snd (os_objects w))), w)"

definition ref_delete :: "object_kind \<Rightarrow> object_meta \<Rightarrow> (ref_store, unit) io" where
  "ref_delete k m w = (if map_of (os_objects w) (k, key_of m) = None then (Inl absent, w)
     else (Inr (), w \<lparr>os_objects := filter (\<lambda>(kn, m'). kn \<noteq> (k, key_of m) \<and> \<not> (k = KNamespace \<and> nn_namespace (snd kn) = om_name m)) (os_objects w)\<rparr>))"

definition ref_object_env :: "bool \<Rightarrow> ref_store object_env" where
  "ref_object_env openshift = \<lparr>oe_get = ref_get, oe_list = ref_list, oe_delete = ref_delete,
     oe_listAllVMFRs = (\<lambda>w. (Inr (os_vmfrs w), w)),
     oe_probeRoutes = (\<lambda>w. (if openshift then Inr () else Inl (errorf ''no matches for kind Route''), w)),
     oe_patchVMFR = (\<lambda>b v w. (Inr v, w \<lparr>os_vmfrs := v # filter (\<lambda>u. key_of (vmfr_meta u) \<noteq> key_of (vmfr_meta v)) (os_vmfrs w)\<rparr>)),
     oe_containsFinalizer = (\<lambda>fs f. f \<in> set fs), oe_removeFinalizer = (\<lambda>fs f. filter (\<lambda>g. g \<noteq> f) fs), oe_nameOrder = rev\<rparr>"

lemma map_of_filter_keys: "map_of (filter (\<lambda>(k, v). P k) xs) k = (if P k then map_of xs k else None)"
  by (induction xs) auto

definition ref_stored :: "ref_store \<Rightarrow> vmfr set" where
  "ref_stored w = set (os_vmfrs w)"

interpretation refstore: object_store "ref_object_env os" ref_live ref_stored for os
proof
  fix m w w1 and u :: unit
  assume "oe_delete (ref_object_env os) KNamespace m w = (Inr u, w1)"
  then have "w1 = w \<lparr>os_objects := filter (\<lambda>(kn, m'). kn \<noteq> (KNamespace, key_of m) \<and> nn_namespace (snd kn) \<noteq> om_name m) (os_objects w)\<rparr>"
    by (auto simp: ref_object_env_def ref_delete_def split: if_splits)
  then show "ref_live w1 = {(k', m') \<in> ref_live w. \<not> (k' = KNamespace \<and> key_of m' = key_of m) \<and> om_namespace m' \<noteq> om_name m}"
    using map_of_filter_keys [of "\<lambda>kn. kn \<noteq> (KNamespace, key_of m) \<and> nn_namespace (snd kn) \<noteq> om_name m" "os_objects w"]
    by (auto simp: ref_live_def key_of_def split: if_splits)
next
  fix k m w w1 and u :: unit
  assume "oe_delete (ref_object_env os) k m w = (Inr u, w1)" and k: "k \<noteq> KNamespace"
  then have "w1 = w \<lparr>os_objects := filter (\<lambda>(kn, m'). kn \<noteq> (k, key_of m)) (os_objects w)\<rparr>"
    by (auto simp: ref_object_env_def ref_delete_def split: if_splits)
  then show "ref_live w1 = {(k', m') \<in> ref_live w. \<not> (k' = k \<and> key_of m' = key_of m)}"
    by (auto simp: ref_live_def map_of_filter_keys)
next
  fix k ns sel w ms w1 m
  assume "oe_list (ref_object_env os) k ns sel w = (Inr ms, w1)" and "(k, m) \<in> ref_live w" "om_namespace m = ns" "selected sel m"
  moreover from this(2) have "m \<in> set (map snd (os_objects w))" by (force simp: ref_live_def dest: map_of_SomeD)
  ultimately show "m \<in> set ms" by (simp add: ref_object_env_def ref_list_def ref_live_def del: set_map) (elim conjE, hypsubst, simp del: set_map)
qed (auto simp: ref_object_env_def ref_get_def ref_list_def ref_delete_def ref_live_def ref_stored_def
      split: option.splits if_splits)

section \<open>Properties\<close>

text \<open>C4. Deleting a file restore whose restore namespace was given by the user requests the deletion of its own
  resources and of nothing else, whether or not an error cuts the cleanup short: pods and services of its file server,
  routes and secrets that carry its UID, claims restored by its Velero restores, and the managed access
  resources, all of them in that namespace. The access resources go only when no other file restore that is not being
  deleted has the same restore namespace.\<close>

theorem cleanup_removes_only_own:
  assumes "object_store Q live stored" and "handleResourceCleanup Q v w = (r, w1)"
    and "\<forall>nso w2. oe_get Q KNamespace \<lparr>nn_namespace = [], nn_name = fs_createdNamespace (vmfr_status v)\<rparr> w = (Inr nso, w2)
      \<longrightarrow> \<not> isTempNamespace nso"
    and "(k, m) \<in> live w" and "(k, m) \<notin> live w1"
  shows "cleanupTarget v (fs_createdNamespace (vmfr_status v)) (stored w) (k, m)"
proof -
  have "live w - live w1 \<subseteq> Collect (cleanupTarget v (fs_createdNamespace (vmfr_status v)) (stored w))"
    using object_store.resource_cleanup_removes [OF assms(1,2)] assms(3) by blast
  then show ?thesis using assms(4,5) by blast
qed

definition demo_store :: ref_store where
  "demo_store = \<lparr>os_objects =
     [((KNamespace, \<lparr>nn_namespace = [], nn_name = ''user''\<rparr>), empty_meta \<lparr>om_name := ''user''\<rparr>),
      ((KPod, \<lparr>nn_namespace = ''user'', nn_name = ''p1''\<rparr>), empty_meta \<lparr>om_name := ''p1'', om_namespace := ''user'',
         om_labels := [(VMFROriginUUIDLabel, ''1a2b''), (''app'', ''vmfr-file-server'')]\<rparr>),
      ((KPod, \<lparr>nn_namespace = ''user'', nn_name = ''p2''\<rparr>), empty_meta \<lparr>om_name := ''p2'', om_namespace := ''user''\<rparr>),
      ((KRestore, \<lparr>nn_namespace = ''adp'', nn_name = ''r1''\<rparr>), empty_meta \<lparr>om_name := ''r1'', om_namespace := ''adp'',
         om_labels := [(VMFROriginUUIDLabel, ''1a2b'')]\<rparr>)],
     os_vmfrs = []\<rparr>"

definition demo_deleted_vmfr :: vmfr where
  "demo_deleted_vmfr = demo_vmfr
     \<lparr>vmfr_meta := (vmfr_meta demo_vmfr) \<lparr>om_finalizers := [VeleroRestoreCleanupFinalizer, VMFileRestoreFinalizer], om_deletion := Some 9\<rparr>,
      vmfr_status := (vmfr_status demo_vmfr) \<lparr>fs_createdNamespace := ''user''\<rparr>\<rparr>"

lemma demo_cleanup_run:
  "case handleResourceCleanup (ref_object_env False) demo_deleted_vmfr demo_store of (r, w1) \<Rightarrow>
     r = Inr False \<and> map fst (os_objects w1) = [(KNamespace, \<lparr>nn_namespace = [], nn_name = ''user''\<rparr>),
         (KPod, \<lparr>nn_namespace = ''user'', nn_name = ''p2''\<rparr>), (KRestore, \<lparr>nn_namespace = ''adp'', nn_name = ''r1''\<rparr>)]"
  by code_simp

lemma demo_user_namespace:
  "oe_get (ref_object_env False) KNamespace \<lparr>nn_namespace = [], nn_name = ''user''\<rparr> demo_store
     = (Inr (empty_meta \<lparr>om_name := ''user''\<rparr>), demo_store)"
  "\<not> isTempNamespace (empty_meta \<lparr>om_name := ''user''\<rparr>)" "fs_createdNamespace (vmfr_status demo_deleted_vmfr) = ''user''"
  by (simp_all add: ref_object_env_def ref_get_def demo_store_def key_of_def empty_meta_def isTempNamespace_def
      demo_deleted_vmfr_def)

definition demo_pod :: object_meta where
  "demo_pod = snd (os_objects demo_store ! 1)"

lemma demo_pod_live: "(KPod, demo_pod) \<in> ref_live demo_store" "key_of demo_pod = \<lparr>nn_namespace = ''user'', nn_name = ''p1''\<rparr>"
  by (simp_all add: ref_live_def demo_store_def demo_pod_def key_of_def)

theorem cleanup_removes_only_own_witness:
  "\<exists>w1. handleResourceCleanup (ref_object_env False) demo_deleted_vmfr demo_store = (Inr False, w1)
     \<and> (KPod, demo_pod) \<notin> ref_live w1 \<and> cleanupTarget demo_deleted_vmfr ''user'' {} (KPod, demo_pod)"
proof -
  obtain w1 where run: "handleResourceCleanup (ref_object_env False) demo_deleted_vmfr demo_store = (Inr False, w1)"
    and left: "map fst (os_objects w1) = [(KNamespace, \<lparr>nn_namespace = [], nn_name = ''user''\<rparr>),
         (KPod, \<lparr>nn_namespace = ''user'', nn_name = ''p2''\<rparr>), (KRestore, \<lparr>nn_namespace = ''adp'', nn_name = ''r1''\<rparr>)]"
    using demo_cleanup_run by (auto split: prod.splits)
  have "(KPod, key_of demo_pod) \<notin> set (map fst (os_objects w1))" unfolding left demo_pod_live(2) by simp
  then have gone: "(KPod, demo_pod) \<notin> ref_live w1" by (force simp: ref_live_def dest: map_of_SomeD)
  have "cleanupTarget demo_deleted_vmfr (fs_createdNamespace (vmfr_status demo_deleted_vmfr)) (ref_stored demo_store) (KPod, demo_pod)"
    by (rule cleanup_removes_only_own [OF refstore.object_store_axioms run _ demo_pod_live(1) gone])
       (simp add: demo_user_namespace)
  moreover have "ref_stored demo_store = {}" by (simp add: ref_stored_def demo_store_def)
  ultimately show ?thesis using run gone demo_user_namespace(3) by simp
qed

text \<open>C16. A cleanup that succeeds leaves nothing behind: after the first finalizer was removed no Velero restore of
  this file restore is live in the OADP namespace; after the second one none of its pods, services, secrets
  and restored claims is live in a restore namespace given by the user, nor are the managed access resources unless
  another file restore uses that namespace, nor are its routes on a cluster where the probe for routes does not fail.\<close>

theorem cleanup_complete:
  assumes "object_store Q live stored"
  shows "(handleVeleroRestoreCleanup Q oadp v w = (Inr True, wr)
      \<longrightarrow> (\<forall>m. (KRestore, m) \<in> live wr \<longrightarrow> \<not> (om_namespace m = oadp \<and> selected (ownedBy v) m)))
    \<and> (handleResourceCleanup Q v w = (Inr b, w1) \<and> fs_createdNamespace (vmfr_status v) = ns \<and> ns \<noteq> []
      \<and> oe_containsFinalizer Q (om_finalizers (vmfr_meta v)) VMFileRestoreFinalizer
      \<and> oe_get Q KNamespace \<lparr>nn_namespace = [], nn_name = ns\<rparr> w = (Inr nso, w2) \<and> \<not> isTempNamespace nso
      \<longrightarrow> (\<forall>k m. (k, m) \<in> live w1 \<and> (k = KRoute \<longrightarrow> (\<forall>wp e wq. oe_probeRoutes Q wp \<noteq> (Inl e, wq)))
            \<longrightarrow> \<not> cleanupTarget v ns (stored w) (k, m)))"
  using object_store.restore_cleanup_clears [OF assms, of oadp v w wr]
    object_store.resource_cleanup_clears [OF assms, of v w b w1 ns nso w2] object_store.served_def [OF assms] by blast

theorem cleanup_complete_witness:
  "\<exists>w1. handleResourceCleanup (ref_object_env False) demo_deleted_vmfr demo_store = (Inr False, w1)
     \<and> (\<forall>k m. (k, m) \<in> ref_live w1 \<and> k \<noteq> KRoute \<longrightarrow> \<not> cleanupTarget demo_deleted_vmfr ''user'' (ref_stored demo_store) (k, m))"
proof -
  obtain w1 where run: "handleResourceCleanup (ref_object_env False) demo_deleted_vmfr demo_store = (Inr False, w1)"
    using demo_cleanup_run by (auto split: prod.splits)
  have "oe_containsFinalizer (ref_object_env False) (om_finalizers (vmfr_meta demo_deleted_vmfr)) VMFileRestoreFinalizer"
    by (simp add: ref_object_env_def demo_deleted_vmfr_def)
  then show ?thesis
    using cleanup_complete [OF refstore.object_store_axioms, of False "''adp''" demo_deleted_vmfr demo_store demo_store False w1
        "''user''" "empty_meta \<lparr>om_name := ''user''\<rparr>" demo_store] run demo_user_namespace by blast
qed

definition demo_shared_store :: ref_store where
  "demo_shared_store = \<lparr>os_objects =
     [((KNamespace, \<lparr>nn_namespace = [], nn_name = ''user''\<rparr>), empty_meta \<lparr>om_name := ''user'',
         om_labels := [(VMFROriginUUIDLabel, ''another''), (VMFRTempNamespaceLabel, TrueString)]\<rparr>),
      ((KPod, \<lparr>nn_namespace = ''user'', nn_name = ''p9''\<rparr>), empty_meta \<lparr>om_name := ''p9'', om_namespace := ''user'',
         om_labels := [(VMFROriginUUIDLabel, ''another''), (''app'', ''vmfr-file-server'')]\<rparr>)],
     os_vmfrs = []\<rparr>"

text \<open>C34. The ownership of a temporary namespace is not checked: when the restore namespace carries the label of a
  temporary namespace, the deletion of a file restore with that restore namespace, when it succeeds, has deleted the
  namespace with all it contains, although the UID label says that the namespace was created for another file
  restore, as can happen when a user names it in \<open>RestoreNamespace\<close>.\<close>

theorem foreign_temporary_namespace_deleted:
  assumes "object_store Q live stored" and "handleResourceCleanup Q v w = (Inr b, w1)"
    and "oe_containsFinalizer Q (om_finalizers (vmfr_meta v)) VMFileRestoreFinalizer"
    and "(KNamespace, nso) \<in> live w" and "key_of nso = \<lparr>nn_namespace = [], nn_name = fs_createdNamespace (vmfr_status v)\<rparr>"
    and "fs_createdNamespace (vmfr_status v) \<noteq> []" and "map_of (om_labels nso) VMFRTempNamespaceLabel = Some TrueString"
    and "map_of (om_labels nso) VMFROriginUUIDLabel = Some owner" and "owner \<noteq> om_uid (vmfr_meta v)"
  shows "(KNamespace, nso) \<notin> live w1 \<and> (\<forall>(k, m)\<in>live w1. om_namespace m \<noteq> fs_createdNamespace (vmfr_status v))"
proof -
  have "isTempNamespace nso" using assms(7) by (simp add: isTempNamespace_def)
  then show ?thesis
    using object_store.temporary_namespace_deleted [OF assms(1-5) _ refl assms(6)] by blast
qed

lemma demo_foreign_run: "\<exists>w1. handleResourceCleanup (ref_object_env False) demo_deleted_vmfr demo_shared_store = (Inr False, w1)"
proof -
  have "fst (handleResourceCleanup (ref_object_env False) demo_deleted_vmfr demo_shared_store) = Inr False" by code_simp
  then show ?thesis by (metis prod.collapse)
qed

theorem foreign_temporary_namespace_deleted_witness:
  "\<exists>w1. handleResourceCleanup (ref_object_env False) demo_deleted_vmfr demo_shared_store = (Inr False, w1)
     \<and> (KPod, snd (os_objects demo_shared_store ! 1)) \<in> ref_live demo_shared_store
     \<and> (KPod, snd (os_objects demo_shared_store ! 1)) \<notin> ref_live w1"
proof -
  obtain w1 where run: "handleResourceCleanup (ref_object_env False) demo_deleted_vmfr demo_shared_store = (Inr False, w1)"
    using demo_foreign_run by blast
  let ?nso = "snd (os_objects demo_shared_store ! 0)"
  have ns: "fs_createdNamespace (vmfr_status demo_deleted_vmfr) = ''user''" "om_uid (vmfr_meta demo_deleted_vmfr) = ''1a2b''"
    by (simp_all add: demo_deleted_vmfr_def demo_vmfr_def)
  have keys: "VMFRTempNamespaceLabel \<noteq> VMFROriginUUIDLabel" by (simp add: label_defs)
  have gone: "\<forall>(k, m)\<in>ref_live w1. om_namespace m \<noteq> fs_createdNamespace (vmfr_status demo_deleted_vmfr)"
    by (rule conjunct2 [OF foreign_temporary_namespace_deleted [OF refstore.object_store_axioms run, where nso = ?nso and owner = "''another''"]])
       (simp_all add: ns keys not_sym [OF keys], simp_all add: ref_object_env_def demo_deleted_vmfr_def ref_live_def demo_shared_store_def key_of_def keys empty_meta_def)
  have pod: "om_namespace (snd (os_objects demo_shared_store ! 1)) = ''user''"
    "(KPod, snd (os_objects demo_shared_store ! 1)) \<in> ref_live demo_shared_store"
    by (simp_all add: demo_shared_store_def ref_live_def key_of_def)
  then show ?thesis using run gone unfolding ns by blast
qed

end
