(* ===== verification/Restore_Env.thy ===== *)
theory Restore_Env
  imports Restore_Cleanup
begin

text \<open>
  The Kubernetes, Velero and OpenShift objects the restore workflow of the file restore controller reads and
  writes in the restore namespace, reduced to the fields it uses, and the API calls on them as the fields of
  \<open>restore_env\<close>. A creation returns the object with the name the server gave it.
\<close>

text \<open>\<open>rbacv1.RoleRef\<close>, \<open>rbacv1.Subject\<close>, \<open>rbacv1.RoleBinding\<close>\<close>

record role_ref =
  rr_apiGroup :: string
  rr_kind :: string
  rr_name :: string

record rbac_subject =
  su_kind :: string
  su_apiGroup :: string
  su_name :: string
  su_namespace :: string

record role_binding =
  rb_meta :: object_meta
  rb_roleRef :: role_ref
  rb_subjects :: "rbac_subject list"

text \<open>\<open>corev1.PersistentVolumeClaim\<close>; an unset volume mode is \<^const>\<open>None\<close>.\<close>

record claim =
  cl_meta :: object_meta
  cl_phase :: string
  cl_volumeMode :: "string option"

text \<open>\<open>corev1.Service\<close> with the names and numbers of its ports, \<open>routev1.Route\<close> with the host of its spec and those of its
  ingress status.\<close>

record service =
  sv_meta :: object_meta
  sv_ports :: "(string \<times> int) list"

record route =
  rt_meta :: object_meta
  rt_host :: string
  rt_ingressHosts :: "string list"

text \<open>\<open>velerov2alpha1.DataDownload\<close>\<close>

record data_download =
  dd_meta :: object_meta
  dd_targetPVC :: string
  dd_phase :: string

text \<open>The cryptographic library and random bytes come with the world, since each use gives new keys; keys are byte strings.\<close>

record 'w restore_env =
  re_vmfr :: "'w vmfr_env"
  re_objects :: "'w object_env"
  re_createNamespace :: "object_meta \<Rightarrow> ('w, object_meta) io"
  re_createServiceAccount :: "object_meta \<Rightarrow> ('w, object_meta) io"
  re_readServiceAccount :: "namespaced_name \<Rightarrow> ('w, object_meta) io"
  re_getRoleBinding :: "namespaced_name \<Rightarrow> ('w, role_binding) io"
  re_createRoleBinding :: "role_binding \<Rightarrow> ('w, role_binding) io"
  re_readRoleBinding :: "namespaced_name \<Rightarrow> ('w, role_binding) io"
  re_listClaims :: "string \<Rightarrow> strmap \<Rightarrow> ('w, claim list) io"
  re_getClaim :: "namespaced_name \<Rightarrow> ('w, claim) io"
  re_getSecret :: "namespaced_name \<Rightarrow> ('w, secret) io"
  re_listSecrets :: "string \<Rightarrow> strmap \<Rightarrow> ('w, secret list) io"
  re_createSecret :: "secret \<Rightarrow> ('w, secret) io"
  re_listServices :: "string \<Rightarrow> strmap \<Rightarrow> ('w, service list) io"
  re_getRoute :: "namespaced_name \<Rightarrow> ('w, route) io"
  re_listDataDownloads :: "string \<Rightarrow> strmap \<Rightarrow> ('w, data_download list) io"
  re_patchDataDownload :: "data_download \<Rightarrow> string \<Rightarrow> ('w, unit) io"
  re_parseKey :: "string \<Rightarrow> string result"
  re_crypto :: "'w \<Rightarrow> (string, string, string) crypto \<times> 'w"
  re_randomBytes :: "('w, nat list) io"

abbreviation vmfr_name :: "vmfr \<Rightarrow> string" where "vmfr_name v \<equiv> om_name (vmfr_meta v)"
abbreviation vmfr_uid :: "vmfr \<Rightarrow> string" where "vmfr_uid v \<equiv> om_uid (vmfr_meta v)"
abbreviation restoreNs :: "vmfr \<Rightarrow> string" where "restoreNs v \<equiv> fs_createdNamespace (vmfr_status v)"

text \<open>\<open>fmt.Sprintf\<close> with single quotes around a value\<close>

definition quoted :: "string \<Rightarrow> string" where
  "quoted s = [chr 39] @ s @ [chr 39]"

end
