(* ===== verification/Restore_Claims.thy ===== *)
theory Restore_Claims
  imports Restore_Env
begin

text \<open>
  The restored claims of a file restore: which of them to mount, where they are in the restore namespace, whether
  they are usable (\<open>extractPVCMountsFromVMFR\<close>, \<open>findRestoredPVCName\<close>, \<open>validateRestoredPVCs\<close>), the correction of the
  claim names in Velero's data downloads (\<open>fixDataDownloadPVCNames\<close>) and the access information published in
  the status (\<open>findRouteHost\<close>, \<open>findSecretByLabels\<close>, \<open>updateFileServingInfo\<close>).
\<close>

section \<open>Claims to mount\<close>

record pvc_mount =
  mt_pvcName :: string
  mt_pvcNamespace :: string
  mt_pvcUID :: string
  mt_backupName :: string
  mt_timestamp :: "time option"
  mt_restoreName :: string
  mt_restoredPVC :: string
  mt_volumeMode :: "string option"

definition mountable :: "restore_info \<Rightarrow> bool" where
  "mountable r \<longleftrightarrow> (ri_phase r = ''Completed'' \<or> ri_phase r = ''Finalizing'') \<and> ri_state r = StateAvailable"

definition mountOf :: "pvc_restore_info \<Rightarrow> restore_info \<Rightarrow> pvc_mount" where
  "mountOf p r = \<lparr>mt_pvcName = PVCName (pr_pvc p), mt_pvcNamespace = PVCNamespace (pr_pvc p), mt_pvcUID = pr_uid p,
     mt_backupName = ri_backupName r, mt_timestamp = ri_timestamp r, mt_restoreName = ri_restoreName r,
     mt_restoredPVC = [], mt_volumeMode = None\<rparr>"

definition extractPVCMountsFromVMFR :: "vmfr \<Rightarrow> pvc_mount list" where
  "extractPVCMountsFromVMFR v = concat (map (\<lambda>p. if isSynthetic p then [] else map (mountOf p) (filter mountable (pr_restores p)))
     (fs_pvcRestores (vmfr_status v)))"

section \<open>Finding a restored claim\<close>

definition labelValue :: "object_meta \<Rightarrow> string \<Rightarrow> string" where
  "labelValue m k = (case map_of (om_labels m) k of None \<Rightarrow> [] | Some x \<Rightarrow> x)"

definition findRestoredPVCName :: "'w restore_env \<Rightarrow> string \<Rightarrow> string \<Rightarrow> string \<Rightarrow> ('w, string) io" where
  "findRestoredPVCName E ns restoreName origName w = (case re_listClaims E ns (restoreSelector restoreName) w of
     (Inl e, w1) \<Rightarrow> (Inl (errorf_w (''failed to list PVCs for restore '' @ restoreName @ '': '') e), w1)
   | (Inr cs, w1) \<Rightarrow>
      (case find (\<lambda>c. om_labels (cl_meta c) \<noteq> [] \<and> labelValue (cl_meta c) VMFROriginalPVCNameAnnotation = origName) cs of
         Some c \<Rightarrow> (Inr (om_name (cl_meta c)), w1)
       | None \<Rightarrow> (Inl (errorf (''PVC not found for restore '' @ restoreName @ '' with original name '' @ origName)), w1)))"

fun checkMounts :: "'w restore_env \<Rightarrow> string \<Rightarrow> pvc_mount list \<Rightarrow> bool \<Rightarrow> ('w, bool) io" where
  "checkMounts E ns [] allValid w = (Inr allValid, w)"
| "checkMounts E ns (m # ms) allValid w = (case findRestoredPVCName E ns (mt_restoreName m) (mt_pvcName m) w of
     (Inl _, w1) \<Rightarrow> checkMounts E ns ms False w1
   | (Inr name, w1) \<Rightarrow>
      (case re_getClaim E \<lparr>nn_namespace = ns, nn_name = name\<rparr> w1 of
         (Inl e, w2) \<Rightarrow> (Inl (errorf_w (''failed to get PVC '' @ name @ '': '') e), w2)
       | (Inr c, w2) \<Rightarrow>
          if cl_phase c = ''Lost'' then (Inl (errorf (''PVC '' @ mt_pvcName m @ '' is in Lost state'')), w2)
          else checkMounts E ns ms allValid w2))"

definition validateRestoredPVCs :: "'w restore_env \<Rightarrow> vmfr \<Rightarrow> ('w, bool) io" where
  "validateRestoredPVCs E v =
    (if restoreNs v = [] then failR (errorf ''restore namespace not found in status'')
     else if extractPVCMountsFromVMFR v = [] then failR (errorf ''no completed PVC restores found'')
     else checkMounts E (restoreNs v) (extractPVCMountsFromVMFR v) True)"

section \<open>Data downloads\<close>

definition ownerRestore :: "data_download \<Rightarrow> string" where
  "ownerRestore d = (case find (\<lambda>r. or_kind r = ''Restore'' \<and> or_apiVersion r = ''velero.io/v1'') (om_owners (dd_meta d)) of
     None \<Rightarrow> [] | Some r \<Rightarrow> or_name r)"

text \<open>Restores whose data downloads cannot be listed are passed over.\<close>

fun collectDownloads :: "'w restore_env \<Rightarrow> velero_restore list \<Rightarrow> 'w \<Rightarrow> data_download list \<times> 'w" where
  "collectDownloads E [] w = ([], w)"
| "collectDownloads E (r # rs) w =
    (let (l, w1) = re_listDataDownloads E (fe_oadpNamespace (re_vmfr E)) (restoreSelector (vr_name r)) w;
         (ds, w2) = collectDownloads E rs w1
     in ((case l of Inl _ \<Rightarrow> [] | Inr xs \<Rightarrow> xs) @ ds, w2))"

definition fixDownload :: "'w restore_env \<Rightarrow> string \<Rightarrow> data_download \<Rightarrow> nat \<Rightarrow> ('w, nat) io" where
  "fixDownload E ns d fixed w =
    (if dd_phase d \<noteq> [] \<and> dd_phase d \<noteq> ''New'' then (Inr fixed, w)
     else if ownerRestore d = [] then (Inr fixed, w)
     else if dd_targetPVC d = [] then (Inr fixed, w)
     else (case findRestoredPVCName E ns (ownerRestore d) (dd_targetPVC d) w of
        (Inl _, w1) \<Rightarrow> (Inr fixed, w1)
      | (Inr actual, w1) \<Rightarrow>
         if actual = dd_targetPVC d then (Inr fixed, w1)
         else (case re_patchDataDownload E d actual w1 of
            (Inl e, w2) \<Rightarrow> (Inl (errorf_w (''failed to patch DataDownload '' @ om_name (dd_meta d) @ '': '') e), w2)
          | (Inr _, w2) \<Rightarrow> (Inr (fixed + 1), w2))))"

definition fixDataDownloadPVCNames :: "'w restore_env \<Rightarrow> vmfr \<Rightarrow> ('w, nat) io" where
  "fixDataDownloadPVCNames E v w =
    (if restoreNs v = [] then (Inr 0, w)
     else (case fe_listRestores (re_vmfr E) (fe_oadpNamespace (re_vmfr E)) (ownedBy v) w of
        (Inl e, w1) \<Rightarrow> (Inl (errorf_w ''failed to list Velero Restores: '' e), w1)
      | (Inr rs, w1) \<Rightarrow>
         if rs = [] then (Inr 0, w1)
         else (let (ds, w2) = collectDownloads E rs w1 in foldR (fixDownload E (restoreNs v)) ds 0 w2)))"

section \<open>Access information\<close>

definition findRouteHost :: "'w restore_env \<Rightarrow> string \<Rightarrow> string \<Rightarrow> ('w, string) io" where
  "findRouteHost E ns name w = (case re_getRoute E \<lparr>nn_namespace = ns, nn_name = name\<rparr> w of
     (Inl e, w1) \<Rightarrow> if IsNotFound e then (Inr [], w1) else (Inl e, w1)
   | (Inr r, w1) \<Rightarrow>
      (Inr (if rt_host r \<noteq> [] then rt_host r
            else case find (\<lambda>h. h \<noteq> []) (rt_ingressHosts r) of None \<Rightarrow> [] | Some h \<Rightarrow> h), w1))"

text \<open>\<open>%v\<close> prints a map with its keys sorted.\<close>

definition showCredentialLabels :: "string \<Rightarrow> string \<Rightarrow> string" where
  "showCredentialLabels uid ctype =
     ''map['' @ CredentialTypeLabel @ '':'' @ ctype @ '' '' @ VMFROriginUUIDLabel @ '':'' @ uid @ '']''"

definition findSecretByLabels :: "'w restore_env \<Rightarrow> string \<Rightarrow> string \<Rightarrow> string \<Rightarrow> ('w, string) io" where
  "findSecretByLabels E ns uid ctype w =
    (case re_listSecrets E ns [(VMFROriginUUIDLabel, uid), (CredentialTypeLabel, ctype)] w of
       (Inl e, w1) \<Rightarrow> (Inl (errorf_w (''failed to list secrets with labels '' @ showCredentialLabels uid ctype @ '': '') e), w1)
     | (Inr [], w1) \<Rightarrow> (Inl (errorf (''no secret found with labels '' @ showCredentialLabels uid ctype @ '' in namespace '' @ ns)), w1)
     | (Inr (s # _), w1) \<Rightarrow> (Inr (om_name (sec_meta s)), w1))"

definition portNamed :: "string \<Rightarrow> service \<Rightarrow> int" where
  "portNamed n s = (case find (\<lambda>p. fst p = n) (sv_ports s) of None \<Rightarrow> 0 | Some p \<Rightarrow> snd p)"

definition clusterURL :: "string \<Rightarrow> service \<Rightarrow> string \<Rightarrow> int \<Rightarrow> string" where
  "clusterURL scheme s ns port = (if port > 0
     then scheme @ ''://'' @ om_name (sv_meta s) @ ''.'' @ ns @ ''.svc.cluster.local:'' @ decimal (nat port) else [])"

text \<open>An error in the search for the secret leaves the reference unset.\<close>

definition secretRef :: "'w restore_env \<Rightarrow> vmfr \<Rightarrow> string \<Rightarrow> 'w \<Rightarrow> secret_reference option \<times> 'w" where
  "secretRef E v ctype w = (case findSecretByLabels E (restoreNs v) (vmfr_uid v) ctype w of
     (Inl _, w1) \<Rightarrow> (None, w1)
   | (Inr n, w1) \<Rightarrow> (Some \<lparr>sr_name = n, sr_namespace = restoreNs v\<rparr>, w1))"

definition sshInfo :: "'w restore_env \<Rightarrow> vmfr \<Rightarrow> service \<Rightarrow> 'w \<Rightarrow> ssh_serving_info \<times> 'w" where
  "sshInfo E v s w = (let (ref, w1) = secretRef E v CredentialTypeSSH w
     in (\<lparr>ss_clusterAccess = clusterURL ''ssh'' s (restoreNs v) (portNamed ''ssh'' s), ss_secretRef = ref\<rparr>, w1))"

text \<open>The route name is normalised with a suffix for which normalisation does not panic.\<close>

definition publicAccess :: "'w restore_env \<Rightarrow> vmfr \<Rightarrow> filebrowser_access_spec \<Rightarrow> 'w \<Rightarrow> string \<times> 'w" where
  "publicAccess E v fb w =
    (if fb_exposeExternally fb then
       (case NormalizeDNS1123Label (vmfr_name v) ''filebrowser'' of
          None \<Rightarrow> ([], w)
        | Some routeName \<Rightarrow>
           (case findRouteHost E (restoreNs v) routeName w of
              (Inl _, w1) \<Rightarrow> ([], w1)
            | (Inr h, w1) \<Rightarrow> (if h = [] then [] else ''https://'' @ h, w1)))
     else ([], w))"

definition fileBrowserInfo :: "'w restore_env \<Rightarrow> vmfr \<Rightarrow> filebrowser_access_spec \<Rightarrow> service \<Rightarrow> 'w \<Rightarrow> filebrowser_serving_info \<times> 'w" where
  "fileBrowserInfo E v fb s w =
    (let (ref, w1) = secretRef E v CredentialTypeFileBrowser w; (pub, w2) = publicAccess E v fb w1
     in (\<lparr>fs_clusterAccess = clusterURL ''https'' s (restoreNs v) (portNamed ''https'' s), fs_publicAccess = pub, fs_secretRef = ref\<rparr>, w2))"

definition sshSpec :: "vmfr \<Rightarrow> ssh_access_spec option" where
  "sshSpec v = (case FileAccess (vmfr_spec v) of None \<Rightarrow> None | Some a \<Rightarrow> fa_ssh a)"

definition fileBrowserSpec :: "vmfr \<Rightarrow> filebrowser_access_spec option" where
  "fileBrowserSpec v = (case FileAccess (vmfr_spec v) of None \<Rightarrow> None | Some a \<Rightarrow> fa_fileBrowser a)"

definition setServingInfo :: "file_serving_info \<Rightarrow> vmfr \<Rightarrow> vmfr" where
  "setServingInfo i v = v \<lparr>vmfr_status := (vmfr_status v) \<lparr>fs_fileServingInfo := Some i\<rparr>\<rparr>"

text \<open>The object is changed in memory only, also when the function ends with an error; the first component is
  that error.\<close>

definition updateFileServingInfo :: "'w restore_env \<Rightarrow> vmfr \<Rightarrow> service \<Rightarrow> 'w \<Rightarrow> (go_error option \<times> vmfr) \<times> 'w" where
  "updateFileServingInfo E v s w =
    (let i0 = \<lparr>fi_podName = vmfr_name v @ ''-fileserver'', fi_ssh = None, fi_fileBrowser = None\<rparr>
     in if restoreNs v = [] then ((Some (errorf ''restore namespace not set in status''), setServingInfo i0 v), w)
        else (let (ssh, w1) = (case sshSpec v of None \<Rightarrow> (None, w) | Some _ \<Rightarrow> (let (i, wa) = sshInfo E v s w in (Some i, wa)));
                  (fb, w2) = (case fileBrowserSpec v of None \<Rightarrow> (None, w1)
                     | Some f \<Rightarrow> (let (i, wa) = fileBrowserInfo E v f s w1 in (Some i, wa)))
              in ((None, setServingInfo (i0 \<lparr>fi_ssh := ssh, fi_fileBrowser := fb\<rparr>) v), w2)))"

end
