(* ===== verification/File_Server_Types.thy ===== *)
theory File_Server_Types
  imports Restore_Claims
begin

text \<open>
  The Kubernetes objects the file server consists of, reduced to the fields
  \<open>internal/controller/fileserver_helpers.go\<close> sets, and the configuration structures of that file. A pointer
  field is an option; quantities are the strings or numbers of bytes the code gives.
\<close>

section \<open>Pods\<close>

datatype volume_source =
    PersistentVolumeClaimVolume (claimName: string) (claimReadOnly: bool)
  | EmptyDirVolume (emptyMedium: string) (emptySizeLimit: "int option")
  | HostPathVolume (hostPath: string) (hostPathType: string)
  | SecretVolume (secretName: string) (secretMode: nat)

record volume =
  vol_name :: string
  vol_source :: volume_source

datatype mount_propagation = MountPropagationBidirectional | MountPropagationHostToContainer

record volume_mount =
  vm_name :: string
  vm_path :: string
  vm_subPath :: string
  vm_readOnly :: bool
  vm_propagation :: "mount_propagation option"

record volume_device =
  vd_name :: string
  vd_path :: string

record capabilities =
  cap_add :: "string list"
  cap_drop :: "string list"

record security_context =
  sc_privileged :: "bool option"
  sc_runAsUser :: "int option"
  sc_runAsGroup :: "int option"
  sc_runAsNonRoot :: "bool option"
  sc_readOnlyRoot :: "bool option"
  sc_allowEscalation :: "bool option"
  sc_capabilities :: "capabilities option"

record container_port =
  cp_name :: string
  cp_port :: nat
  cp_protocol :: string

record container =
  ct_name :: string
  ct_image :: string
  ct_command :: "string list"
  ct_args :: "string list"
  ct_ports :: "container_port list"
  ct_env :: strmap
  ct_preStop :: "string list option"
  ct_security :: "security_context option"
  ct_requests :: strmap
  ct_limits :: strmap
  ct_mounts :: "volume_mount list"
  ct_devices :: "volume_device list"

record pod =
  pod_meta :: object_meta
  pod_serviceAccount :: string
  pod_initContainers :: "container list"
  pod_containers :: "container list"
  pod_volumes :: "volume list"
  pod_restartPolicy :: string
  pod_shareProcesses :: bool
  pod_fsGroup :: int
  pod_supplementalGroups :: "int list"
  pod_seLinuxType :: string

definition noSecurity :: security_context where
  "noSecurity = \<lparr>sc_privileged = None, sc_runAsUser = None, sc_runAsGroup = None, sc_runAsNonRoot = None,
     sc_readOnlyRoot = None, sc_allowEscalation = None, sc_capabilities = None\<rparr>"

definition emptyContainer :: container where
  "emptyContainer = \<lparr>ct_name = [], ct_image = [], ct_command = [], ct_args = [], ct_ports = [], ct_env = [], ct_preStop = None,
     ct_security = None, ct_requests = [], ct_limits = [], ct_mounts = [], ct_devices = []\<rparr>"

definition mountAt :: "string \<Rightarrow> string \<Rightarrow> volume_mount" where
  "mountAt n p = \<lparr>vm_name = n, vm_path = p, vm_subPath = [], vm_readOnly = False, vm_propagation = None\<rparr>"

definition emptyDir :: "string \<Rightarrow> volume" where
  "emptyDir n = \<lparr>vol_name = n, vol_source = EmptyDirVolume [] None\<rparr>"

definition memoryDir :: "string \<Rightarrow> int \<Rightarrow> volume" where
  "memoryDir n bytes = \<lparr>vol_name = n, vol_source = EmptyDirVolume ''Memory'' (Some bytes)\<rparr>"

definition hostDevice :: "string \<Rightarrow> string \<Rightarrow> volume" where
  "hostDevice n p = \<lparr>vol_name = n, vol_source = HostPathVolume p ''CharDevice''\<rparr>"

section \<open>Services and routes\<close>

record service_port =
  sp_name :: string
  sp_port :: nat
  sp_targetPort :: nat
  sp_protocol :: string

record file_service =
  fv_meta :: object_meta
  fv_selector :: strmap
  fv_ports :: "service_port list"
  fv_type :: string

record file_route =
  fr_meta :: object_meta
  fr_subdomain :: string
  fr_toKind :: string
  fr_toName :: string
  fr_targetPort :: string
  fr_termination :: string
  fr_insecurePolicy :: string
  fr_wildcardPolicy :: string

section \<open>Configurations\<close>

record ssh_access_config =
  sa_username :: string
  sa_secretName :: string
  sa_secretNamespace :: string
  sa_port :: nat

record filebrowser_access_config =
  ba_secretName :: string
  ba_secretNamespace :: string
  ba_port :: nat

record pod_config =
  pc_podName :: string
  pc_podNamespace :: string
  pc_vmfrName :: string
  pc_vmfrNamespace :: string
  pc_vmfrUID :: string
  pc_mounts :: "pvc_mount list"
  pc_mainContainer :: "container option"
  pc_ssh :: "ssh_access_config option"
  pc_fileBrowser :: "filebrowser_access_config option"
  pc_dualPath :: bool
  pc_internalMounts :: bool
  pc_sharedMountPath :: string
  pc_security :: "security_context option"
  pc_labels :: strmap
  pc_annotations :: strmap

record service_config =
  vc_name :: string
  vc_namespace :: string
  vc_vmfrName :: string
  vc_vmfrNamespace :: string
  vc_vmfrUID :: string
  vc_ports :: "service_port list"
  vc_type :: string
  vc_selector :: strmap
  vc_labels :: strmap
  vc_annotations :: strmap

record route_config =
  rc_name :: string
  rc_namespace :: string
  rc_vmfrName :: string
  rc_vmfrNamespace :: string
  rc_vmfrUID :: string
  rc_serviceName :: string
  rc_targetPort :: string
  rc_termination :: string
  rc_insecurePolicy :: string
  rc_labels :: strmap
  rc_annotations :: strmap
  rc_subdomain :: string

text \<open>A Go map with further entries assigned to it.\<close>

definition mergeMap :: "strmap \<Rightarrow> strmap \<Rightarrow> strmap" where
  "mergeMap m extra = foldl (\<lambda>acc (k, v). AList.update k v acc) m extra"

lemma mergeMap_Nil [simp]: "mergeMap m [] = m"
  by (simp add: mergeMap_def)

lemma map_of_mergeMap: "map_of (mergeMap m extra) = map_of m ++ map_of (rev extra)"
  by (induction extra arbitrary: m)
     (auto simp: mergeMap_def update_conv' fun_eq_iff map_add_def split: option.splits)

lemma map_of_mergeMap_other: "k \<notin> fst ` set extra \<Longrightarrow> map_of (mergeMap m extra) k = map_of m k"
  by (simp add: map_of_mergeMap map_add_def map_of_eq_None_iff [THEN iffD2] split: option.splits)

end
