(* ===== verification/Container_Scripts.thy ===== *)
theory Container_Scripts
  imports Go_Strings
begin

text \<open>
  The shell scripts the file server's containers run (\<open>internal/controller/container_scripts.go\<close>), as the Go string constants that
  hold them. The program passes them on as opaque text.
\<close>

definition dquote :: string where "dquote = [chr 34]"
definition squote :: string where "squote = [chr 39]"
definition backslash :: string where "backslash = [chr 92]"
definition checkMark :: string where "checkMark = encode_rune 10003"
definition ballotX :: string where "ballotX = encode_rune 10007"
definition warningSign :: string where "warningSign = encode_rune 9888"

definition scriptText :: "string list \<Rightarrow> string" where
  "scriptText lines = join lines [chr 10]"

definition fileBrowserInitScript :: string where
  "fileBrowserInitScript = scriptText [
    ''set -e'',
    [],
    ''echo '' @ dquote @ ''==================================================================='' @ dquote,
    ''echo '' @ dquote @ ''OADP VM File Restore File Browser Container Starting'' @ dquote,
    ''echo '' @ dquote @ ''==================================================================='' @ dquote,
    [],
    ''# Configuration from environment'',
    ''FB_DATABASE=${FB_DATABASE:-/database/filebrowser.db}'',
    ''FB_ROOT=${FB_ROOT:-/restores}'',
    ''FB_PORT=${FB_PORT:-8080}'',
    ''FB_ADDRESS=${FB_ADDRESS:-0.0.0.0}'',
    [],
    ''# Read credentials from secret'',
    ''if [ -f /etc/filebrowser-credentials/username ]; then'',
    ''    FB_USERNAME=$(cat /etc/filebrowser-credentials/username)'',
    ''else'',
    ''    FB_USERNAME='' @ dquote @ ''oadp'' @ dquote,
    ''fi'',
    [],
    ''if [ -f /etc/filebrowser-credentials/password ]; then'',
    ''    FB_PASSWORD=$(cat /etc/filebrowser-credentials/password)'',
    ''else'',
    ''    echo '' @ dquote @ ''ERROR: Password not found in secret at /etc/filebrowser-credentials/password'' @ dquote,
    ''    exit 1'',
    ''fi'',
    [],
    ''# Branding configuration'',
    ''FB_BRANDING_NAME=${FB_BRANDING_NAME:-OADP VM File Restore Browser}'',
    [],
    ''echo '' @ dquote @ ''Initializing File Browser...'' @ dquote,
    [],
    ''# Initialize database if it doesn'' @ squote @ ''t exist'',
    ''if [ ! -f '' @ dquote @ ''${FB_DATABASE}'' @ dquote @ '' ]; then'',
    ''    echo '' @ dquote @ ''Creating new database at ${FB_DATABASE}...'' @ dquote,
    ''    /usr/local/bin/filebrowser config init --database '' @ dquote @ ''${FB_DATABASE}'' @ dquote,
    ''else'',
    ''    echo '' @ dquote @ ''Database exists at ${FB_DATABASE}'' @ dquote,
    ''fi'',
    [],
    ''# Configure branding (idempotent - can run multiple times)'',
    ''echo '' @ dquote @ ''Configuring branding...'' @ dquote,
    [],
    ''# Only set defaultLoginUser if username is missing or equals '' @ dquote @ ''oadp'' @ dquote,
    ''if [ -z '' @ dquote @ ''${FB_USERNAME}'' @ dquote @ '' ] || [ '' @ dquote @ ''${FB_USERNAME}'' @ dquote @ '' = '' @ dquote @ ''oadp'' @ dquote @ '' ]; then'',
    ''    echo '' @ dquote @ ''Setting default login user to: oadp'' @ dquote,
    ''    /usr/local/bin/filebrowser config set '' @ backslash,
    ''      --database '' @ dquote @ ''${FB_DATABASE}'' @ dquote @ '' '' @ backslash,
    ''      --branding.name '' @ dquote @ ''${FB_BRANDING_NAME}'' @ dquote @ '' '' @ backslash,
    ''      --branding.disableUsedPercentage '' @ backslash,
    ''      --branding.disableExternal '' @ backslash,
    ''      --branding.disableUserProfile '' @ backslash,
    ''      --branding.defaultLoginUser '' @ dquote @ ''oadp'' @ dquote,
    ''else'',
    ''    echo '' @ dquote @ ''Using custom username, not setting default login user'' @ dquote,
    ''    /usr/local/bin/filebrowser config set '' @ backslash,
    ''      --database '' @ dquote @ ''${FB_DATABASE}'' @ dquote @ '' '' @ backslash,
    ''      --branding.name '' @ dquote @ ''${FB_BRANDING_NAME}'' @ dquote @ '' '' @ backslash,
    ''      --branding.disableUsedPercentage '' @ backslash,
    ''      --branding.disableExternal '' @ backslash,
    ''      --branding.disableUserProfile'',
    ''fi'',
    [],
    ''# Check if user exists, if not create it'',
    ''if /usr/local/bin/filebrowser users ls --database '' @ dquote @ ''${FB_DATABASE}'' @ dquote @ '' | grep -q '' @ dquote @ ''^| ${FB_USERNAME} '' @ dquote @ ''; then'',
    ''    echo '' @ dquote @ ''User ${FB_USERNAME} already exists'' @ dquote,
    ''else'',
    ''    echo '' @ dquote @ ''Creating read-only user: ${FB_USERNAME}...'' @ dquote,
    ''    /usr/local/bin/filebrowser users add '' @ dquote @ ''${FB_USERNAME}'' @ dquote @ '' '' @ dquote @ ''${FB_PASSWORD}'' @ dquote @ '' '' @ backslash,
    ''      --database '' @ dquote @ ''${FB_DATABASE}'' @ dquote @ '' '' @ backslash,
    ''      --perm.create=false '' @ backslash,
    ''      --perm.delete=false '' @ backslash,
    ''      --perm.modify=false '' @ backslash,
    ''      --perm.rename=false '' @ backslash,
    ''      --perm.share=false '' @ backslash,
    ''      --perm.execute=false '' @ backslash,
    ''      --lockPassword '' @ backslash,
    ''      --locale en '' @ backslash,
    ''      --hideDotfiles=false '' @ backslash,
    ''      --singleClick=false '' @ backslash,
    ''      --dateFormat=false'',
    ''    echo '' @ dquote @ ''User ${FB_USERNAME} created successfully'' @ dquote,
    ''fi'',
    [],
    ''echo '' @ dquote @ ''==================================================================='' @ dquote,
    ''echo '' @ dquote @ ''File Browser Configuration Complete'' @ dquote,
    ''echo '' @ dquote @ ''==================================================================='' @ dquote,
    ''echo '' @ dquote @ ''Service URL: http://${FB_ADDRESS}:${FB_PORT}'' @ dquote,
    ''echo '' @ dquote @ ''Root Directory: ${FB_ROOT}'' @ dquote,
    ''echo '' @ dquote @ dquote,
    ''echo '' @ dquote @ ''User Credentials:'' @ dquote,
    ''echo '' @ dquote @ ''  Username: ${FB_USERNAME}'' @ dquote,
    ''echo '' @ dquote @ ''  Password: ********'' @ dquote,
    ''echo '' @ dquote @ dquote,
    ''echo '' @ dquote @ ''Permissions (Read-Only):'' @ dquote,
    ''echo '' @ dquote @ ''  '' @ checkMark @ '' View files'' @ dquote,
    ''echo '' @ dquote @ ''  '' @ checkMark @ '' Download files'' @ dquote,
    ''echo '' @ dquote @ ''  '' @ ballotX @ '' Create/Upload'' @ dquote,
    ''echo '' @ dquote @ ''  '' @ ballotX @ '' Delete/Modify/Rename/Share/Execute'' @ dquote,
    ''echo '' @ dquote @ dquote,
    ''echo '' @ dquote @ ''Branding: ${FB_BRANDING_NAME}'' @ dquote,
    ''echo '' @ dquote @ ''==================================================================='' @ dquote,
    [],
    ''# Start File Browser with TLS'',
    ''echo '' @ dquote @ ''Starting File Browser with HTTPS...'' @ dquote,
    ''if [ -f /etc/filebrowser-tls/tls.crt ] && [ -f /etc/filebrowser-tls/tls.key ]; then'',
    ''  echo '' @ dquote @ ''TLS certificates found, starting with HTTPS on port ${FB_PORT}'' @ dquote,
    ''  exec /usr/local/bin/filebrowser '' @ backslash,
    ''    --address '' @ dquote @ ''${FB_ADDRESS}'' @ dquote @ '' '' @ backslash,
    ''    --port '' @ dquote @ ''${FB_PORT}'' @ dquote @ '' '' @ backslash,
    ''    --root '' @ dquote @ ''${FB_ROOT}'' @ dquote @ '' '' @ backslash,
    ''    --database '' @ dquote @ ''${FB_DATABASE}'' @ dquote @ '' '' @ backslash,
    ''    --cert /etc/filebrowser-tls/tls.crt '' @ backslash,
    ''    --key /etc/filebrowser-tls/tls.key'',
    ''else'',
    ''  echo '' @ dquote @ ''WARNING: TLS certificates not found, starting with HTTP'' @ dquote,
    ''  exec /usr/local/bin/filebrowser '' @ backslash,
    ''    --address '' @ dquote @ ''${FB_ADDRESS}'' @ dquote @ '' '' @ backslash,
    ''    --port '' @ dquote @ ''${FB_PORT}'' @ dquote @ '' '' @ backslash,
    ''    --root '' @ dquote @ ''${FB_ROOT}'' @ dquote @ '' '' @ backslash,
    ''    --database '' @ dquote @ ''${FB_DATABASE}'' @ dquote,
    ''fi'',
    []]"

definition vmFileServerPreStopScript :: string where
  "vmFileServerPreStopScript = scriptText [
    ''# Do NOT use '' @ squote @ ''set -e'' @ squote @ '' - we want to continue even if some commands fail'',
    ''echo '' @ dquote @ ''[PreStop] Starting cleanup of FUSE mounts...'' @ dquote,
    [],
    ''# Function to safely unmount a FUSE mount point'',
    ''unmount_fuse() {'',
    ''    local mount_point='' @ dquote @ ''$1'' @ dquote,
    ''    echo '' @ dquote @ ''[PreStop] Unmounting: $mount_point'' @ dquote,
    [],
    ''    # Try guestunmount first (preferred for libguestfs FUSE mounts)'',
    ''    if command -v guestunmount >/dev/null 2>&1; then'',
    ''        if guestunmount '' @ dquote @ ''$mount_point'' @ dquote @ '' 2>/dev/null; then'',
    ''            echo '' @ dquote @ ''[PreStop] '' @ checkMark @ '' Successfully unmounted with guestunmount: $mount_point'' @ dquote,
    ''            return 0'',
    ''        fi'',
    ''    fi'',
    [],
    ''    # Fallback to fusermount -u for generic FUSE unmounts'',
    ''    if fusermount -u '' @ dquote @ ''$mount_point'' @ dquote @ '' 2>/dev/null; then'',
    ''        echo '' @ dquote @ ''[PreStop] '' @ checkMark @ '' Successfully unmounted with fusermount: $mount_point'' @ dquote,
    ''        return 0'',
    ''    fi'',
    [],
    ''    # If both fail, log but don'' @ squote @ ''t fail the hook (mount may already be gone)'',
    ''    echo '' @ dquote @ ''[PreStop] '' @ warningSign @ '' Could not unmount: $mount_point (may not be mounted)'' @ dquote,
    ''    return 0'',
    ''}'',
    [],
    ''# Find all FUSE mount points under /restores/'',
    ''# Structure: /restores/<date>/<backup>/<pvc>/'',
    ''# We look for depth 3 directories which are the actual mount points'',
    [],
    ''mounted_count=0'',
    ''unmounted_count=0'',
    [],
    ''# Find mount points at depth 3: /restores/YYYY-MM-DD/backup-name/pvc-name/'',
    ''if [ -d /restores ]; then'',
    ''    # Use shopt to handle failed glob patterns gracefully'',
    ''    shopt -s nullglob'',
    ''    for mount_point in /restores/*/*/*; do'',
    ''        # Check if it'' @ squote @ ''s a directory'',
    ''        if [ -d '' @ dquote @ ''$mount_point'' @ dquote @ '' ]; then'',
    ''            # Check if it'' @ squote @ ''s actually a mount point using mountpoint command'',
    ''            if mountpoint -q '' @ dquote @ ''$mount_point'' @ dquote @ '' 2>/dev/null; then'',
    ''                mounted_count=$((mounted_count + 1))'',
    ''                unmount_fuse '' @ dquote @ ''$mount_point'' @ dquote @ '' || true'',
    ''                unmounted_count=$((unmounted_count + 1))'',
    ''            fi'',
    ''        fi'',
    ''    done'',
    ''    shopt -u nullglob'',
    ''fi'',
    [],
    ''echo '' @ dquote @ ''[PreStop] Cleanup complete: unmounted $unmounted_count of $mounted_count FUSE mounts'' @ dquote,
    [],
    ''# Give the system a moment to fully process the unmounts'',
    ''sleep 1 || true'',
    [],
    ''exit 0'',
    []]"

end
