(* ===== verification/Calendar.thy ===== *)
theory Calendar
  imports Flexible_Time
begin

text \<open>
  The part of package \<open>time\<close> that turns an instant into the civil fields of a time zone and prints them, as
  \<open>Time.Format\<close> does with the layouts \<open>2006-01-02\<close> and \<open>2006-01-02T15:04:05Z\<close> of the file server. The zone is a function
  from an instant to the offset in seconds, because a \<open>metav1.Time\<close> read from the API server is in the local
  zone of the process. Years from 1 to 9999 are covered, the range in which \<open>metav1.Time\<close> marshals.
\<close>

section \<open>Civil fields of an instant\<close>

text \<open>Days in the first \<open>p\<close> years of the calendar, and the number of years that fit into \<open>n\<close> days.\<close>

definition daysInYears :: "int \<Rightarrow> int" where
  "daysInYears p = 365 * p + p div 4 - p div 100 + p div 400"

definition yearsIn :: "int \<Rightarrow> int" where
  "yearsIn n = (let e = 400 * n div 146097
     in if daysInYears (e + 1) \<le> n then e + 1 else if n < daysInYears e then e - 1 else e)"

function monthDay :: "nat \<Rightarrow> nat \<Rightarrow> nat \<Rightarrow> nat \<times> nat" where
  "monthDay y m k = (if m \<ge> 12 \<or> k < daysIn m y then (m, k + 1) else monthDay y (m + 1) (k - daysIn m y))"
  by auto

termination
  by (relation "measure (\<lambda>(y, m, k). 12 - m)") auto

declare monthDay.simps [simp del]

definition civilOfDay :: "int \<Rightarrow> nat \<times> nat \<times> nat" where
  "civilOfDay d = (let n = d + 719162; p = yearsIn n; y = nat (p + 1) in (y, monthDay y 1 (nat (n - daysInYears p))))"

definition localCivil :: "(int \<Rightarrow> int) \<Rightarrow> int \<Rightarrow> civil" where
  "localCivil zone t = (let s = t div 1000000000 + zone t; (y, m, d) = civilOfDay (s div 86400); r = nat (s mod 86400)
     in \<lparr>c_year = y, c_month = m, c_day = d, c_hour = r div 3600, c_min = r div 60 mod 60, c_sec = r mod 60,
          c_nsec = nat (t mod 1000000000), c_offset = zone t\<rparr>)"

text \<open>\<open>t.Format("2006-01-02")\<close>\<close>

definition formatDate :: "civil \<Rightarrow> string" where
  "formatDate c = pad2 (c_year c div 100) @ pad2 (c_year c mod 100) @ ''-'' @ pad2 (c_month c) @ ''-'' @ pad2 (c_day c)"

section \<open>Facts\<close>

lemma quotient_bounds:
  fixes p a b c x y z :: int
  assumes "p = 4 * a + x" "0 \<le> x" "x < 4" "p = 100 * b + y" "0 \<le> y" "y < 100" "p = 400 * c + z" "0 \<le> z" "z < 400"
  shows "400 * (365 * p + a - b + c) \<le> 146097 * p + 396 \<and> 146097 * p - 699 \<le> 400 * (365 * p + a - b + c)"
  using assms by auto

lemma daysInYears_bounds: "400 * daysInYears p \<le> 146097 * p + 396 \<and> 146097 * p - 699 \<le> 400 * daysInYears p"
  unfolding daysInYears_def
  by (rule quotient_bounds [where x = "p mod 4" and y = "p mod 100" and z = "p mod 400"]) simp_all

lemma yearsIn: "daysInYears (yearsIn n) \<le> n \<and> n < daysInYears (yearsIn n + 1)"
proof -
  let ?e = "400 * n div 146097"
  have "400 * n = 146097 * ?e + 400 * n mod 146097" "0 \<le> 400 * n mod 146097" "400 * n mod 146097 < 146097" by simp_all
  moreover note daysInYears_bounds [of "?e - 1"] daysInYears_bounds [of "?e + 2"]
  ultimately have "daysInYears (?e - 1) \<le> n" "n < daysInYears (?e + 1 + 1)" by (auto simp: algebra_simps)
  then show ?thesis by (auto simp: yearsIn_def Let_def)
qed

lemma pred_div:
  fixes x k :: int
  assumes "k > 0"
  shows "x div k - (x - 1) div k = (if x mod k = 0 then 1 else 0)"
proof -
  have x: "x = k * (x div k) + x mod k" and r: "x mod k < k" using assms by simp_all
  have r1: "x mod k = 0 \<or> 1 \<le> x mod k" using pos_mod_sign [OF assms, of x] by linarith
  have "(x - 1) div k = (if x mod k = 0 then x div k - 1 else x div k)"
    by (rule int_div_pos_eq [where r = "if x mod k = 0 then k - 1 else x mod k - 1"])
       (use x r1 assms less_trans [OF r, of "1 + k"] in \<open>auto simp: algebra_simps\<close>)
  then show ?thesis by simp
qed

lemma leap_days: "c \<longrightarrow> b \<Longrightarrow> b \<longrightarrow> a \<Longrightarrow> 365 + (if a then 1 else 0) - (if b then 1 else 0) + (if c then 1 else 0)
    = (if a \<and> (\<not> b \<or> c) then 366 else 365 :: int)"
  by (cases a; cases b; cases c) simp_all

lemma year_length: "daysInYears (int y) - daysInYears (int y - 1) = (if isLeap y then 366 else 365)"
proof -
  have m: "int y mod 4 = 0 \<longleftrightarrow> y mod 4 = 0" "int y mod 100 = 0 \<longleftrightarrow> y mod 100 = 0" "int y mod 400 = 0 \<longleftrightarrow> y mod 400 = 0"
    by presburger+
  have "daysInYears (int y) - daysInYears (int y - 1) = 365 + (int y div 4 - (int y - 1) div 4)
      - (int y div 100 - (int y - 1) div 100) + (int y div 400 - (int y - 1) div 400)"
    unfolding daysInYears_def by (simp only: algebra_simps)
  also have "\<dots> = 365 + (if y mod 4 = 0 then 1 else 0) - (if y mod 100 = 0 then 1 else 0) + (if y mod 400 = 0 then 1 else 0)"
    by (simp only: pred_div zero_less_numeral m)
  also have "\<dots> = (if isLeap y then 366 else 365)"
    unfolding isLeap_def by (rule leap_days) presburger+
  finally show ?thesis .
qed

lemma daysIn_pos: "0 < daysIn m y"
  by (simp add: daysIn_def)

lemma months_sum: "sum_list (map (\<lambda>k. daysIn k y) [1..<13]) = (if isLeap y then 366 else 365)"
  by (simp add: upt_rec daysIn_def)

text \<open>Splitting the day of a year into month and day.\<close>

lemma monthDay:
  assumes "1 \<le> m" and "m \<le> 12" and "k < sum_list (map (\<lambda>k. daysIn k y) [m..<13])"
  shows "case monthDay y m k of (m1, d) \<Rightarrow> m \<le> m1 \<and> m1 \<le> 12 \<and> 1 \<le> d \<and> d \<le> daysIn m1 y
    \<and> sum_list (map (\<lambda>k. daysIn k y) [m..<m1]) + d = k + 1"
  using assms
proof (induction y m k rule: monthDay.induct)
  case (1 y m k)
  show ?case
  proof (cases "m \<ge> 12 \<or> k < daysIn m y")
    case True
    then show ?thesis using 1(2-4) by (subst monthDay.simps) (auto simp: upt_rec [of m])
  next
    case False
    then have "k - daysIn m y < sum_list (map (\<lambda>k. daysIn k y) [m + 1..<13])"
      using 1(4) by (simp add: upt_rec [of m] less_diff_conv2 add.commute)
    with 1(1) [OF False] False show ?thesis
      by (subst monthDay.simps) (auto simp: upt_rec [of m] split: prod.splits)
  qed
qed

lemma daysBeforeYear_eq: "daysBeforeYear y = daysInYears (int y - 1) - 719162"
  by (simp add: daysBeforeYear_def daysInYears_def Let_def)

text \<open>The civil date of a day is a date of the calendar, and the one that day has.\<close>

lemma civilOfDay:
  assumes "daysBeforeYear 1 \<le> d" and "civilOfDay d = (y, m, dd)"
  shows "1 \<le> m \<and> m \<le> 12 \<and> 1 \<le> dd \<and> dd \<le> daysIn m y \<and> epochDay y m dd = d"
proof -
  let ?n = "d + 719162"
  let ?p = "yearsIn ?n"
  have n: "0 \<le> ?n" using assms(1) by (simp add: daysBeforeYear_def)
  have p: "0 \<le> ?p" using yearsIn [of ?n] n daysInYears_bounds [of "?p + 1"] by (cases "?p \<ge> 0") auto
  then have y: "int y = ?p + 1" and md: "monthDay y 1 (nat (?n - daysInYears ?p)) = (m, dd)"
    using assms(2) by (auto simp: civilOfDay_def Let_def)
  let ?k = "nat (?n - daysInYears ?p)"
  have k: "int ?k = ?n - daysInYears ?p" using yearsIn [of ?n] by simp
  have "int ?k < (if isLeap y then 366 else 365)" using yearsIn [of ?n] year_length [of y] y k by simp
  then have "?k < sum_list (map (\<lambda>k. daysIn k y) [1..<13])" unfolding months_sum by (auto split: if_splits)
  then have "case monthDay y 1 ?k of (m1, d1) \<Rightarrow> 1 \<le> m1 \<and> m1 \<le> 12 \<and> 1 \<le> d1 \<and> d1 \<le> daysIn m1 y
      \<and> sum_list (map (\<lambda>k. daysIn k y) [1..<m1]) + d1 = ?k + 1"
    by (intro monthDay) simp_all
  then have md1: "1 \<le> m \<and> m \<le> 12 \<and> 1 \<le> dd \<and> dd \<le> daysIn m y"
    and sum: "sum_list (map (\<lambda>k. daysIn k y) [1..<m]) + dd = ?k + 1"
    unfolding md by (simp_all only: prod.case)
  have "daysBeforeMonth m y + int dd = int ?k + 1"
    unfolding daysBeforeMonth_def using arg_cong [OF sum, of int] by (simp only: of_nat_add of_nat_1)
  with md1 show ?thesis using y k by (simp add: epochDay_def daysBeforeYear_eq)
qed

lemma clock_sum: "int (r div 3600) * 3600 + int (r div 60 mod 60) * 60 + int (r mod 60) = int r"
proof -
  have "r div 3600 = r div 60 div 60" by (simp add: div_mult2_eq)
  moreover have "r div 60 div 60 * 60 + r div 60 mod 60 = r div 60" "r div 60 * 60 + r mod 60 = r" by simp_all
  ultimately have "r div 3600 * 3600 + r div 60 mod 60 * 60 + r mod 60 = r" by linarith
  from arg_cong [OF this, of int] show ?thesis by (simp only: of_nat_add of_nat_mult of_nat_numeral)
qed

text \<open>The civil fields of an instant denote the second it falls into.\<close>

lemma localCivil:
  assumes "instant zeroTime \<le> t + zone t * 1000000000"
  shows "instant (localCivil zone t) = t" and "c_year (localCivil zone t) \<le> 9999 \<Longrightarrow> civil_ok (localCivil zone t)"
proof -
  let ?s = "t div 1000000000 + zone t"
  obtain y m d where c: "civilOfDay (?s div 86400) = (y, m, d)" by (metis prod.exhaust)
  have "daysBeforeYear 1 * 86400 \<le> ?s"
    using assms by (simp add: instant_def zeroTime_def epochDay_def daysBeforeMonth_def daysBeforeYear_def)
  then have ok: "1 \<le> m \<and> m \<le> 12 \<and> 1 \<le> d \<and> d \<le> daysIn m y \<and> epochDay y m d = ?s div 86400"
    by (intro civilOfDay [OF _ c]) (simp add: daysBeforeYear_def)
  let ?r = "nat (?s mod 86400)"
  have r: "int ?r = ?s mod 86400" "?r < 86400" by (simp_all add: nat_less_iff)
  have "?s div 86400 * 86400 + (int (?r div 3600) * 3600 + int (?r div 60 mod 60) * 60 + int (?r mod 60)) = ?s"
    unfolding clock_sum r(1) by (rule div_mult_mod_eq)
  moreover have "epochDay y m d = ?s div 86400" using ok by simp
  moreover have "instant (localCivil zone t) = (epochDay y m d * 86400
      + (int (?r div 3600) * 3600 + int (?r div 60 mod 60) * 60 + int (?r mod 60)) - zone t) * 1000000000 + t mod 1000000000"
    by (simp add: instant_def localCivil_def Let_def c)
  ultimately have "instant (localCivil zone t) = t div 1000000000 * 1000000000 + t mod 1000000000"
    by (simp only: add_diff_cancel_right')
  then show "instant (localCivil zone t) = t" by (simp only: div_mult_mod_eq)
  show "civil_ok (localCivil zone t)" if "c_year (localCivil zone t) \<le> 9999"
    using that ok r(2) by (auto simp: civil_ok_def localCivil_def Let_def c less_Suc_eq_le [symmetric])
qed

text \<open>A printed date reads back as the date of the instant in its zone.\<close>

lemma parse_formatDate:
  assumes "civil_ok c"
  shows "parseDateOnly (formatDate c) = Some (c \<lparr>c_hour := 0, c_min := 0, c_sec := 0, c_nsec := 0, c_offset := 0\<rparr>)"
proof -
  have "getdate (formatDate c) = Some ((c_year c, c_month c, c_day c), [])"
    using getdate_pad2 [of "c_year c" "c_month c" "c_day c" "[]"] assms by (simp add: formatDate_def civil_ok_def)
  then show ?thesis by (simp add: parseDateOnly_def)
qed

end
