(* ===== verification/Go_Json.thy ===== *)
theory Go_Json
  imports Go_Strings "HOL-Library.List_Lexorder" "HOL-Library.Char_ord"
begin

text \<open>
  The part of \<open>encoding/json\<close> that \<open>json.Marshal\<close> uses for strings, slices and maps with string keys: string
  escaping as of Go 1.26 with HTML escaping on, and maps printed with their keys in byte order.
\<close>

definition hexDigit :: "nat \<Rightarrow> char" where
  "hexDigit n = (if n < 10 then chr (48 + n) else chr (87 + n))"

definition escaped :: "string \<Rightarrow> string" where
  "escaped s = chr 92 # s"

text \<open>A byte below 128.\<close>

definition jsonAscii :: "nat \<Rightarrow> string" where
  "jsonAscii b =
    (if b = 34 \<or> b = 92 then escaped [chr b]
     else if b = 8 then escaped ''b''
     else if b = 12 then escaped ''f''
     else if b = 10 then escaped ''n''
     else if b = 13 then escaped ''r''
     else if b = 9 then escaped ''t''
     else if b < 32 \<or> b = 60 \<or> b = 62 \<or> b = 38
     then escaped (''u00'' @ [hexDigit (b div 16), hexDigit (b mod 16)])
     else [chr b])"

text \<open>An invalid byte becomes the escape of U+FFFD; the line separators U+2028 and U+2029 are escaped.\<close>

function jsonBytes :: "nat list \<Rightarrow> string" where
  "jsonBytes [] = []"
| "jsonBytes (b # bs) =
    (if b < 128 then jsonAscii b @ jsonBytes bs
     else (let (r, n) = decode_rune (b # bs)
           in (if r = rune_error \<and> n = 1 then escaped ''ufffd''
               else if r = 8232 \<or> r = 8233 then escaped (''u202'' @ [hexDigit (r mod 16)])
               else map chr (take n (b # bs))) @ jsonBytes (drop n (b # bs))))"
  by pat_completeness auto

termination
proof (relation "measure length", goal_cases)
  case (3 b bs x r n)
  then have "n = snd (decode_rune (b # bs))" by (metis snd_conv)
  then have "1 \<le> n" using decode_rune_width [of "b # bs"] by simp
  then show ?case by simp
qed simp_all

definition jsonString :: "string \<Rightarrow> string" where
  "jsonString s = chr 34 # jsonBytes (map byte s) @ [chr 34]"

definition jsonArray :: "string list \<Rightarrow> string" where
  "jsonArray xs = ''['' @ join xs '','' @ '']''"

text \<open>A map from strings, given by its entries and the text of its values.\<close>

definition jsonObject :: "(string \<times> string) list \<Rightarrow> string" where
  "jsonObject kvs = ''{'' @ join (map (\<lambda>(k, v). jsonString k @ '':'' @ v) (sort_key fst kvs)) '','' @ ''}''"

end
