(* ===== verification/File_Server.thy ===== *)
theory File_Server
  imports File_Server_Types Container_Scripts Calendar Go_Json
begin

text \<open>
  The builders of the file server (\<open>internal/controller/fileserver_helpers.go\<close>): the pod with its main container, the SSH and
  FileBrowser sidecars and their volumes, the service and the route. \<open>zone\<close> is the local time zone of the
  process, in which Go prints the times of the backups.
\<close>

definition DefaultFileServerPort :: nat where "DefaultFileServerPort = 8080"
definition VMFileServerImage :: string where "VMFileServerImage = ''quay.io/konveyor/oadp-vmfr-access:latest''"
definition SSHSidecarImage :: string where "SSHSidecarImage = ''quay.io/konveyor/oadp-vmfr-access-sshd:latest''"
definition FileBrowserSidecarImage :: string where
  "FileBrowserSidecarImage = ''quay.io/konveyor/oadp-vmfr-access-filebrowser:latest''"

section \<open>Volumes of the restored claims\<close>

definition formatBackupDateForPath :: "(time \<Rightarrow> int) \<Rightarrow> time option \<Rightarrow> string" where
  "formatBackupDateForPath zone ts = (case ts of None \<Rightarrow> ''unknown-date'' | Some t \<Rightarrow> formatDate (localCivil zone t))"

definition volumeName :: "pvc_mount \<Rightarrow> string" where
  "volumeName m = ''pvc-'' @ mt_pvcUID m"

definition devicePath :: "pvc_mount \<Rightarrow> string" where
  "devicePath m = ''/dev/pvc-'' @ mt_pvcUID m"

definition isBlockMode :: "pvc_mount \<Rightarrow> bool" where
  "isBlockMode m \<longleftrightarrow> mt_volumeMode m = Some ''Block''"

definition claimVolume :: "pvc_mount \<Rightarrow> volume" where
  "claimVolume m = \<lparr>vol_name = volumeName m, vol_source = PersistentVolumeClaimVolume
     (if mt_restoredPVC m = [] then mt_pvcName m else mt_restoredPVC m) False\<rparr>"

definition claimMount :: "(time \<Rightarrow> int) \<Rightarrow> pvc_mount \<Rightarrow> volume_mount" where
  "claimMount zone m = mountAt (volumeName m)
     (''/restores/'' @ formatBackupDateForPath zone (mt_timestamp m) @ ''/'' @ mt_backupName m @ ''/'' @ mt_pvcName m)"

fun buildPVCVolumesAndMounts ::
    "(time \<Rightarrow> int) \<Rightarrow> pvc_mount list \<Rightarrow> volume list \<times> volume_mount list \<times> volume_device list" where
  "buildPVCVolumesAndMounts zone [] = ([], [], [])"
| "buildPVCVolumesAndMounts zone (m # ms) = (let (vs, mts, ds) = buildPVCVolumesAndMounts zone ms
     in if isBlockMode m then (claimVolume m # vs, mts, \<lparr>vd_name = volumeName m, vd_path = devicePath m\<rparr> # ds)
        else (claimVolume m # vs, claimMount zone m # mts, ds))"

section \<open>Main containers\<close>

definition tcpPort :: "string \<Rightarrow> nat \<Rightarrow> container_port" where
  "tcpPort n p = \<lparr>cp_name = n, cp_port = p, cp_protocol = ''TCP''\<rparr>"

definition buildDefaultMainContainer :: "volume_mount list \<Rightarrow> container" where
  "buildDefaultMainContainer ms = emptyContainer \<lparr>ct_name := ''file-server'', ct_image := ''busybox:latest'',
     ct_command := [''/bin/sh'', ''-c'', ''httpd -f -p '' @ decimal DefaultFileServerPort @ '' -h /''],
     ct_ports := [tcpPort ''http'' DefaultFileServerPort], ct_mounts := ms\<rparr>"

text \<open>\<open>backupMap[backupName] = append(backupMap[backupName], pvcEntry)\<close>\<close>

definition backupTimestamp :: "(time \<Rightarrow> int) \<Rightarrow> pvc_mount \<Rightarrow> string" where
  "backupTimestamp zone m = (case mt_timestamp m of None \<Rightarrow> [] | Some t \<Rightarrow> formatRFC3339 (localCivil zone t))"

definition pvcEntry :: "(time \<Rightarrow> int) \<Rightarrow> pvc_mount \<Rightarrow> string" where
  "pvcEntry zone m = jsonObject [(''name'', jsonString (mt_pvcName m)), (''path'', jsonString (devicePath m)),
     (''timestamp'', jsonString (backupTimestamp zone m))]"

definition appendEntry :: "(time \<Rightarrow> int) \<Rightarrow> (string \<times> string list) list \<Rightarrow> pvc_mount \<Rightarrow> (string \<times> string list) list" where
  "appendEntry zone acc m = AList.update (mt_backupName m)
     ((case map_of acc (mt_backupName m) of None \<Rightarrow> [] | Some es \<Rightarrow> es) @ [pvcEntry zone m]) acc"

text \<open>Marshalling strings cannot fail.\<close>

definition buildBackupPVCMapJSON :: "(time \<Rightarrow> int) \<Rightarrow> pvc_mount list \<Rightarrow> string" where
  "buildBackupPVCMapJSON zone ms = jsonObject (map (\<lambda>(k, es). (k, jsonArray es)) (foldl (appendEntry zone) [] ms))"

definition buildVMFileServerMainContainer :: "(time \<Rightarrow> int) \<Rightarrow> pvc_mount list \<Rightarrow> container" where
  "buildVMFileServerMainContainer zone ms = emptyContainer \<lparr>ct_name := ''vm-file-server'', ct_image := VMFileServerImage,
     ct_command := [''/usr/local/bin/detect-and-mount.sh''],
     ct_env := [(''HOME'', ''/tmp''), (''BACKUP_PVC_MAP'', buildBackupPVCMapJSON zone ms)],
     ct_preStop := Some [''/bin/bash'', ''-c'', vmFileServerPreStopScript],
     ct_security := Some (noSecurity \<lparr>sc_privileged := Some True, sc_runAsUser := Some 107, sc_runAsGroup := Some 107\<rparr>),
     ct_requests := [(''memory'', ''512Mi''), (''cpu'', ''250m'')], ct_limits := [(''memory'', ''2Gi''), (''cpu'', ''1000m'')]\<rparr>"

section \<open>Labels and annotations\<close>

definition fileServerLabels :: "string \<Rightarrow> strmap" where
  "fileServerLabels uid = [(VMFROriginUUIDLabel, uid), (ManagedByLabel, ManagedByLabelValue), (''app'', ''vmfr-file-server'')]"

definition originAnnotations :: "string \<Rightarrow> string \<Rightarrow> strmap" where
  "originAnnotations n ns = [(VMFROriginNameAnnotation, n), (VMFROriginNamespaceAnnotation, ns)]"

definition buildPodLabels :: "pod_config \<Rightarrow> strmap" where
  "buildPodLabels c = mergeMap (fileServerLabels (pc_vmfrUID c)) (pc_labels c)"

definition accessMethods :: "pod_config \<Rightarrow> string list" where
  "accessMethods c = (if pc_ssh c \<noteq> None then [''ssh''] else []) @ (if pc_fileBrowser c \<noteq> None then [''filebrowser''] else [])"

definition buildPodAnnotations :: "pod_config \<Rightarrow> strmap" where
  "buildPodAnnotations c = mergeMap (originAnnotations (pc_vmfrName c) (pc_vmfrNamespace c)
     @ [(''oadp.openshift.io/vmfr-pvc-count'', decimal (length (pc_mounts c)))]
     @ (if accessMethods c \<noteq> [] then [(''oadp.openshift.io/vmfr-access-methods'', join (accessMethods c) '','')] else []))
     (pc_annotations c)"

section \<open>Sidecars\<close>

text \<open>The mounts of the restored data in a sidecar: with internal mounts the shared directory with propagation;
  otherwise the claims under \<open>root\<close>, or the shared directory when all claims are block devices.\<close>

definition sidecarData :: "string \<Rightarrow> bool \<Rightarrow> volume_mount list \<Rightarrow> volume_mount list" where
  "sidecarData root useInternalMounts ms =
    (if useInternalMounts
     then [(mountAt ''filesystems'' (root @ ''/restores'')) \<lparr>vm_readOnly := True, vm_propagation := Some MountPropagationHostToContainer\<rparr>]
     else if ms \<noteq> [] then map (\<lambda>m. m \<lparr>vm_path := root @ vm_path m\<rparr>) ms
     else [(mountAt ''filesystems'' (root @ ''/restores'')) \<lparr>vm_readOnly := True\<rparr>])"

definition mebibytes :: "int \<Rightarrow> int" where
  "mebibytes n = n * 1024 * 1024"

definition sshVolumes :: "string \<Rightarrow> volume list" where
  "sshVolumes secret = [memoryDir ''ssh-etc'' (mebibytes 10), memoryDir ''ssh-run'' (mebibytes 10), memoryDir ''ssh-tmp'' (mebibytes 50),
     memoryDir ''ssh-dev'' (mebibytes 1), memoryDir ''ssh-oadp-etc'' (mebibytes 1),
     \<lparr>vol_name = ''ssh-secret'', vol_source = SecretVolume secret 292\<rparr>]"

definition sshCapabilities :: capabilities where
  "sshCapabilities = \<lparr>cap_add = [''AUDIT_WRITE'', ''CHOWN'', ''DAC_READ_SEARCH'', ''MKNOD'', ''SETGID'', ''SETUID'', ''SYS_CHROOT''],
     cap_drop = [''ALL'']\<rparr>"

text \<open>File modes are octal in the source: 0444 is 292, 0400 is 256.\<close>

definition buildSSHSidecar :: "ssh_access_config \<Rightarrow> bool \<Rightarrow> volume_mount list \<Rightarrow> container \<times> volume list" where
  "buildSSHSidecar config useInternalMounts ms =
    (emptyContainer \<lparr>ct_name := ''sshd'', ct_image := SSHSidecarImage, ct_ports := [tcpPort ''ssh'' (sa_port config)],
       ct_security := Some (noSecurity \<lparr>sc_runAsUser := Some 0, sc_readOnlyRoot := Some True, sc_allowEscalation := Some False,
         sc_capabilities := Some sshCapabilities\<rparr>),
       ct_mounts := [mountAt ''ssh-etc'' ''/etc'', mountAt ''ssh-run'' ''/run'', mountAt ''ssh-tmp'' ''/tmp'',
         mountAt ''ssh-dev'' ''/oadp/dev'', mountAt ''ssh-oadp-etc'' ''/oadp/etc'',
         (mountAt ''ssh-secret'' ''/ssh-config'') \<lparr>vm_readOnly := True\<rparr>,
         (mountAt ''ssh-secret'' ''/oadp/.ssh/authorized_keys'') \<lparr>vm_subPath := ''authorized_keys'', vm_readOnly := True\<rparr>]
         @ sidecarData ''/oadp'' useInternalMounts ms\<rparr>,
     sshVolumes (sa_secretName config))"

definition fileBrowserVolumes :: "string \<Rightarrow> volume list" where
  "fileBrowserVolumes secret = [memoryDir ''database'' (mebibytes 10), memoryDir ''tmp'' (mebibytes 10),
     \<lparr>vol_name = ''filebrowser-tls'', vol_source = SecretVolume ''filebrowser-tls'' 256\<rparr>,
     \<lparr>vol_name = ''filebrowser-credentials'', vol_source = SecretVolume secret 292\<rparr>]"

definition buildFileBrowserSidecar :: "filebrowser_access_config \<Rightarrow> bool \<Rightarrow> volume_mount list \<Rightarrow> container \<times> volume list" where
  "buildFileBrowserSidecar config useInternalMounts ms =
    (emptyContainer \<lparr>ct_name := ''filebrowser'', ct_image := FileBrowserSidecarImage, ct_command := [''/bin/bash'', ''-c''],
       ct_args := [fileBrowserInitScript], ct_ports := [tcpPort ''https'' (ba_port config)],
       ct_env := [(''FB_ROOT'', ''/restores''), (''FB_PORT'', decimal (ba_port config)), (''FB_ADDRESS'', ''0.0.0.0''),
         (''FB_DATABASE'', ''/database/filebrowser.db''), (''FB_BRANDING_NAME'', ''OADP VM File Restore Browser'')],
       ct_security := Some (noSecurity \<lparr>sc_runAsUser := Some 1000, sc_runAsGroup := Some 1000, sc_runAsNonRoot := Some True,
         sc_readOnlyRoot := Some True, sc_allowEscalation := Some False,
         sc_capabilities := Some \<lparr>cap_add = [], cap_drop = [''ALL'']\<rparr>\<rparr>),
       ct_mounts := [mountAt ''database'' ''/database'', mountAt ''tmp'' ''/tmp'',
         (mountAt ''filebrowser-tls'' ''/etc/filebrowser-tls'') \<lparr>vm_readOnly := True\<rparr>,
         (mountAt ''filebrowser-credentials'' ''/etc/filebrowser-credentials'') \<lparr>vm_readOnly := True\<rparr>]
         @ sidecarData [] useInternalMounts ms\<rparr>,
     fileBrowserVolumes (ba_secretName config))"

section \<open>The pod\<close>

definition sidecars :: "pod_config \<Rightarrow> volume_mount list \<Rightarrow> (container \<times> volume list) list" where
  "sidecars c ms =
    (case pc_ssh c of None \<Rightarrow> [] | Some s \<Rightarrow> [buildSSHSidecar s (pc_internalMounts c) ms])
    @ (case pc_fileBrowser c of None \<Rightarrow> [] | Some b \<Rightarrow> [buildFileBrowserSidecar b (pc_internalMounts c) ms])"

definition utilityVolumes :: "volume list" where
  "utilityVolumes = [hostDevice ''fuse-device'' ''/dev/fuse'', hostDevice ''kvm-device'' ''/dev/kvm'', emptyDir ''filesystems'']"

text \<open>The main container with the mounts of the pod added, and with internal mounts its security context replaced.\<close>

definition configureMain :: "pod_config \<Rightarrow> volume_mount list \<Rightarrow> volume_device list \<Rightarrow> container \<Rightarrow> container" where
  "configureMain c ms ds main =
    (let devices = [mountAt ''fuse-device'' ''/dev/fuse'', mountAt ''kvm-device'' ''/dev/kvm'']
     in if pc_internalMounts c
        then main \<lparr>ct_mounts := ct_mounts main
             @ [(mountAt ''shared-mounts'' (if pc_sharedMountPath c = [] then ''/mnt/restore'' else pc_sharedMountPath c))
                  \<lparr>vm_propagation := Some MountPropagationBidirectional\<rparr>]
             @ ms @ devices
             @ (if ds \<noteq> [] then [(mountAt ''filesystems'' ''/restores'') \<lparr>vm_propagation := Some MountPropagationBidirectional\<rparr>] else []),
           ct_devices := ct_devices main @ ds,
           ct_security := Some (case pc_security c of Some sc \<Rightarrow> sc | None \<Rightarrow> noSecurity \<lparr>sc_privileged := Some True\<rparr>)\<rparr>
        else main \<lparr>ct_mounts := ct_mounts main @ ms @ devices @ (if ds \<noteq> [] then [mountAt ''filesystems'' ''/restores''] else []),
           ct_devices := ct_devices main @ ds\<rparr>)"

definition mainContainer :: "pod_config \<Rightarrow> volume_mount list \<Rightarrow> container" where
  "mainContainer c ms = (case pc_mainContainer c of Some m \<Rightarrow> m | None \<Rightarrow> buildDefaultMainContainer ms)"

definition buildFileServerPodSpec :: "(time \<Rightarrow> int) \<Rightarrow> pod_config \<Rightarrow> pod result" where
  "buildFileServerPodSpec zone c =
    (if pc_podName c = [] then Inl (errorf ''pod name is required'')
     else if pc_podNamespace c = [] then Inl (errorf ''pod namespace is required'')
     else if pc_vmfrName c = [] then Inl (errorf ''VMFR name is required for labels'')
     else if pc_mounts c = [] then Inl (errorf ''at least one PVC mount is required'')
     else (let (vs, ms, ds) = buildPVCVolumesAndMounts zone (pc_mounts c); sides = sidecars c ms
       in Inr \<lparr>pod_meta = empty_meta \<lparr>om_name := pc_podName c, om_namespace := pc_podNamespace c, om_labels := buildPodLabels c,
              om_annotations := buildPodAnnotations c\<rparr>,
            pod_serviceAccount = ''vmfr-file-server'', pod_initContainers = [],
            pod_containers = configureMain c ms ds (mainContainer c ms) # map fst sides,
            pod_volumes = vs @ (if pc_internalMounts c then [emptyDir ''shared-mounts''] else []) @ utilityVolumes
              @ concat (map snd sides),
            pod_restartPolicy = ''Always'', pod_shareProcesses = (pc_ssh c \<noteq> None),
            pod_fsGroup = 107, pod_supplementalGroups = [107], pod_seLinuxType = ''spc_t''\<rparr>))"

section \<open>Service and route\<close>

definition buildDefaultHTTPServicePort :: service_port where
  "buildDefaultHTTPServicePort = \<lparr>sp_name = ''http'', sp_port = DefaultFileServerPort, sp_targetPort = DefaultFileServerPort, sp_protocol = ''TCP''\<rparr>"

definition gatherServicePorts :: "ssh_access_config option \<Rightarrow> filebrowser_access_config option \<Rightarrow> service_port list" where
  "gatherServicePorts ssh fb = buildDefaultHTTPServicePort
     # (case ssh of None \<Rightarrow> [] | Some s \<Rightarrow> [\<lparr>sp_name = ''ssh'', sp_port = sa_port s, sp_targetPort = sa_port s, sp_protocol = ''TCP''\<rparr>])
     @ (case fb of None \<Rightarrow> [] | Some b \<Rightarrow> [\<lparr>sp_name = ''https'', sp_port = ba_port b, sp_targetPort = ba_port b, sp_protocol = ''TCP''\<rparr>])"

definition buildFileServerService :: "service_config \<Rightarrow> file_service result" where
  "buildFileServerService c =
    (if vc_name c = [] then Inl (errorf ''service name is required'')
     else if vc_namespace c = [] then Inl (errorf ''service namespace is required'')
     else if vc_vmfrName c = [] then Inl (errorf ''VMFR name is required for labels'')
     else if vc_ports c = [] then Inl (errorf ''at least one port is required'')
     else Inr \<lparr>fv_meta = empty_meta \<lparr>om_name := vc_name c, om_namespace := vc_namespace c,
              om_labels := mergeMap (fileServerLabels (vc_vmfrUID c)) (vc_labels c),
              om_annotations := mergeMap (originAnnotations (vc_vmfrName c) (vc_vmfrNamespace c)) (vc_annotations c)\<rparr>,
            fv_selector = (if vc_selector c = [] then [(VMFROriginUUIDLabel, vc_vmfrUID c), (''app'', ''vmfr-file-server'')]
              else vc_selector c),
            fv_ports = vc_ports c, fv_type = (if vc_type c = [] then ''ClusterIP'' else vc_type c)\<rparr>)"

definition buildFileServerRoute :: "route_config \<Rightarrow> file_route result" where
  "buildFileServerRoute c =
    (if rc_name c = [] then Inl (errorf ''route name is required'')
     else if rc_namespace c = [] then Inl (errorf ''route namespace is required'')
     else if rc_vmfrName c = [] then Inl (errorf ''VMFR name is required for labels'')
     else if rc_serviceName c = [] then Inl (errorf ''service name is required'')
     else if rc_targetPort c = [] then Inl (errorf ''target port is required'')
     else Inr \<lparr>fr_meta = empty_meta \<lparr>om_name := rc_name c, om_namespace := rc_namespace c,
              om_labels := mergeMap (fileServerLabels (rc_vmfrUID c)) (rc_labels c),
              om_annotations := mergeMap (originAnnotations (rc_vmfrName c) (rc_vmfrNamespace c)) (rc_annotations c)\<rparr>,
            fr_subdomain = rc_subdomain c, fr_toKind = ''Service'', fr_toName = rc_serviceName c, fr_targetPort = rc_targetPort c,
            fr_termination = rc_termination c, fr_insecurePolicy = rc_insecurePolicy c, fr_wildcardPolicy = ''None''\<rparr>)"

end
