(* ===== verification/Restore_Namespace.thy ===== *)
theory Restore_Namespace
  imports Restore_Env
begin

text \<open>
  The restore namespace of a file restore and the service account and role binding its file server needs there:
  \<open>ensureRestoreNamespace\<close> and \<open>ensureFileServerAccess\<close> of the file restore controller.
\<close>

section \<open>Access resources\<close>

definition accessMeta :: "vmfr \<Rightarrow> string \<Rightarrow> string \<Rightarrow> object_meta" where
  "accessMeta v ns name = empty_meta \<lparr>om_name := name, om_namespace := ns,
     om_labels := [(VMFROriginUUIDLabel, vmfr_uid v), (ManagedByLabel, ManagedByLabelValue)]\<rparr>"

definition sccRoleRef :: role_ref where
  "sccRoleRef = \<lparr>rr_apiGroup = ''rbac.authorization.k8s.io'', rr_kind = ''ClusterRole'', rr_name = ''system:openshift:scc:privileged''\<rparr>"

definition fileServerSubject :: "string \<Rightarrow> rbac_subject" where
  "fileServerSubject ns = \<lparr>su_kind = ''ServiceAccount'', su_apiGroup = [], su_name = serviceAccountName, su_namespace = ns\<rparr>"

definition sccRoleBinding :: "vmfr \<Rightarrow> string \<Rightarrow> role_binding" where
  "sccRoleBinding v ns = \<lparr>rb_meta = accessMeta v ns roleBindingName, rb_roleRef = sccRoleRef, rb_subjects = [fileServerSubject ns]\<rparr>"

text \<open>Reading an object, or creating it when it is missing and then reading it past the cache. A creation
  that fails with \<open>skip\<close> ends with \<^const>\<open>None\<close>.\<close>

definition getOrCreate :: "('w, 'a) io \<Rightarrow> ('w, 'a) io \<Rightarrow> ('w, 'a) io \<Rightarrow> (go_error \<Rightarrow> bool) \<Rightarrow> string \<Rightarrow> string \<Rightarrow> ('w, 'a option) io" where
  "getOrCreate getObj createObj readObj skip getMsg createMsg w =
    (let reread = (\<lambda>w2. case readObj w2 of (Inl e, w3) \<Rightarrow> (Inl (errorf_w getMsg e), w3) | (Inr x, w3) \<Rightarrow> (Inr (Some x), w3))
     in case getObj w of
          (Inr x, w1) \<Rightarrow> (Inr (Some x), w1)
        | (Inl e, w1) \<Rightarrow>
           if IsNotFound e then
             (case createObj w1 of
                (Inr _, w2) \<Rightarrow> reread w2
              | (Inl ce, w2) \<Rightarrow>
                 if skip ce then (Inr None, w2)
                 else if IsAlreadyExists ce then reread w2
                 else (Inl (errorf_w createMsg ce), w2))
           else (Inl (errorf_w getMsg e), w1))"

definition ensureServiceAccount :: "'w restore_env \<Rightarrow> vmfr \<Rightarrow> string \<Rightarrow> ('w, unit) io" where
  "ensureServiceAccount E v ns w =
    (let key = \<lparr>nn_namespace = ns, nn_name = serviceAccountName\<rparr>;
         here = '' ServiceAccount '' @ quoted serviceAccountName @ '' in namespace '' @ quoted ns
     in case getOrCreate (oe_get (re_objects E) KServiceAccount key) (re_createServiceAccount E (accessMeta v ns serviceAccountName))
               (re_readServiceAccount E key) (\<lambda>_. False) (''failed to get'' @ here @ '': '') (''failed to create'' @ here @ '': '') w of
          (Inl e, w1) \<Rightarrow> (Inl e, w1)
        | (Inr None, w1) \<Rightarrow> (Inr (), w1)
        | (Inr (Some m), w1) \<Rightarrow>
           if \<not> isControllerManagedResource m then (Inl (errorf (''existing'' @ here @ '' is not managed by VMFR'')), w1)
           else (Inr (), w1))"

definition checkRoleBinding :: "string \<Rightarrow> role_binding \<Rightarrow> unit result" where
  "checkRoleBinding ns b =
    (let here = ''existing SCC RoleBinding '' @ quoted roleBindingName @ '' in namespace '' @ quoted ns
     in if \<not> isControllerManagedResource (rb_meta b) then Inl (errorf (here @ '' is not managed by VMFR''))
        else if rb_roleRef b \<noteq> sccRoleRef then Inl (errorf (here @ '' has an unexpected role reference''))
        else if length (rb_subjects b) \<noteq> 1 \<or> hd (rb_subjects b) \<noteq> fileServerSubject ns
        then Inl (errorf (here @ '' has unexpected subjects''))
        else Inr ())"

text \<open>A creation that fails with \<open>NotFound\<close> means that the cluster role does not exist: not an OpenShift cluster.\<close>

definition ensureRoleBinding :: "'w restore_env \<Rightarrow> vmfr \<Rightarrow> string \<Rightarrow> ('w, unit) io" where
  "ensureRoleBinding E v ns w =
    (let key = \<lparr>nn_namespace = ns, nn_name = roleBindingName\<rparr>; here = '' SCC RoleBinding in namespace '' @ quoted ns
     in case getOrCreate (re_getRoleBinding E key) (re_createRoleBinding E (sccRoleBinding v ns)) (re_readRoleBinding E key)
               IsNotFound (''failed to get'' @ here @ '': '') (''failed to create'' @ here @ '': '') w of
          (Inl e, w1) \<Rightarrow> (Inl e, w1)
        | (Inr None, w1) \<Rightarrow> (Inr (), w1)
        | (Inr (Some b), w1) \<Rightarrow> (checkRoleBinding ns b, w1))"

definition ensureFileServerAccess :: "'w restore_env \<Rightarrow> vmfr \<Rightarrow> string \<Rightarrow> ('w, unit) io" where
  "ensureFileServerAccess E v ns = bindR (ensureServiceAccount E v ns) (\<lambda>_. ensureRoleBinding E v ns)"

section \<open>The namespace\<close>

definition recordNamespace :: "'w restore_env \<Rightarrow> vmfr \<Rightarrow> string \<Rightarrow> string \<Rightarrow> ('w, vmfr) io" where
  "recordNamespace E v ns msg w =
    (case fe_patchStatus (re_vmfr E) v (v \<lparr>vmfr_status := (vmfr_status v) \<lparr>fs_createdNamespace := ns\<rparr>\<rparr>) w of
       (Inl e, w1) \<Rightarrow> (Inl (errorf_w msg e), w1)
     | (Inr v1, w1) \<Rightarrow> (Inr v1, w1))"

definition temporaryNamespace :: "vmfr \<Rightarrow> string \<Rightarrow> object_meta" where
  "temporaryNamespace v name = empty_meta \<lparr>om_name := name,
     om_labels := [(VMFROriginUUIDLabel, vmfr_uid v), (VMFRTempNamespaceLabel, TrueString), (ManagedByLabel, ManagedByLabelValue)],
     om_owners := [\<lparr>or_apiVersion = vmfr_apiVersion v, or_kind = vmfr_kind v, or_name = vmfr_name v, or_uid = vmfr_uid v,
       or_controller = Some True, or_blockOwnerDeletion = Some True\<rparr>]\<rparr>"

text \<open>A namespace that is recorded and whose access resources are in place, with the object as the patch left it.\<close>

definition settleNamespace :: "'w restore_env \<Rightarrow> vmfr \<Rightarrow> string \<Rightarrow> string \<Rightarrow> ('w, string \<times> vmfr) io" where
  "settleNamespace E v ns msg = bindR (recordNamespace E v ns msg)
     (\<lambda>v1. bindR (ensureFileServerAccess E v1 ns) (\<lambda>_. returnR (ns, v1)))"

definition ensureRestoreNamespace :: "'w restore_env \<Rightarrow> vmfr \<Rightarrow> ('w, string \<times> vmfr) io" where
  "ensureRestoreNamespace E v w =
    (let given = RestoreNamespace (vmfr_spec v)
     in if given \<noteq> [] then
          (case oe_get (re_objects E) KNamespace \<lparr>nn_namespace = [], nn_name = given\<rparr> w of
             (Inl e, w1) \<Rightarrow>
               (Inl (if IsNotFound e then errorf (''specified restore namespace '' @ quoted given @ '' does not exist'')
                     else errorf_w (''failed to validate restore namespace '' @ quoted given @ '': '') e), w1)
           | (Inr _, w1) \<Rightarrow> settleNamespace E v given ''failed to update status with restore namespace: '' w1)
        else
          (case getDiscoveryResource (re_vmfr E) v w of
             (Inl e, w1) \<Rightarrow> (Inl (errorf_w ''failed to get discovery resource for namespace generation: '' e), w1)
           | (Inr d, w1) \<Rightarrow>
              (let name = GenerateTemporaryVMFRNamespaceName (NamespacePrefix (vmfr_spec v)) (VirtualMachineNamespace (vmbd_spec d))
                      (VirtualMachineName (vmbd_spec d)) (vmfr_uid v)
               in case re_createNamespace E (temporaryNamespace v name) w1 of
                    (Inl e, w2) \<Rightarrow>
                      if IsAlreadyExists e then settleNamespace E v name ''failed to update status with created namespace: '' w2
                      else (Inl (errorf_w (''failed to create temporary namespace '' @ quoted name @ '': '') e), w2)
                  | (Inr _, w2) \<Rightarrow> settleNamespace E v name ''failed to update status with created namespace: '' w2)))"

section \<open>Facts\<close>

lemma checkRoleBinding_ok:
  "checkRoleBinding ns b = Inr () \<longleftrightarrow> isControllerManagedResource (rb_meta b) \<and> rb_roleRef b = sccRoleRef
     \<and> rb_subjects b = [fileServerSubject ns]"
  by (cases "rb_subjects b") (auto simp: checkRoleBinding_def Let_def)

text \<open>A service account or role binding that is used was either there before or re-read after a creation.\<close>

lemma getOrCreate_SomeE:
  assumes "getOrCreate g c r skip gm cm w = (Inr (Some x), w2)"
  obtains "g w = (Inr x, w2)" | w1 where "r w1 = (Inr x, w2)"
  using assms by (auto simp: getOrCreate_def Let_def split: prod.splits sum.splits if_splits)

lemma getOrCreate_NoneE:
  assumes "getOrCreate g c r skip gm cm w = (Inr None, w2)"
  obtains e w1 where "c w1 = (Inl e, w2)" "skip e"
  using assms by (auto simp: getOrCreate_def Let_def split: prod.splits sum.splits if_splits)

lemma recordNamespace_ok:
  assumes "recordNamespace E v ns msg w = (Inr v1, w1)"
  shows "fe_patchStatus (re_vmfr E) v (v \<lparr>vmfr_status := (vmfr_status v) \<lparr>fs_createdNamespace := ns\<rparr>\<rparr>) w = (Inr v1, w1)"
  using assms by (auto simp: recordNamespace_def split: prod.splits sum.splits)

lemma ensureRestoreNamespaceE:
  assumes "ensureRestoreNamespace E v w = (Inr (ns, v1), w1)"
  obtains wa msg where "settleNamespace E v ns msg wa = (Inr (ns, v1), w1)"
    and "ns = RestoreNamespace (vmfr_spec v) \<and> ns \<noteq> []
      \<or> RestoreNamespace (vmfr_spec v) = [] \<and> (\<exists>d::vmbd. ns = GenerateTemporaryVMFRNamespaceName (NamespacePrefix (vmfr_spec v))
            (VirtualMachineNamespace (vmbd_spec d)) (VirtualMachineName (vmbd_spec d)) (vmfr_uid v))"
proof -
  have ns: "ns' = ns" if "settleNamespace E v ns' msg wa = (Inr (ns, v1), w1)" for ns' msg wa
    using that by (auto simp: settleNamespace_def elim!: bindR_InrE)
  let ?gen = "\<lambda>d::vmbd. GenerateTemporaryVMFRNamespaceName (NamespacePrefix (vmfr_spec v))
     (VirtualMachineNamespace (vmbd_spec d)) (VirtualMachineName (vmbd_spec d)) (vmfr_uid v)"
  show thesis
  proof (cases "RestoreNamespace (vmfr_spec v) = []")
    case True
    then obtain d msg wa where "settleNamespace E v (?gen d) msg wa = (Inr (ns, v1), w1)"
      using assms unfolding ensureRestoreNamespace_def Let_def by (auto split: if_splits prod.splits sum.splits)
    then show thesis using ns that True by metis
  next
    case False
    then obtain msg wa where "settleNamespace E v (RestoreNamespace (vmfr_spec v)) msg wa = (Inr (ns, v1), w1)"
      using assms unfolding ensureRestoreNamespace_def Let_def by (auto split: if_splits prod.splits sum.splits)
    then show thesis using ns that False by metis
  qed
qed

end
