(* ===== verification/Restore_Credentials.thy ===== *)
theory Restore_Credentials
  imports Restore_Claims
begin

text \<open>
  The credentials of the file server: secrets given by the user are validated and copied into the restore
  namespace, others are generated (\<open>ensureSecretInRestoreNamespace\<close>, \<open>cleanupAllCredentialSecrets\<close> and
  \<open>ensureCredentials\<close> of the file restore controller).
\<close>

section \<open>Secrets given by the user\<close>

definition copiedSecret :: "vmfr \<Rightarrow> string \<Rightarrow> string \<Rightarrow> string \<Rightarrow> secret \<Rightarrow> secret" where
  "copiedSecret v name ns ctype src =
     \<lparr>sec_meta = empty_meta \<lparr>om_generateName := vmfr_name v @ ''-'' @ ctype @ ''-'', om_namespace := restoreNs v,
        om_labels := [(ManagedByLabel, ManagedByLabelValue), (VMFROriginUUIDLabel, vmfr_uid v),
          (VMFRManagedCopyLabel, TrueString), (CredentialTypeLabel, ctype)],
        om_annotations := [(VMFROriginNameAnnotation, vmfr_name v), (VMFROriginNamespaceAnnotation, om_namespace (vmfr_meta v)),
          (''oadp.openshift.io/copied-from'', ns @ ''/'' @ name), (''oadp.openshift.io/copied-from-secret'', name),
          (''oadp.openshift.io/copied-from-ns'', ns), (''oadp.openshift.io/generated-by'', ''oadp-vm-file-restore-controller'')]\<rparr>,
      sec_type = ''Opaque'', sec_stringData = [], sec_data = sec_data src\<rparr>"

definition isCopyOf :: "string \<Rightarrow> string \<Rightarrow> secret \<Rightarrow> bool" where
  "isCopyOf name ns s \<longleftrightarrow> annotation (sec_meta s) ''oadp.openshift.io/copied-from-secret'' = name
     \<and> annotation (sec_meta s) ''oadp.openshift.io/copied-from-ns'' = ns"

definition ensureSecretInRestoreNamespace :: "'w restore_env \<Rightarrow> string \<Rightarrow> string \<Rightarrow> vmfr \<Rightarrow> (secret \<Rightarrow> unit result) \<Rightarrow> string
    \<Rightarrow> ('w, string) io" where
  "ensureSecretInRestoreNamespace E name ns v validator ctype w =
    (let target = restoreNs v; full = ns @ ''/'' @ name; key = \<lparr>nn_namespace = ns, nn_name = name\<rparr>
     in if ns = target then
          (case re_getSecret E key w of
             (Inl e, w1) \<Rightarrow> (Inl (errorf_w (''failed to get secret '' @ full @ '': '') e), w1)
           | (Inr s, w1) \<Rightarrow> (case validator s of
               Inl e \<Rightarrow> (Inl (errorf_w (''secret validation failed for '' @ full @ '': '') e), w1)
             | Inr _ \<Rightarrow> (Inr name, w1)))
        else
          (case re_getSecret E key w of
             (Inl e, w1) \<Rightarrow> (Inl (errorf_w (''failed to get source secret '' @ full @ '': '') e), w1)
           | (Inr src, w1) \<Rightarrow> (case validator src of
               Inl e \<Rightarrow> (Inl (errorf_w (''source secret validation failed for '' @ full @ '': '') e), w1)
             | Inr _ \<Rightarrow>
                (case re_listSecrets E target [(VMFROriginUUIDLabel, vmfr_uid v), (CredentialTypeLabel, ctype),
                        (VMFRManagedCopyLabel, TrueString)] w1 of
                   (Inl e, w2) \<Rightarrow> (Inl (errorf_w ''failed to list existing copied secrets: '' e), w2)
                 | (Inr ss, w2) \<Rightarrow> (case find (isCopyOf name ns) ss of
                     Some c \<Rightarrow> (case validator c of
                         Inl e \<Rightarrow> (Inl (errorf_w (''existing copied secret validation failed for '' @ target @ ''/'' @ om_name (sec_meta c) @ '': '') e), w2)
                       | Inr _ \<Rightarrow> (Inr (om_name (sec_meta c)), w2))
                   | None \<Rightarrow> (case re_createSecret E (copiedSecret v name ns ctype src) w2 of
                         (Inl e, w3) \<Rightarrow> (Inl (errorf_w (''failed to create copied secret with prefix '' @ vmfr_name v @ ''-'' @ ctype @ ''-: '') e), w3)
                       | (Inr c, w3) \<Rightarrow> (Inr (om_name (sec_meta c)), w3)))))))"

section \<open>Removal of earlier secrets\<close>

fun deleteCredentials :: "'w restore_env \<Rightarrow> secret list \<Rightarrow> ('w, unit) io" where
  "deleteCredentials E [] w = (Inr (), w)"
| "deleteCredentials E (s # ss) w =
    (if labelValue (sec_meta s) CredentialTypeLabel = [] then deleteCredentials E ss w
     else (case oe_delete (re_objects E) KSecret (sec_meta s) w of
        (Inr _, w1) \<Rightarrow> deleteCredentials E ss w1
      | (Inl e, w1) \<Rightarrow> if IsNotFound e then deleteCredentials E ss w1
          else (Inl (errorf_w (''failed to delete credential secret '' @ om_name (sec_meta s) @ '': '') e), w1)))"

definition cleanupAllCredentialSecrets :: "'w restore_env \<Rightarrow> vmfr \<Rightarrow> ('w, unit) io" where
  "cleanupAllCredentialSecrets E v w = (case re_listSecrets E (restoreNs v) (ownedBy v) w of
     (Inl e, w1) \<Rightarrow> (Inl (errorf_w ''failed to list existing credential secrets: '' e), w1)
   | (Inr ss, w1) \<Rightarrow> deleteCredentials E ss w1)"

section \<open>Preparing the credentials\<close>

definition wrapR :: "string \<Rightarrow> ('w, 'a) io \<Rightarrow> ('w, 'a) io" where
  "wrapR msg f w = (case f w of (Inl e, w1) \<Rightarrow> (Inl (errorf_w msg e), w1) | (Inr x, w1) \<Rightarrow> (Inr x, w1))"

definition secretNamespace :: "'w restore_env \<Rightarrow> secret_reference \<Rightarrow> string" where
  "secretNamespace E r = (if sr_namespace r = [] then fe_oadpNamespace (re_vmfr E) else sr_namespace r)"

definition sshUsername :: "ssh_access_spec \<Rightarrow> string" where
  "sshUsername s = (if ssh_username s = [] then DefaultUsername else ssh_username s)"

definition inlineSecret :: "vmfr \<Rightarrow> ssh_access_spec \<Rightarrow> secret" where
  "inlineSecret v s = \<lparr>sec_meta = empty_meta \<lparr>om_generateName := vmfr_name v @ ''-ssh-inline-'', om_namespace := restoreNs v,
       om_labels := [(ManagedByLabel, ManagedByLabelValue), (VMFROriginUUIDLabel, vmfr_uid v), (CredentialTypeLabel, CredentialTypeSSH)],
       om_annotations := [(VMFROriginNameAnnotation, vmfr_name v), (VMFROriginNamespaceAnnotation, om_namespace (vmfr_meta v)),
         (''oadp.openshift.io/generated-by'', ''oadp-vm-file-restore-controller''), (''oadp.openshift.io/source'', ''inline-public-key'')]\<rparr>,
     sec_type = ''Opaque'', sec_stringData = [(''username'', sshUsername s), (''authorized_keys'', ssh_publicKey s)], sec_data = None\<rparr>"

definition generateKeyPair :: "'w restore_env \<Rightarrow> ('w, SSHKeyPair) io" where
  "generateKeyPair E w = (let (cr, w1) = re_crypto E w in (GenerateSSHKeyPair cr, w1))"

definition ensureSSHCredentials :: "'w restore_env \<Rightarrow> vmfr \<Rightarrow> ssh_access_spec \<Rightarrow> ('w, string) io" where
  "ensureSSHCredentials E v s = (case ssh_secretRef s of
     Some r \<Rightarrow> wrapR ''failed to ensure SSH secret in restore namespace: ''
       (ensureSecretInRestoreNamespace E (sr_name r) (secretNamespace E r) v (ValidateSSHSecret (re_parseKey E)) CredentialTypeSSH)
   | None \<Rightarrow>
      if ssh_publicKey s \<noteq> [] then
        (case ValidateSSHPublicKey (re_parseKey E) (ssh_publicKey s) of
           Inl e \<Rightarrow> failR (errorf_w ''inline SSH publicKey validation failed: '' e)
         | Inr _ \<Rightarrow> bindR (wrapR ''failed to create SSH secret from inline public key: '' (re_createSecret E (inlineSecret v s)))
                      (\<lambda>c. returnR (om_name (sec_meta c))))
      else bindR (wrapR ''failed to generate SSH keypair: '' (generateKeyPair E)) (\<lambda>keyPair.
        bindR (wrapR ''failed to create generated SSH credentials secret: '' (re_createSecret E
           (CreateSSHCredentialsSecret (vmfr_name v @ ''-ssh-'') (restoreNs v) (sshUsername s) keyPair
              (vmfr_name v) (om_namespace (vmfr_meta v)) (vmfr_uid v))))
          (\<lambda>c. returnR (om_name (sec_meta c)))))"

definition generateFileBrowser :: "'w restore_env \<Rightarrow> ('w, FileBrowserCredentials) io" where
  "generateFileBrowser E w = (let (bytes, w1) = re_randomBytes E w in (GenerateFileBrowserCredentials bytes [], w1))"

definition ensureFileBrowserCredentials :: "'w restore_env \<Rightarrow> vmfr \<Rightarrow> filebrowser_access_spec \<Rightarrow> ('w, string) io" where
  "ensureFileBrowserCredentials E v f = (case fb_secretRef f of
     Some r \<Rightarrow> wrapR ''failed to ensure FileBrowser secret in restore namespace: ''
       (ensureSecretInRestoreNamespace E (sr_name r) (secretNamespace E r) v ValidateFileBrowserSecret CredentialTypeFileBrowser)
   | None \<Rightarrow> bindR (wrapR ''failed to generate FileBrowser credentials: '' (generateFileBrowser E)) (\<lambda>cred.
        bindR (wrapR ''failed to create generated FileBrowser credentials secret: '' (re_createSecret E
           (CreateFileBrowserCredentialsSecret (vmfr_name v @ ''-filebrowser-'') (restoreNs v) cred
              (vmfr_name v) (om_namespace (vmfr_meta v)) (vmfr_uid v))))
          (\<lambda>c. returnR (om_name (sec_meta c)))))"

text \<open>The names of the prepared secrets are dropped.\<close>

definition ensureCredentials :: "'w restore_env \<Rightarrow> vmfr \<Rightarrow> ('w, unit) io" where
  "ensureCredentials E v =
    (if restoreNs v = [] then failR (errorf ''restore namespace not found in status'')
     else if sshSpec v = None \<and> fileBrowserSpec v = None
     then failR (errorf ''invalid fileAccess configuration: at least one of SSH or FileBrowser must be specified'')
     else bindR (wrapR ''failed to cleanup existing credential secrets: '' (cleanupAllCredentialSecrets E v)) (\<lambda>_.
       bindR (case sshSpec v of None \<Rightarrow> returnR [] | Some s \<Rightarrow> ensureSSHCredentials E v s) (\<lambda>_.
       bindR (case fileBrowserSpec v of None \<Rightarrow> returnR [] | Some f \<Rightarrow> ensureFileBrowserCredentials E v f) (\<lambda>_. returnR ()))))"

end
