(* ===== verification/Restore_Workflow.thy ===== *)
theory Restore_Workflow
  imports Restore_Namespace Restore_Credentials
begin

text \<open>
  The state machine of the file restore controller: status patches, validation, the workflow steps and
  \<open>Reconcile\<close> (\<open>internal/controller/virtualmachinefilerestore_controller.go\<close>, lines 108 to 1370). The creation of the
  file server's pod, service and route (\<open>createFileServerResources\<close>) is an argument, \<open>createServer\<close>; it returns the
  object with the access information it set in memory.

  A step that fails keeps no in-memory changes of the object: they would be in the baseline and in the
  modified object of the next status patch alike, so that they never reach the server, and the object is
  dropped at the end of the reconciliation. The steps return only whether to requeue, because a step that
  changes the object is the last one of its reconciliation.
\<close>

section \<open>Conditions\<close>

record cond_spec =
  cs_type :: string
  cs_status :: condition_status
  cs_reason :: string
  cs_message :: string

definition specAt :: "time \<Rightarrow> cond_spec \<Rightarrow> condition" where
  "specAt t c = \<lparr>cond_type = cs_type c, cond_status = cs_status c, cond_reason = cs_reason c, cond_message = cs_message c,
     cond_observedGeneration = 0, cond_lastTransition = t\<rparr>"

text \<open>One reading of the clock for each condition.\<close>

fun stamped :: "'w vmfr_env \<Rightarrow> cond_spec list \<Rightarrow> 'w \<Rightarrow> condition list \<times> 'w" where
  "stamped V [] w = ([], w)"
| "stamped V (c # cs) w = (let (t, w1) = pe_now (fe_pvc V) w; (ds, w2) = stamped V cs w1 in (specAt t c # ds, w2))"

text \<open>The four conditions in the order the code lists them: Progressing, Available, Degraded, Ready, each with its
  status, reason and message.\<close>

type_synonym cond_value = "condition_status \<times> string \<times> string"

definition fourConditions :: "cond_value \<Rightarrow> cond_value \<Rightarrow> cond_value \<Rightarrow> cond_value \<Rightarrow> cond_spec list" where
  "fourConditions p a d r = map (\<lambda>(t, s, rs, m). \<lparr>cs_type = t, cs_status = s, cs_reason = rs, cs_message = m\<rparr>)
     [(ConditionTypeProgressing, p), (ConditionTypeAvailable, a), (ConditionTypeDegraded, d), (ConditionTypeReady, r)]"

definition patchVmfrStatusPhaseConditions :: "'w vmfr_env \<Rightarrow> vmfr \<Rightarrow> restore_phase \<Rightarrow> condition list \<Rightarrow> bool \<Rightarrow> ('w, vmfr) io" where
  "patchVmfrStatusPhaseConditions V v newPhase conditions updateObservedGen =
    (let st = vmfr_status v
     in fe_patchStatus V v (v \<lparr>vmfr_status := st \<lparr>fs_phase := newPhase,
          fs_observedGeneration := (if updateObservedGen then om_generation (vmfr_meta v) else fs_observedGeneration st),
          fs_conditions := foldl (fe_setCondition V) (fs_conditions st) conditions\<rparr>\<rparr>))"

definition patchWith :: "'w vmfr_env \<Rightarrow> vmfr \<Rightarrow> restore_phase \<Rightarrow> cond_spec list \<Rightarrow> bool \<Rightarrow> ('w, vmfr) io" where
  "patchWith V v ph cs updateGen w =
    (let (conds, w1) = stamped V cs w in patchVmfrStatusPhaseConditions V v ph conds updateGen w1)"

section \<open>Failing\<close>

definition failedConditions :: "string \<Rightarrow> string \<Rightarrow> cond_spec list" where
  "failedConditions reason msg = fourConditions (ConditionFalse, ''ValidationFailed'', msg) (ConditionFalse, reason, msg)
     (ConditionTrue, ''CriticalFailure'', msg) (ConditionFalse, ''Failed'', msg)"

definition failValidation :: "'w vmfr_env \<Rightarrow> vmfr \<Rightarrow> string \<Rightarrow> string \<Rightarrow> ('w, 'a) io" where
  "failValidation V v reason msg = bindR (patchWith V v VMFRPhaseFailed (failedConditions reason msg) False)
     (\<lambda>_. failR (errorf (''validation failed: '' @ msg)))"

definition partialConditions :: "string \<Rightarrow> string \<Rightarrow> cond_spec list" where
  "partialConditions reason msg = fourConditions (ConditionFalse, ''PartialValidationFailed'', msg)
     (ConditionTrue, reason, ''Some PVCs are available but not all backups succeeded'')
     (ConditionTrue, ''PartialFailure'', msg) (ConditionFalse, ''PartiallyFailed'', msg)"

definition failPartialValidation :: "'w vmfr_env \<Rightarrow> vmfr \<Rightarrow> string \<Rightarrow> string \<Rightarrow> ('w, 'a) io" where
  "failPartialValidation V v reason msg = bindR (patchWith V v VMFRPhasePartiallyFailed (partialConditions reason msg) False)
     (\<lambda>_. failR (errorf (''partial validation failed: '' @ msg)))"

section \<open>First reconciliations\<close>

definition ensureFinalizer :: "'w vmfr_env \<Rightarrow> vmfr \<Rightarrow> ('w, bool) io" where
  "ensureFinalizer V v =
    (let fs = fe_addFinalizer V (fe_addFinalizer V (om_finalizers (vmfr_meta v)) VeleroRestoreCleanupFinalizer) VMFileRestoreFinalizer
     in if fs = om_finalizers (vmfr_meta v) then returnR False
        else bindR (fe_patch V v (v \<lparr>vmfr_meta := (vmfr_meta v) \<lparr>om_finalizers := fs\<rparr>\<rparr>)) (\<lambda>_. returnR True))"

definition newConditions :: "cond_spec list" where
  "newConditions = fourConditions (ConditionFalse, ''Initialized'', ''File restore request has been accepted'')
     (ConditionFalse, ''NotStarted'', ''File serving resources not yet created'')
     (ConditionFalse, ''NoFailures'', ''No errors have occurred'')
     (ConditionFalse, ''NotReady'', ''File restore has not started processing'')"

definition initializePhaseForFileRestore :: "'w vmfr_env \<Rightarrow> vmfr \<Rightarrow> ('w, bool) io" where
  "initializePhaseForFileRestore V v w =
    (let (t, w1) = pe_now (fe_pvc V) w
     in bindR (patchVmfrStatusPhaseConditions V v VMFRPhaseNew (map (specAt t) newConditions) True) (\<lambda>_. returnR True) w1)"

section \<open>Validation\<close>

definition waitingForDiscovery :: "cond_spec list" where
  "waitingForDiscovery = fourConditions (ConditionTrue, ''WaitingForDiscovery'', ''Waiting for backup discovery to complete'')
     (ConditionFalse, ''DiscoveryInProgress'', ''Discovery not yet completed'') (ConditionFalse, ''NoFailures'', ''No failures detected'')
     (ConditionFalse, ''DiscoveryInProgress'', ''Waiting for backup discovery to complete'')"

text \<open>\<^const>\<open>None\<close> asks for a requeue: the discovery is not finished.\<close>

definition validateReferencedDiscovery :: "'w vmfr_env \<Rightarrow> vmfr \<Rightarrow> ('w, vmbd option) io" where
  "validateReferencedDiscovery V v w =
    (let name = BackupsDiscoveryRef (vmfr_spec v); ns = om_namespace (vmfr_meta v)
     in case fe_getDiscovery V \<lparr>nn_namespace = ns, nn_name = name\<rparr> w of
          (Inl e, w1) \<Rightarrow>
            if IsNotFound e
            then failValidation V v ''DiscoveryNotFound'' (''Referenced VirtualMachineBackupsDiscovery '' @ quoted name
                   @ '' not found in namespace '' @ quoted ns) w1
            else failValidation V v ''DiscoveryGetFailed'' (''Failed to get referenced VirtualMachineBackupsDiscovery '' @ quoted name
                   @ '' in namespace '' @ quoted ns) w1
        | (Inr d, w1) \<Rightarrow>
            if vs_phase (vmbd_status d) = VMBDPhaseInProgress \<or> vs_phase (vmbd_status d) = VMBDPhaseNew
            then bindR (patchWith V v VMFRPhaseInProgress waitingForDiscovery False) (\<lambda>_. returnR None) w1
            else (Inr (Some d), w1))"

definition validateDiscoveryBackups :: "'w vmfr_env \<Rightarrow> vmfr \<Rightarrow> vmbd \<Rightarrow> ('w, velero_backup_info list) io" where
  "validateDiscoveryBackups V v d =
    (let ref = BackupsDiscoveryRef (vmfr_spec v); valid = vs_validBackups (vmbd_status d)
     in if valid = [] then failValidation V v ''NoValidBackups'' (''Referenced discovery '' @ quoted ref @ '' found no valid backups'')
        else (case getFilteredBackupsToServe (SelectedBackups (vmfr_spec v)) valid of
           Inl e \<Rightarrow> failValidation V v ''InvalidSelectedBackups'' (err_msg e)
         | Inr bs \<Rightarrow>
            if SelectedBackups (vmfr_spec v) \<noteq> [] \<and> bs = []
            then failValidation V v ''InvalidSelectedBackups'' (''None of the selected backups were found in discovery '' @ quoted ref)
            else if bs = [] then failValidation V v ''NoValidBackups'' ''No valid backups available for file restore after applying filters''
            else returnR bs))"

text \<open>The patch is skipped when the status does not change.\<close>

definition processDiscoveryResults :: "'w vmfr_env \<Rightarrow> vmfr \<Rightarrow> backup_progress list \<Rightarrow> ('w, vmfr) io" where
  "processDiscoveryResults V v results w =
    (let v1 = v \<lparr>vmfr_status := (vmfr_status v) \<lparr>fs_pvcRestores := pvcRestoresOf (fe_pvc V) results\<rparr>\<rparr>
     in if v1 = v then (Inr v, w)
        else (case fe_patchStatus V v v1 w of
           (Inl e, w1) \<Rightarrow> (Inl (errorf_w ''failed to update VMFR status with PVC restore info: '' e), w1)
         | (Inr a, w1) \<Rightarrow> (Inr a, w1)))"

definition validatingConditions :: "cond_spec list" where
  "validatingConditions = fourConditions
     (ConditionTrue, ''Validating'', ''Validating discovery reference and discovering PVCs from backups'')
     (ConditionFalse, ''InProgress'', ''Validation in progress'') (ConditionFalse, ''NoFailures'', ''No failures detected yet'')
     (ConditionFalse, ''InProgress'', ''Validation in progress'')"

text \<open>These conditions carry no transition time.\<close>

definition startValidation :: "'w vmfr_env \<Rightarrow> vmfr \<Rightarrow> ('w, vmfr) io" where
  "startValidation V v =
    (if fs_phase (vmfr_status v) = VMFRPhaseNew
     then patchVmfrStatusPhaseConditions V v VMFRPhaseInProgress (map (specAt (instant zeroTime)) validatingConditions) True
     else returnR v)"

definition discoveringConditions :: "nat \<Rightarrow> cond_spec list" where
  "discoveringConditions n = [\<lparr>cs_type = ConditionTypeProgressing, cs_status = ConditionTrue, cs_reason = ''DiscoveringPVCs'',
     cs_message = ''Discovering PVCs from '' @ decimal n @ '' backups''\<rparr>]"

definition validatedConditions :: "nat \<Rightarrow> cond_spec list" where
  "validatedConditions n = fourConditions
     (ConditionTrue, ''ValidationCompleted'', ''PVC discovery completed for '' @ decimal n @ '' backups, ready to create restores'')
     (ConditionFalse, ''InProgress'', ''Validation completed, restore creation pending'')
     (ConditionFalse, ''NoFailures'', ''No failures detected during validation'')
     (ConditionFalse, ''InProgress'', ''File restore in progress'')"

definition decideAvailability :: "'w vmfr_env \<Rightarrow> vmfr \<Rightarrow> nat \<Rightarrow> ('w, bool) io" where
  "decideAvailability V v n =
    (let a = availabilityOf (fs_pvcRestores (vmfr_status v))
     in case judge a of
          NoAvailableBackups \<Rightarrow> failValidation V v ''NoAvailableBackups'' (''No PVCs with available backups found (total: ''
            @ decimal (av_total a) @ '', unavailable: '' @ decimal (av_none a) @ '')'')
        | PartialAvailability \<Rightarrow> failPartialValidation V v ''PartialAvailability'' (''Cannot proceed: ''
            @ decimal (av_partially a + av_none a) @ '' PVC(s) have non-available backups (partially available: ''
            @ decimal (av_partially a) @ '', unavailable: '' @ decimal (av_none a) @ '')'')
        | AllAvailable \<Rightarrow> bindR (patchWith V v VMFRPhaseInProgress (validatedConditions n) False) (\<lambda>_. returnR True))"

definition discoverPVCs :: "'w vmfr_env \<Rightarrow> vmfr \<Rightarrow> vmbd \<Rightarrow> velero_backup_info list \<Rightarrow> ('w, bool) io" where
  "discoverPVCs V v d backups w =
    (let (results, w1) = runConcurrentPVCDiscovery (fe_pvc V) (vmbd_spec d) backups w
     in case processDiscoveryResults V v results w1 of
          (Inl e, w2) \<Rightarrow> failValidation V v ''ProcessDiscoveryFailed'' (err_msg e) w2
        | (Inr v1, w2) \<Rightarrow> decideAvailability V v1 (length backups) w2)"

definition validateAndDiscoverPVCs :: "'w vmfr_env \<Rightarrow> vmfr \<Rightarrow> ('w, bool) io" where
  "validateAndDiscoverPVCs V v =
     bindR (startValidation V v) (\<lambda>v1.
     bindR (validateReferencedDiscovery V v1) (\<lambda>od. case od of
       None \<Rightarrow> returnR True
     | Some d \<Rightarrow> bindR (validateDiscoveryBackups V v1 d) (\<lambda>bs.
         bindR (patchWith V v1 VMFRPhaseInProgress (discoveringConditions (length bs)) False) (\<lambda>v2. discoverPVCs V v2 d bs))))"

section \<open>The workflow\<close>

definition namespaceReady :: "string \<Rightarrow> cond_spec list" where
  "namespaceReady ns = fourConditions
     (ConditionTrue, ''NamespaceReady'', ''Restore namespace '' @ quoted ns @ '' is ready, proceeding with Velero restore creation'')
     (ConditionFalse, ''PreparingRestores'', ''Namespace created, Velero restore creation pending'')
     (ConditionFalse, ''NoFailures'', ''No failures detected'') (ConditionFalse, ''InProgress'', ''File restore workflow in progress'')"

definition prepareNamespaceStep :: "'w restore_env \<Rightarrow> vmfr \<Rightarrow> ('w, bool) io" where
  "prepareNamespaceStep E v w = (case ensureRestoreNamespace E v w of
     (Inl e, w1) \<Rightarrow> failValidation (re_vmfr E) v ''NamespaceCreationFailed'' (''Failed to create/validate restore namespace: '' @ err_msg e) w1
   | (Inr (ns, v1), w1) \<Rightarrow> bindR (patchWith (re_vmfr E) v1 VMFRPhaseInProgress (namespaceReady ns) False) (\<lambda>_. returnR True) w1)"

definition waitingForRestores :: "cond_spec list" where
  "waitingForRestores = fourConditions (ConditionTrue, ''WaitingForRestores'', ''Waiting for Velero Restore(s) to complete'')
     (ConditionFalse, ''RestoresInProgress'', ''Velero Restores are in progress'') (ConditionFalse, ''NoFailures'', ''No failures detected'')
     (ConditionFalse, ''InProgress'', ''File restore workflow in progress'')"

definition createRestoresStep :: "'w restore_env \<Rightarrow> vmfr \<Rightarrow> ('w, bool) io" where
  "createRestoresStep E v w =
    (let V = re_vmfr E;
         proceed = (\<lambda>v1. bindR (patchWith V v1 VMFRPhaseInProgress waitingForRestores False) (\<lambda>_. returnR True))
     in if checkVeleroRestoresAlreadyCreated (fs_pvcRestores (vmfr_status v)) then proceed v w
        else (case createVeleroRestores V v w of
           (Inl e, w1) \<Rightarrow> failValidation V v ''RestoreCreationFailed'' (''Failed to create Velero Restores: '' @ err_msg e) w1
         | (Inr v1, w1) \<Rightarrow> proceed v1 w1))"

definition restoresReady :: "nat \<Rightarrow> cond_spec list" where
  "restoresReady totalRestores = fourConditions
     (ConditionTrue, ''RestoresCompleted'', ''All '' @ decimal totalRestores @ '' Velero Restores and PVCs ready, proceeding to file server creation'')
     (ConditionFalse, ''FileServerPending'', ''PVCs restored, file server creation pending'')
     (ConditionFalse, ''NoFailures'', ''All Velero Restores completed without errors'')
     (ConditionFalse, ''InProgress'', ''File server creation pending'')"

definition someRestoresFailed :: "nat \<Rightarrow> nat \<Rightarrow> nat \<Rightarrow> cond_spec list" where
  "someRestoresFailed completed failed totalRestores = fourConditions
     (ConditionFalse, ''RestoresCompletedWithFailures'', ''Velero Restores completed: '' @ decimal completed @ '' succeeded, '' @ decimal failed @ '' failed'')
     (ConditionTrue, ''PartialRestoreSuccess'', ''Successfully restored '' @ decimal completed @ '' PVCs, '' @ decimal failed @ '' failed'')
     (ConditionTrue, ''SomeRestoresFailed'', decimal failed @ '' of '' @ decimal totalRestores @ '' Velero Restores failed'')
     (ConditionTrue, ''PartiallyFailed'', ''File restore completed with partial failures'')"

definition allRestoresFailed :: "nat \<Rightarrow> cond_spec list" where
  "allRestoresFailed totalRestores = fourConditions
     (ConditionFalse, ''RestoresFailed'', ''All '' @ decimal totalRestores @ '' Velero Restores failed'')
     (ConditionFalse, ''AllRestoresFailed'', ''No PVCs were successfully restored'')
     (ConditionTrue, ''CriticalFailure'', ''All Velero Restores failed'')
     (ConditionFalse, ''Failed'', ''File restore failed completely'')"

text \<open>The phase and conditions once no restore is in progress.\<close>

definition restoreOutcome :: "nat \<Rightarrow> nat \<Rightarrow> nat \<Rightarrow> restore_phase \<times> cond_spec list" where
  "restoreOutcome completed failed totalRestores =
    (if failed = 0 \<and> completed > 0 then (VMFRPhaseInProgress, restoresReady totalRestores)
     else if completed > 0 then (VMFRPhasePartiallyFailed, someRestoresFailed completed failed totalRestores)
     else (VMFRPhaseFailed, allRestoresFailed totalRestores))"

definition finishRestores :: "'w restore_env \<Rightarrow> vmfr \<Rightarrow> monitor \<Rightarrow> ('w, bool) io" where
  "finishRestores E v m =
    (let totalRestores = mo_completed m + mo_failed m + mo_inProgress m; (ph, cs) = restoreOutcome (mo_completed m) (mo_failed m) totalRestores
     in if totalRestores = 0 then failR (errorf ''no Velero Restores found - this indicates a serious workflow bug'')
        else bindR (patchWith (re_vmfr E) v ph cs False) (\<lambda>_. returnR (ph = VMFRPhaseInProgress)))"

text \<open>An error of the data download correction is only logged.\<close>

definition settleRestores :: "'w restore_env \<Rightarrow> monitor \<Rightarrow> vmfr \<Rightarrow> ('w, bool) io" where
  "settleRestores E m v w =
    (let (_, w1) = fixDataDownloadPVCNames E v w
     in if mo_inProgress m > 0 then (Inr True, w1)
        else if mo_completed m > 0 then
          (case validateRestoredPVCs E v w1 of
             (Inl e, w2) \<Rightarrow> failValidation (re_vmfr E) v ''PVCValidationFailed'' (''PVC validation failed: '' @ err_msg e) w2
           | (Inr False, w2) \<Rightarrow> (Inr True, w2)
           | (Inr True, w2) \<Rightarrow> finishRestores E v m w2)
        else finishRestores E v m w1)"

definition waitForRestoresStep :: "'w restore_env \<Rightarrow> vmfr \<Rightarrow> ('w, bool) io" where
  "waitForRestoresStep E v = bindR (monitorVeleroRestores (re_vmfr E) v) (\<lambda>(m, v1).
     bindR (if mo_updated m then fe_updateStatus (re_vmfr E) v1 else returnR v1) (settleRestores E m))"

definition credentialsReady :: "cond_spec list" where
  "credentialsReady = fourConditions
     (ConditionTrue, ''CredentialsReady'', ''Credentials validated and ready, proceeding to file server creation'')
     (ConditionFalse, ''FileServerPending'', ''Credentials ready, file server creation pending'')
     (ConditionFalse, ''NoFailures'', ''No failures detected'') (ConditionFalse, ''InProgress'', ''File server creation pending'')"

definition prepareCredentialsStep :: "'w restore_env \<Rightarrow> vmfr \<Rightarrow> ('w, bool) io" where
  "prepareCredentialsStep E v w = (case ensureCredentials E v w of
     (Inl e, w1) \<Rightarrow> failValidation (re_vmfr E) v ''CredentialsPreparationFailed'' (''Failed to prepare credentials: '' @ err_msg e) w1
   | (Inr _, w1) \<Rightarrow> bindR (patchWith (re_vmfr E) v VMFRPhaseInProgress credentialsReady False) (\<lambda>_. returnR True) w1)"

definition waitingForRoute :: "cond_spec list" where
  "waitingForRoute = fourConditions
     (ConditionTrue, ''WaitingForRoute'', ''File server created, waiting for external route hostname to be assigned'')
     (ConditionTrue, ''FileServerAvailable'', ''File server is accessible via cluster-internal URL, external route pending'')
     (ConditionFalse, ''NoFailures'', ''All operations completed successfully'')
     (ConditionFalse, ''WaitingForRoute'', ''Waiting for external route hostname assignment'')"

definition completedConditions :: "string \<Rightarrow> string \<Rightarrow> cond_spec list" where
  "completedConditions progressing ready = fourConditions (ConditionFalse, ''FileServerCreated'', progressing)
     (ConditionTrue, ''FileServerAvailable'', ''File server is accessible and serving files'')
     (ConditionFalse, ''NoFailures'', ''All operations completed successfully'') (ConditionTrue, ''Completed'', ready)"

text \<open>One patch from the object as it was before the file server was created: serving information, phase and
  conditions together.\<close>

definition patchServing :: "'w vmfr_env \<Rightarrow> vmfr \<Rightarrow> vmfr \<Rightarrow> restore_phase \<Rightarrow> cond_spec list \<Rightarrow> ('w, vmfr) io" where
  "patchServing V base v ph cs w =
    (let (conds, w1) = stamped V cs w
     in fe_patchStatus V base (v \<lparr>vmfr_status := (vmfr_status v) \<lparr>fs_phase := ph,
          fs_conditions := foldl (fe_setCondition V) (fs_conditions (vmfr_status v)) conds\<rparr>\<rparr>) w1)"

definition externalRouteRequested :: "vmfr \<Rightarrow> bool" where
  "externalRouteRequested v = (case fileBrowserSpec v of None \<Rightarrow> False | Some f \<Rightarrow> fb_exposeExternally f)"

definition routeReady :: "vmfr \<Rightarrow> bool" where
  "routeReady v = (case fs_fileServingInfo (vmfr_status v) of None \<Rightarrow> False
     | Some i \<Rightarrow> (case fi_fileBrowser i of None \<Rightarrow> False | Some f \<Rightarrow> fs_publicAccess f \<noteq> []))"

definition createFileServerStep :: "'w restore_env \<Rightarrow> (vmfr \<Rightarrow> ('w, vmfr) io) \<Rightarrow> vmfr \<Rightarrow> ('w, bool) io" where
  "createFileServerStep E createServer v w = (case createServer v w of
     (Inl e, w1) \<Rightarrow> failValidation (re_vmfr E) v ''FileServerCreationFailed'' (''Failed to create file server resources: '' @ err_msg e) w1
   | (Inr v1, w1) \<Rightarrow>
      if externalRouteRequested v1 \<and> \<not> routeReady v1
      then bindR (patchServing (re_vmfr E) v v1 VMFRPhaseInProgress waitingForRoute) (\<lambda>_. returnR True) w1
      else bindR (patchServing (re_vmfr E) v v1 VMFRPhaseCompleted
        (completedConditions ''File server pod and service created, PVCs binding in progress''
           ''File restore completed, files accessible via file server'')) (\<lambda>_. returnR False) w1)"

definition waitForRouteStep :: "'w restore_env \<Rightarrow> vmfr \<Rightarrow> ('w, bool) io" where
  "waitForRouteStep E v w =
    (if restoreNs v = [] then (Inl (errorf ''restore namespace not found in status''), w)
     else (case re_listServices E (restoreNs v) (ownedBy v) w of
        (Inl e, w1) \<Rightarrow> (Inl e, w1)
      | (Inr [], w1) \<Rightarrow> (Inl (errorf ''no service found for this VMFR''), w1)
      | (Inr (s # _), w1) \<Rightarrow>
         (case updateFileServingInfo E v s w1 of
            ((Some e, _), w2) \<Rightarrow> (Inl e, w2)
          | ((None, v1), w2) \<Rightarrow>
             if \<not> routeReady v1 then (Inr True, w2)
             else bindR (patchServing (re_vmfr E) v v1 VMFRPhaseCompleted
               (completedConditions ''File server and external route are ready''
                  ''File restore completed, files accessible via file server and external route'')) (\<lambda>_. returnR False) w2)))"

definition executeFileRestoreWorkflow :: "'w restore_env \<Rightarrow> (vmfr \<Rightarrow> ('w, vmfr) io) \<Rightarrow> vmfr \<Rightarrow> ('w, bool) io" where
  "executeFileRestoreWorkflow E createServer v =
    (case fe_findCondition (re_vmfr E) (fs_conditions (vmfr_status v)) ConditionTypeProgressing of
       None \<Rightarrow> failR (errorf ''progressing condition not found in workflow execution phase'')
     | Some c \<Rightarrow>
        if cond_reason c = ''DiscoveringPVCs'' then returnR False
        else if cond_reason c = ''ValidationCompleted'' then prepareNamespaceStep E v
        else if cond_reason c = ''NamespaceReady'' then createRestoresStep E v
        else if cond_reason c = ''WaitingForRestores'' then waitForRestoresStep E v
        else if cond_reason c = ''RestoresCompleted'' then prepareCredentialsStep E v
        else if cond_reason c = ''CredentialsReady'' then createFileServerStep E createServer v
        else if cond_reason c = ''WaitingForRoute'' then waitForRouteStep E v
        else returnR False)"

section \<open>Reconciliation\<close>

definition workflowReasons :: "string list" where
  "workflowReasons = [''DiscoveringPVCs'', ''ValidationCompleted'', ''NamespaceReady'', ''WaitingForRestores'',
     ''RestoresCompleted'', ''CredentialsReady'', ''WaitingForRoute'']"

definition isInWorkflowPhase :: "'w vmfr_env \<Rightarrow> vmfr \<Rightarrow> bool" where
  "isInWorkflowPhase V v = (case fe_findCondition V (fs_conditions (vmfr_status v)) ConditionTypeProgressing of
     None \<Rightarrow> False | Some c \<Rightarrow> cond_reason c \<in> set workflowReasons)"

text \<open>The steps run until one fails or asks for a requeue.\<close>

fun runSteps :: "(vmfr \<Rightarrow> ('w, bool) io) list \<Rightarrow> vmfr \<Rightarrow> ('w, bool) io" where
  "runSteps [] v = returnR False"
| "runSteps (s # ss) v = bindR (s v) (\<lambda>requeue. if requeue then returnR True else runSteps ss v)"

definition reconcileSteps :: "'w restore_env \<Rightarrow> (vmfr \<Rightarrow> ('w, vmfr) io) \<Rightarrow> vmfr \<Rightarrow> (vmfr \<Rightarrow> ('w, bool) io) list" where
  "reconcileSteps E createServer v =
    (let V = re_vmfr E; Q = re_objects E; ph = fs_phase (vmfr_status v)
     in if om_deletion (vmfr_meta v) \<noteq> None then [handleVeleroRestoreCleanup Q (fe_oadpNamespace V), handleResourceCleanup Q]
        else if ph = VMFRPhaseUnset then [ensureFinalizer V, initializePhaseForFileRestore V]
        else if ph = VMFRPhaseNew \<or> ph = VMFRPhaseInProgress then
          (if isInWorkflowPhase V v then [executeFileRestoreWorkflow E createServer] else [validateAndDiscoverPVCs V])
        else [])"

definition ReconcileVMFR :: "'w restore_env \<Rightarrow> (vmfr \<Rightarrow> ('w, vmfr) io) \<Rightarrow> namespaced_name \<Rightarrow> ('w, bool) io" where
  "ReconcileVMFR E createServer req w = (case fe_get (re_vmfr E) req w of
     (Inl e, w1) \<Rightarrow> if IsNotFound e then (Inr False, w1) else (Inl e, w1)
   | (Inr v, w1) \<Rightarrow> runSteps (reconcileSteps E createServer v) v w1)"

end
