(* ===== verification/File_Server_Create.thy ===== *)
theory File_Server_Create
  imports File_Server Restore_Workflow
begin

text \<open>
  \<open>createFileServerResources\<close> and \<open>createRoutesIfRequested\<close> of the file restore controller, which the workflow step of
  \<open>Restore_Workflow\<close> takes as its argument. \<open>server_env\<close> adds the creation of pods, services and routes and the
  local time zone to the environment of the workflow.
\<close>

record 'w server_env =
  se_restore :: "'w restore_env"
  se_createPod :: "pod \<Rightarrow> ('w, pod) io"
  se_createService :: "file_service \<Rightarrow> ('w, file_service) io"
  se_createRoute :: "file_route \<Rightarrow> ('w, file_route) io"
  se_zone :: "time \<Rightarrow> int"

definition resolveMount :: "'w restore_env \<Rightarrow> string \<Rightarrow> pvc_mount \<Rightarrow> pvc_mount list \<Rightarrow> ('w, pvc_mount list) io" where
  "resolveMount E ns m acc w = (case findRestoredPVCName E ns (mt_restoreName m) (mt_pvcName m) w of
     (Inl e, w1) \<Rightarrow> (Inl (errorf_w (''failed to find restored PVC name for '' @ mt_pvcName m @ '': '') e), w1)
   | (Inr name, w1) \<Rightarrow>
      (case re_getClaim E \<lparr>nn_namespace = ns, nn_name = name\<rparr> w1 of
         (Inl e, w2) \<Rightarrow> (Inl (errorf_w (''failed to get PVC '' @ name @ '' to query volumeMode: '') e), w2)
       | (Inr c, w2) \<Rightarrow> (Inr (acc @ [m \<lparr>mt_restoredPVC := name, mt_pvcUID := om_uid (cl_meta c),
            mt_volumeMode := Some (case cl_volumeMode c of None \<Rightarrow> ''Filesystem'' | Some x \<Rightarrow> x)\<rparr>]), w2)))"

definition sshConfig :: "'w restore_env \<Rightarrow> vmfr \<Rightarrow> ('w, ssh_access_config option) io" where
  "sshConfig E v w = (case sshSpec v of
     None \<Rightarrow> (Inr None, w)
   | Some s \<Rightarrow> (case findSecretByLabels E (restoreNs v) (vmfr_uid v) CredentialTypeSSH w of
        (Inl e, w1) \<Rightarrow> (Inl (errorf_w ''failed to find SSH credentials secret prepared by ensureCredentials: '' e), w1)
      | (Inr n, w1) \<Rightarrow> (Inr (Some \<lparr>sa_username = sshUsername s, sa_secretName = n, sa_secretNamespace = restoreNs v,
           sa_port = DefaultSSHPort\<rparr>), w1)))"

definition fileBrowserConfig :: "'w restore_env \<Rightarrow> vmfr \<Rightarrow> ('w, filebrowser_access_config option) io" where
  "fileBrowserConfig E v w = (case fileBrowserSpec v of
     None \<Rightarrow> (Inr None, w)
   | Some _ \<Rightarrow> (case findSecretByLabels E (restoreNs v) (vmfr_uid v) CredentialTypeFileBrowser w of
        (Inl e, w1) \<Rightarrow> (Inl (errorf_w ''failed to find FileBrowser credentials secret prepared by ensureCredentials: '' e), w1)
      | (Inr n, w1) \<Rightarrow> (Inr (Some \<lparr>ba_secretName = n, ba_secretNamespace = restoreNs v, ba_port = DefaultFileBrowserPort\<rparr>), w1)))"

definition podConfig :: "(time \<Rightarrow> int) \<Rightarrow> vmfr \<Rightarrow> pvc_mount list \<Rightarrow> ssh_access_config option \<Rightarrow> filebrowser_access_config option \<Rightarrow> pod_config" where
  "podConfig zone v ms ssh fb = \<lparr>pc_podName = vmfr_name v @ ''-fileserver'', pc_podNamespace = restoreNs v, pc_vmfrName = vmfr_name v,
     pc_vmfrNamespace = om_namespace (vmfr_meta v), pc_vmfrUID = vmfr_uid v, pc_mounts = ms,
     pc_mainContainer = Some (buildVMFileServerMainContainer zone ms), pc_ssh = ssh, pc_fileBrowser = fb, pc_dualPath = True,
     pc_internalMounts = True, pc_sharedMountPath = [], pc_security = None, pc_labels = [], pc_annotations = []\<rparr>"

definition serviceConfig :: "vmfr \<Rightarrow> ssh_access_config option \<Rightarrow> filebrowser_access_config option \<Rightarrow> service_config" where
  "serviceConfig v ssh fb = \<lparr>vc_name = vmfr_name v @ ''-fileserver-svc'', vc_namespace = restoreNs v, vc_vmfrName = vmfr_name v,
     vc_vmfrNamespace = om_namespace (vmfr_meta v), vc_vmfrUID = vmfr_uid v, vc_ports = gatherServicePorts ssh fb, vc_type = ''ClusterIP'',
     vc_selector = [], vc_labels = [],
     vc_annotations = (if fb = None then [] else [(''service.beta.openshift.io/serving-cert-secret-name'', ''filebrowser-tls'')])\<rparr>"

text \<open>A creation of an object that exists already is a success, and keeps the object in memory.\<close>

definition createUnlessExists :: "string \<Rightarrow> 'o \<Rightarrow> ('w, 'o) io \<Rightarrow> ('w, 'o) io" where
  "createUnlessExists msg obj create w = (case create w of
     (Inl e, w1) \<Rightarrow> if IsAlreadyExists e then (Inr obj, w1) else (Inl (errorf_w msg e), w1)
   | (Inr a, w1) \<Rightarrow> (Inr a, w1))"

definition ofResult :: "string \<Rightarrow> 'a result \<Rightarrow> ('w, 'a) io" where
  "ofResult msg r = (case r of Inl e \<Rightarrow> failR (errorf_w msg e) | Inr x \<Rightarrow> returnR x)"

definition routeConfig :: "vmfr \<Rightarrow> string \<Rightarrow> string \<Rightarrow> string \<Rightarrow> route_config" where
  "routeConfig v routeName svc ns = \<lparr>rc_name = routeName, rc_namespace = ns, rc_vmfrName = vmfr_name v,
     rc_vmfrNamespace = om_namespace (vmfr_meta v), rc_vmfrUID = vmfr_uid v, rc_serviceName = svc, rc_targetPort = ''https'',
     rc_termination = ''reencrypt'', rc_insecurePolicy = ''Redirect'', rc_labels = [], rc_annotations = [],
     rc_subdomain = vmfr_name v @ ''.vmfr''\<rparr>"

text \<open>The route name is normalised with a suffix for which normalisation does not panic.\<close>

definition createRoutesIfRequested :: "'w server_env \<Rightarrow> vmfr \<Rightarrow> string \<Rightarrow> string \<Rightarrow> ('w, unit) io" where
  "createRoutesIfRequested S v svc ns =
    (if externalRouteRequested v then
       (case NormalizeDNS1123Label (vmfr_name v) ''filebrowser'' of
          None \<Rightarrow> returnR ()
        | Some routeName \<Rightarrow>
           bindR (ofResult ''failed to build FileBrowser route: '' (buildFileServerRoute (routeConfig v routeName svc ns))) (\<lambda>r.
           bindR (createUnlessExists ''failed to create FileBrowser route: '' r (se_createRoute S r)) (\<lambda>_. returnR ())))
     else returnR ())"

definition serviceOf :: "file_service \<Rightarrow> service" where
  "serviceOf s = \<lparr>sv_meta = fv_meta s, sv_ports = map (\<lambda>p. (sp_name p, int (sp_port p))) (fv_ports s)\<rparr>"

text \<open>An error of the route or of the access information is only logged.\<close>

definition publishServer :: "'w server_env \<Rightarrow> vmfr \<Rightarrow> file_service \<Rightarrow> ('w, vmfr) io" where
  "publishServer S v s w =
    (let (_, w1) = createRoutesIfRequested S v (om_name (fv_meta s)) (restoreNs v) w;
         ((_, v1), w2) = updateFileServingInfo (se_restore S) v (serviceOf s) w1
     in (Inr v1, w2))"

definition createFileServerResources :: "'w server_env \<Rightarrow> vmfr \<Rightarrow> ('w, vmfr) io" where
  "createFileServerResources S v =
    (let E = se_restore S; zone = se_zone S
     in if restoreNs v = [] then failR (errorf ''restore namespace not found in status'')
        else if extractPVCMountsFromVMFR v = [] then failR (errorf ''no PVC mounts found in status'')
        else bindR (foldR (resolveMount E (restoreNs v)) (extractPVCMountsFromVMFR v) []) (\<lambda>ms.
             bindR (sshConfig E v) (\<lambda>ssh. bindR (fileBrowserConfig E v) (\<lambda>fb.
             bindR (ofResult ''failed to build pod spec: '' (buildFileServerPodSpec zone (podConfig zone v ms ssh fb))) (\<lambda>p.
             bindR (createUnlessExists ''failed to create file server pod: '' p (se_createPod S p)) (\<lambda>_.
             bindR (ofResult ''failed to build service spec: '' (buildFileServerService (serviceConfig v ssh fb))) (\<lambda>s.
             bindR (createUnlessExists ''failed to create file server service: '' s (se_createService S s)) (publishServer S v))))))))"

end
