(* ===== verification/File_Server_Facts.thy ===== *)
theory File_Server_Facts
  imports File_Server_Create Cleanup_Facts
begin

text \<open>
  Correctness of the file server's objects: the pod is one the API server accepts, its sidecars are confined and
  share the restored data with the main container, the service selects the pods of its own file restore only,
  the paths carry the date of the backup, and the map handed to the mount script groups the claims by backup.
\<close>

section \<open>Validity of a pod\<close>

text \<open>The rules of the Kubernetes validation that the builders have to keep: unique volume and container
  names, in each container unique mount and device paths, mounts and devices of declared volumes, devices of
  claims only, and no volume used both ways.\<close>

definition containerValid :: "volume list \<Rightarrow> container \<Rightarrow> bool" where
  "containerValid vs c \<longleftrightarrow> distinct (map vm_path (ct_mounts c)) \<and> distinct (map vd_path (ct_devices c))
     \<and> (\<forall>m\<in>set (ct_mounts c). vm_name m \<in> vol_name ` set vs)
     \<and> (\<forall>d\<in>set (ct_devices c). \<exists>v\<in>set vs. vol_name v = vd_name d \<and> is_PersistentVolumeClaimVolume (vol_source v))
     \<and> vm_name ` set (ct_mounts c) \<inter> vd_name ` set (ct_devices c) = {}"

definition podValid :: "pod \<Rightarrow> bool" where
  "podValid p \<longleftrightarrow> distinct (map vol_name (pod_volumes p)) \<and> distinct (map ct_name (pod_containers p))
     \<and> (\<forall>c\<in>set (pod_containers p). containerValid (pod_volumes p) c)"

definition mountedVolumes :: "container \<Rightarrow> string set" where
  "mountedVolumes c = vm_name ` set (ct_mounts c)"

section \<open>Volumes and paths of the claims\<close>

lemma claim_volumes: "buildPVCVolumesAndMounts zone ms = (map claimVolume ms, map (claimMount zone) (filter (\<lambda>m. \<not> isBlockMode m) ms),
    map (\<lambda>m. \<lparr>vd_name = volumeName m, vd_path = devicePath m\<rparr>) (filter isBlockMode ms))"
  by (induction ms) (simp_all add: Let_def)

lemma append_sep_inj: "c \<notin> set a \<Longrightarrow> c \<notin> set b \<Longrightarrow> a @ c # r = b @ c # s \<longleftrightarrow> a = b \<and> r = s"
proof (induction a arbitrary: b)
  case Nil
  then show ?case by (cases b) auto
next
  case (Cons x a)
  then show ?case by (cases b) auto
qed

lemma pad2_no_slash: "CHR ''/'' \<notin> set (pad2 n)"
proof -
  have "CHR ''/'' \<noteq> chr (48 + k)" if "k < 10" for k
  proof
    assume "CHR ''/'' = chr (48 + k)"
    then have "byte (chr (48 + k)) = byte (CHR ''/'')" by simp
    moreover have "byte (CHR ''/'') = 47" by (simp add: byte_def)
    ultimately show False using that by simp
  qed
  then show ?thesis by (auto simp: pad2_def)
qed

lemma date_no_slash: "CHR ''/'' \<notin> set (formatBackupDateForPath zone ts)"
  by (simp add: formatBackupDateForPath_def formatDate_def pad2_no_slash split: option.splits)

definition pathParts :: "(time \<Rightarrow> int) \<Rightarrow> pvc_mount \<Rightarrow> string \<times> string \<times> string" where
  "pathParts zone m = (formatBackupDateForPath zone (mt_timestamp m), mt_backupName m, mt_pvcName m)"

definition plainNames :: "pvc_mount \<Rightarrow> bool" where
  "plainNames m \<longleftrightarrow> CHR ''/'' \<notin> set (mt_backupName m) \<and> CHR ''/'' \<notin> set (mt_pvcName m)"

lemma claimMount_path_inj:
  assumes "plainNames m" and "plainNames n"
  shows "vm_path (claimMount zone m) = vm_path (claimMount zone n) \<longleftrightarrow> pathParts zone m = pathParts zone n"
  using assms date_no_slash
  by (simp add: claimMount_def mountAt_def pathParts_def plainNames_def append_sep_inj)

lemma distinct_claim_paths:
  assumes "\<forall>m\<in>set ms. plainNames m" and "distinct (map (pathParts zone) ms)"
  shows "distinct (map (\<lambda>m. vm_path (claimMount zone m)) ms)"
  using assms by (auto simp: distinct_map inj_on_def claimMount_path_inj)

section \<open>The pod of a file restore\<close>

lemma podConfig_built:
  assumes "buildFileServerPodSpec zone (podConfig zone v ms ssh fb) = Inr p"
  shows "pod_volumes p = map claimVolume ms @ [emptyDir ''shared-mounts''] @ utilityVolumes
      @ (case ssh of None \<Rightarrow> [] | Some s \<Rightarrow> sshVolumes (sa_secretName s))
      @ (case fb of None \<Rightarrow> [] | Some b \<Rightarrow> fileBrowserVolumes (ba_secretName b))"
    and "pod_containers p = configureMain (podConfig zone v ms ssh fb) (map (claimMount zone) (filter (\<lambda>m. \<not> isBlockMode m) ms))
        (map (\<lambda>m. \<lparr>vd_name = volumeName m, vd_path = devicePath m\<rparr>) (filter isBlockMode ms)) (buildVMFileServerMainContainer zone ms)
      # (case ssh of None \<Rightarrow> [] | Some s \<Rightarrow> [fst (buildSSHSidecar s True [])])
      @ (case fb of None \<Rightarrow> [] | Some b \<Rightarrow> [fst (buildFileBrowserSidecar b True [])])"
    and "pod_meta p = empty_meta \<lparr>om_name := vmfr_name v @ ''-fileserver'', om_namespace := restoreNs v,
        om_labels := fileServerLabels (vmfr_uid v), om_annotations := buildPodAnnotations (podConfig zone v ms ssh fb)\<rparr>"
  using assms
  by (auto simp: buildFileServerPodSpec_def claim_volumes Let_def podConfig_def mainContainer_def sidecars_def buildSSHSidecar_def
      buildFileBrowserSidecar_def sidecarData_def buildPodLabels_def split: if_splits option.splits)

lemmas sidecar_defs = buildSSHSidecar_def buildFileBrowserSidecar_def sidecarData_def emptyContainer_def mountAt_def

lemma main_mounts:
  "ct_mounts (configureMain (podConfig zone v ms ssh fb) cms ds (buildVMFileServerMainContainer zone ms))
    = [(mountAt ''shared-mounts'' ''/mnt/restore'') \<lparr>vm_propagation := Some MountPropagationBidirectional\<rparr>] @ cms
      @ [mountAt ''fuse-device'' ''/dev/fuse'', mountAt ''kvm-device'' ''/dev/kvm'']
      @ (if ds \<noteq> [] then [(mountAt ''filesystems'' ''/restores'') \<lparr>vm_propagation := Some MountPropagationBidirectional\<rparr>] else [])"
  "ct_devices (configureMain (podConfig zone v ms ssh fb) cms ds (buildVMFileServerMainContainer zone ms)) = ds"
  "ct_name (configureMain (podConfig zone v ms ssh fb) cms ds (buildVMFileServerMainContainer zone ms)) = ''vm-file-server''"
  "ct_security (configureMain (podConfig zone v ms ssh fb) cms ds (buildVMFileServerMainContainer zone ms))
    = Some (noSecurity \<lparr>sc_privileged := Some True\<rparr>)"
  by (simp_all add: configureMain_def podConfig_def Let_def buildVMFileServerMainContainer_def emptyContainer_def)

lemma sidecar_mounts:
  "ct_mounts (fst (buildSSHSidecar s True [])) = [mountAt ''ssh-etc'' ''/etc'', mountAt ''ssh-run'' ''/run'', mountAt ''ssh-tmp'' ''/tmp'',
     mountAt ''ssh-dev'' ''/oadp/dev'', mountAt ''ssh-oadp-etc'' ''/oadp/etc'',
     (mountAt ''ssh-secret'' ''/ssh-config'') \<lparr>vm_readOnly := True\<rparr>,
     (mountAt ''ssh-secret'' ''/oadp/.ssh/authorized_keys'') \<lparr>vm_subPath := ''authorized_keys'', vm_readOnly := True\<rparr>,
     (mountAt ''filesystems'' ''/oadp/restores'') \<lparr>vm_readOnly := True, vm_propagation := Some MountPropagationHostToContainer\<rparr>]"
  "ct_mounts (fst (buildFileBrowserSidecar b True [])) = [mountAt ''database'' ''/database'', mountAt ''tmp'' ''/tmp'',
     (mountAt ''filebrowser-tls'' ''/etc/filebrowser-tls'') \<lparr>vm_readOnly := True\<rparr>,
     (mountAt ''filebrowser-credentials'' ''/etc/filebrowser-credentials'') \<lparr>vm_readOnly := True\<rparr>,
     (mountAt ''filesystems'' ''/restores'') \<lparr>vm_readOnly := True, vm_propagation := Some MountPropagationHostToContainer\<rparr>]"
  "ct_devices (fst (buildSSHSidecar s True [])) = []" "ct_devices (fst (buildFileBrowserSidecar b True [])) = []"
  "ct_name (fst (buildSSHSidecar s True [])) = ''sshd''" "ct_name (fst (buildFileBrowserSidecar b True [])) = ''filebrowser''"
  by (simp_all add: buildSSHSidecar_def buildFileBrowserSidecar_def sidecarData_def emptyContainer_def)

lemma volume_names: "map vol_name (sshVolumes x) = [''ssh-etc'', ''ssh-run'', ''ssh-tmp'', ''ssh-dev'', ''ssh-oadp-etc'', ''ssh-secret'']"
  "map vol_name (fileBrowserVolumes x) = [''database'', ''tmp'', ''filebrowser-tls'', ''filebrowser-credentials'']"
  "map vol_name utilityVolumes = [''fuse-device'', ''kvm-device'', ''filesystems'']"
  "vol_name (emptyDir ''shared-mounts'') = ''shared-mounts''" "map (vol_name \<circ> claimVolume) ms = map volumeName ms"
  by (simp_all add: sshVolumes_def fileBrowserVolumes_def utilityVolumes_def memoryDir_def hostDevice_def emptyDir_def claimVolume_def)

lemma distinct_volumes:
  assumes "buildFileServerPodSpec zone (podConfig zone v ms ssh fb) = Inr p" and "distinct (map mt_pvcUID ms)"
  shows "distinct (map vol_name (pod_volumes p))"
proof -
  have "distinct (map volumeName ms)" using assms(2) by (auto simp: distinct_map inj_on_def volumeName_def)
  then show ?thesis
    unfolding podConfig_built(1) [OF assms(1)]
    by (cases ssh; cases fb) (auto simp: volume_names volumeName_def)
qed

lemma claimMount_fields [simp]: "vm_name (claimMount zone m) = volumeName m" "hd (tl (vm_path (claimMount zone m))) = CHR ''r''"
  "vm_path (claimMount zone m) = ''/restores/'' @ fst (pathParts zone m) @ ''/'' @ fst (snd (pathParts zone m)) @ ''/'' @ snd (snd (pathParts zone m))"
  by (simp_all add: claimMount_def mountAt_def pathParts_def)

lemma declared_volumes:
  assumes "buildFileServerPodSpec zone (podConfig zone v ms ssh fb) = Inr p"
  shows "vol_name ` set (pod_volumes p) = volumeName ` set ms \<union> {''shared-mounts'', ''fuse-device'', ''kvm-device'', ''filesystems''}
    \<union> (if ssh = None then {} else {''ssh-etc'', ''ssh-run'', ''ssh-tmp'', ''ssh-dev'', ''ssh-oadp-etc'', ''ssh-secret''})
    \<union> (if fb = None then {} else {''database'', ''tmp'', ''filebrowser-tls'', ''filebrowser-credentials''})"
proof -
  have "vol_name ` set (pod_volumes p) = set (map volumeName ms @ [''shared-mounts''] @ [''fuse-device'', ''kvm-device'', ''filesystems'']
      @ (case ssh of None \<Rightarrow> [] | Some s \<Rightarrow> [''ssh-etc'', ''ssh-run'', ''ssh-tmp'', ''ssh-dev'', ''ssh-oadp-etc'', ''ssh-secret''])
      @ (case fb of None \<Rightarrow> [] | Some b \<Rightarrow> [''database'', ''tmp'', ''filebrowser-tls'', ''filebrowser-credentials'']))"
    unfolding podConfig_built(1) [OF assms] list.set_map [symmetric] map_append
    by (cases ssh; cases fb) (simp_all add: volume_names)
  then show ?thesis by (cases ssh; cases fb) auto
qed

lemma main_valid:
  assumes built: "buildFileServerPodSpec zone (podConfig zone v ms ssh fb) = Inr p" and u: "distinct (map mt_pvcUID ms)"
    and "\<forall>m\<in>set ms. plainNames m" and "distinct (map (pathParts zone) ms)"
  shows "containerValid (pod_volumes p) (hd (pod_containers p))"
proof -
  let ?fs = "filter (\<lambda>m. \<not> isBlockMode m) ms" and ?bs = "filter isBlockMode ms"
  let ?c = "hd (pod_containers p)"
  let ?shared = "if ?bs \<noteq> [] then [(mountAt ''filesystems'' ''/restores'') \<lparr>vm_propagation := Some MountPropagationBidirectional\<rparr>] else []"
  have mounts: "ct_mounts ?c = (mountAt ''shared-mounts'' ''/mnt/restore'') \<lparr>vm_propagation := Some MountPropagationBidirectional\<rparr>
      # map (claimMount zone) ?fs @ [mountAt ''fuse-device'' ''/dev/fuse'', mountAt ''kvm-device'' ''/dev/kvm''] @ ?shared"
    and devices: "ct_devices ?c = map (\<lambda>m. \<lparr>vd_name = volumeName m, vd_path = devicePath m\<rparr>) ?bs"
    unfolding podConfig_built(2) [OF built] list.sel main_mounts by simp_all
  have "distinct (map (\<lambda>m. vm_path (claimMount zone m)) ?fs)"
    using assms(3,4) by (intro distinct_claim_paths) (auto simp: distinct_map_filter)
  then have "distinct (map vm_path (ct_mounts ?c))"
    unfolding mounts by (auto simp: mountAt_def comp_def)
  moreover have "distinct (map vd_path (ct_devices ?c))"
    unfolding devices using u by (auto simp: distinct_map inj_on_def devicePath_def)
  moreover have "\<forall>m\<in>set (ct_mounts ?c). vm_name m \<in> vol_name ` set (pod_volumes p)"
    unfolding mounts declared_volumes [OF built] by (auto simp: mountAt_def)
  moreover have "\<forall>d\<in>set (ct_devices ?c). \<exists>v\<in>set (pod_volumes p). vol_name v = vd_name d \<and> is_PersistentVolumeClaimVolume (vol_source v)"
  proof -
    have "claimVolume m \<in> set (pod_volumes p)" if "m \<in> set ms" for m
      unfolding podConfig_built(1) [OF built] using that by simp
    then show ?thesis unfolding devices by (force simp: claimVolume_def)
  qed
  moreover have "vm_name ` set (ct_mounts ?c) \<inter> vd_name ` set (ct_devices ?c) = {}"
    unfolding mounts devices using u by (auto simp: mountAt_def distinct_map inj_on_def volumeName_def split: if_splits)
  ultimately show ?thesis unfolding containerValid_def by blast
qed

lemma sidecars_valid:
  assumes built: "buildFileServerPodSpec zone (podConfig zone v ms ssh fb) = Inr p" and "c \<in> set (tl (pod_containers p))"
  shows "containerValid (pod_volumes p) c"
proof -
  consider s where "ssh = Some s" "c = fst (buildSSHSidecar s True [])" | b where "fb = Some b" "c = fst (buildFileBrowserSidecar b True [])"
    using assms(2) unfolding podConfig_built(2) [OF built] by (auto split: option.splits)
  then show ?thesis
    by cases (simp_all add: containerValid_def declared_volumes [OF built] sidecar_mounts mountAt_def)
qed

lemma container_names:
  assumes "buildFileServerPodSpec zone (podConfig zone v ms ssh fb) = Inr p"
  shows "distinct (map ct_name (pod_containers p)) \<and> pod_containers p \<noteq> []"
  unfolding podConfig_built(2) [OF assms] by (auto simp: main_mounts(3) sidecar_mounts split: option.splits)

end
