(* ===== verification/File_Server_Properties.thy ===== *)
theory File_Server_Properties
  imports File_Server_Facts
begin

text \<open>
  The properties of the file server's objects, with their witnesses: validity of the pod, what its sidecars see and may do,
  which pod a service selects and which objects the cleanup finds again, the map of backups and the dates in paths.
\<close>

section \<open>Grouping by backup\<close>

lemma grouped_entries:
  "map_of (foldl (appendEntry zone) acc ms) k = (if \<exists>m\<in>set ms. mt_backupName m = k
     then Some ((case map_of acc k of None \<Rightarrow> [] | Some es \<Rightarrow> es) @ map (pvcEntry zone) (filter (\<lambda>m. mt_backupName m = k) ms))
     else map_of acc k)"
proof (induction ms arbitrary: acc)
  case (Cons m ms)
  have "map_of (appendEntry zone acc m) = (map_of acc)(mt_backupName m \<mapsto>
      (case map_of acc (mt_backupName m) of None \<Rightarrow> [] | Some es \<Rightarrow> es) @ [pvcEntry zone m])"
    by (simp add: appendEntry_def update_conv')
  then show ?case using Cons by auto
qed simp

lemma grouped_distinct: "distinct (map fst acc) \<Longrightarrow> distinct (map fst (foldl (appendEntry zone) acc ms))"
  by (induction ms arbitrary: acc) (simp_all add: appendEntry_def distinct_update)

lemma sorted_by_key:
  fixes xs :: "('k :: linorder \<times> 'v) list"
  assumes "distinct (map fst xs)"
  shows "sort_key fst xs = map (\<lambda>k. (k, the (map_of xs k))) (sorted_list_of_set (set (map fst xs)))"
proof -
  have "map fst (sort_key fst xs) = sorted_list_of_set (set (map fst xs))"
  proof (rule sorted_distinct_set_unique)
    show "distinct (map fst (sort_key fst xs))"
      using assms by (metis distinct_map distinct_sort set_sort)
  qed (simp_all add: sorted_sort_key)
  moreover have "map (\<lambda>k. (k, the (map_of xs k))) (map fst ys) = ys" if "set ys \<subseteq> set xs" for ys
    using that assms by (induction ys) auto
  ultimately show ?thesis by (metis set_sort subset_refl)
qed

lemma backup_map_json:
  "buildBackupPVCMapJSON zone ms = ''{'' @ join (map (\<lambda>b. jsonString b @ '':''
      @ jsonArray (map (pvcEntry zone) (filter (\<lambda>m. mt_backupName m = b) ms))) (sorted_list_of_set (mt_backupName ` set ms))) '','' @ ''}''"
proof -
  let ?g = "foldl (appendEntry zone) [] ms"
  let ?h = "map (\<lambda>(k, es). (k, jsonArray es)) ?g"
  have d: "distinct (map fst ?g)" by (rule grouped_distinct) simp
  have m: "map_of ?g k = (if \<exists>m\<in>set ms. mt_backupName m = k then Some (map (pvcEntry zone) (filter (\<lambda>m. mt_backupName m = k) ms)) else None)" for k
    by (simp add: grouped_entries)
  have keys: "set (map fst ?g) = mt_backupName ` set ms"
  proof -
    have "set (map fst ?g) = dom (map_of ?g)" by (simp add: dom_map_of_conv_image_fst)
    then show ?thesis by (auto simp: m dom_def split: if_splits)
  qed
  have fst: "map fst ?h = map fst ?g" by (simp add: comp_def case_prod_beta)
  have "map_of ?h k = map_option jsonArray (map_of ?g k)" for k by (simp add: map_of_map)
  then have "the (map_of ?h k) = jsonArray (map (pvcEntry zone) (filter (\<lambda>m. mt_backupName m = k) ms))" if "k \<in> mt_backupName ` set ms" for k
    using that m [of k] by auto
  moreover have "sort_key fst ?h = map (\<lambda>k. (k, the (map_of ?h k))) (sorted_list_of_set (mt_backupName ` set ms))"
    using sorted_by_key [of ?h] d keys unfolding fst by simp
  ultimately show ?thesis
    unfolding buildBackupPVCMapJSON_def jsonObject_def by (auto intro!: arg_cong [of _ _ "\<lambda>x. join x _"])
qed

section \<open>Dates\<close>

lemma local_second:
  assumes "instant zeroTime \<le> t + zone t * 1000000000"
  shows "epochDay (c_year (localCivil zone t)) (c_month (localCivil zone t)) (c_day (localCivil zone t)) = (t div 1000000000 + zone t) div 86400"
    and "instant (localCivil zone t \<lparr>c_offset := 0, c_nsec := 0\<rparr>) = (t div 1000000000 + zone t) * 1000000000"
proof -
  let ?s = "t div 1000000000 + zone t"
  obtain y m d where c: "civilOfDay (?s div 86400) = (y, m, d)" by (metis prod.exhaust)
  have "daysBeforeYear 1 * 86400 \<le> ?s"
    using assms by (simp add: instant_def zeroTime_def epochDay_def daysBeforeMonth_def daysBeforeYear_def)
  then have "epochDay y m d = ?s div 86400"
    using civilOfDay [OF _ c] by (simp add: daysBeforeYear_def)
  then show "epochDay (c_year (localCivil zone t)) (c_month (localCivil zone t)) (c_day (localCivil zone t)) = ?s div 86400"
    by (simp add: localCivil_def Let_def c)
  have "c_nsec (localCivil zone t) = nat (t mod 1000000000)" "c_offset (localCivil zone t) = zone t"
    by (simp_all add: localCivil_def Let_def c)
  then have "instant (localCivil zone t \<lparr>c_offset := 0, c_nsec := 0\<rparr>)
      = instant (localCivil zone t) - t mod 1000000000 + zone t * 1000000000"
    by (simp add: instant_def algebra_simps)
  also have "\<dots> = t div 1000000000 * 1000000000 + zone t * 1000000000"
    unfolding localCivil(1) [where zone = zone and t = t, OF assms] by (simp add: minus_mod_eq_div_mult)
  finally show "instant (localCivil zone t \<lparr>c_offset := 0, c_nsec := 0\<rparr>) = ?s * 1000000000" by (simp add: distrib_right)
qed

lemma formatRFC3339_offset: "formatRFC3339 (c \<lparr>c_offset := z\<rparr>) = formatRFC3339 c" "civil_ok (c \<lparr>c_offset := z\<rparr>) = civil_ok c"
  by (simp_all add: formatRFC3339_def civil_ok_def)

lemma dates_read_back:
  assumes "instant zeroTime \<le> t + zone t * 1000000000" and "c_year (localCivil zone t) \<le> 9999"
  shows "(\<exists>c. parseDateOnly (formatBackupDateForPath zone (Some t)) = Some c
      \<and> epochDay (c_year c) (c_month c) (c_day c) = (t div 1000000000 + zone t) div 86400)
    \<and> (\<exists>c. parseRFC3339 (backupTimestamp zone (m \<lparr>mt_timestamp := Some t\<rparr>)) = Some c
      \<and> instant c = (t div 1000000000 + zone t) * 1000000000)"
proof -
  let ?c = "localCivil zone t"
  have ok: "civil_ok ?c" by (rule localCivil(2) [where zone = zone and t = t, OF assms])
  have "parseDateOnly (formatBackupDateForPath zone (Some t))
      = Some (?c \<lparr>c_hour := 0, c_min := 0, c_sec := 0, c_nsec := 0, c_offset := 0\<rparr>)"
    using parse_formatDate [OF ok] by (simp add: formatBackupDateForPath_def)
  moreover have "parseRFC3339 (backupTimestamp zone (m \<lparr>mt_timestamp := Some t\<rparr>)) = Some (?c \<lparr>c_offset := 0, c_nsec := 0\<rparr>)"
    using parse_format [of "?c \<lparr>c_offset := 0\<rparr>"] ok by (simp add: backupTimestamp_def formatRFC3339_offset)
  ultimately show ?thesis using local_second [where zone = zone and t = t, OF assms(1)] by simp
qed

section \<open>Properties\<close>

text \<open>C21. The map of backups handed to the mount script names each backup once, in byte order, and lists under it exactly the
  claims of that backup, in the order of the status.\<close>

theorem backup_map_groups_by_backup:
  "buildBackupPVCMapJSON zone ms = ''{'' @ join (map (\<lambda>b. jsonString b @ '':''
      @ jsonArray (map (pvcEntry zone) (filter (\<lambda>m. mt_backupName m = b) ms))) (sorted_list_of_set (mt_backupName ` set ms))) '','' @ ''}''"
  by (rule backup_map_json)

definition demo_mount :: "string \<Rightarrow> string \<Rightarrow> pvc_mount" where
  "demo_mount uid mode = \<lparr>mt_pvcName = ''disk'' @ uid, mt_pvcNamespace = ''vms'', mt_pvcUID = uid, mt_backupName = ''b1'',
     mt_timestamp = Some 1761264000000000000, mt_restoreName = ''r1'', mt_restoredPVC = ''restored'' @ uid, mt_volumeMode = Some mode\<rparr>"

definition demo_ssh_config :: ssh_access_config where
  "demo_ssh_config = \<lparr>sa_username = ''oadp'', sa_secretName = ''s'', sa_secretNamespace = ''tmp'', sa_port = DefaultSSHPort\<rparr>"

lemma demo_pod_built: "\<exists>p. buildFileServerPodSpec (\<lambda>_. 0)
    (podConfig (\<lambda>_. 0) demo_vmfr [demo_mount ''1'' mode1, demo_mount ''2'' mode2] (Some demo_ssh_config) None) = Inr p"
  by (simp add: buildFileServerPodSpec_def podConfig_def demo_vmfr_def claim_volumes Let_def)

text \<open>C6. The pod of a file restore is valid: volume and container names are unique, every container mounts and
  attaches declared volumes only, at paths that are unique in it, and block devices are backed by claims.
  The restored claims must have different UIDs, and no two of them the same backup date, backup and claim name.\<close>

theorem file_server_pod_valid:
  assumes "buildFileServerPodSpec zone (podConfig zone v ms ssh fb) = Inr p" and "distinct (map mt_pvcUID ms)"
    and "\<forall>m\<in>set ms. plainNames m" and "distinct (map (pathParts zone) ms)"
  shows "podValid p"
proof -
  obtain c cs where "pod_containers p = c # cs" using container_names [OF assms(1)] by (cases "pod_containers p") auto
  then have "\<forall>c\<in>set (pod_containers p). containerValid (pod_volumes p) c"
    using main_valid [OF assms] sidecars_valid [OF assms(1)] by simp
  then show ?thesis
    using distinct_volumes [OF assms(1,2)] container_names [OF assms(1)] by (simp add: podValid_def)
qed

theorem file_server_pod_valid_witness:
  "\<exists>p. buildFileServerPodSpec (\<lambda>_. 0) (podConfig (\<lambda>_. 0) demo_vmfr [demo_mount ''1'' ''Block'', demo_mount ''2'' ''Filesystem'']
     (Some demo_ssh_config) None) = Inr p \<and> podValid p"
proof -
  obtain p where p: "buildFileServerPodSpec (\<lambda>_. 0) (podConfig (\<lambda>_. 0) demo_vmfr [demo_mount ''1'' ''Block'', demo_mount ''2'' ''Filesystem'']
     (Some demo_ssh_config) None) = Inr p" using demo_pod_built by blast
  have "podValid p"
    by (rule file_server_pod_valid [OF p]) (simp_all add: demo_mount_def plainNames_def pathParts_def)
  then show ?thesis using p by blast
qed

lemma claim_mount_names: "vm_name ` claimMount zone ` A = volumeName ` A"
  by (simp add: image_image)

definition attachedVolumes :: "container \<Rightarrow> string set" where
  "attachedVolumes c = vd_name ` set (ct_devices c)"

text \<open>The volumes of the main container and of the sidecars.\<close>

lemma main_volumes:
  assumes "buildFileServerPodSpec zone (podConfig zone v ms ssh fb) = Inr p"
  shows "mountedVolumes (hd (pod_containers p)) = {''shared-mounts'', ''fuse-device'', ''kvm-device''}
      \<union> volumeName ` {m \<in> set ms. \<not> isBlockMode m} \<union> (if \<exists>m\<in>set ms. isBlockMode m then {''filesystems''} else {})"
    and "attachedVolumes (hd (pod_containers p)) = volumeName ` {m \<in> set ms. isBlockMode m}"
  unfolding podConfig_built(2) [OF assms] mountedVolumes_def attachedVolumes_def list.sel main_mounts
  by (simp add: mountAt_def filter_empty_conv claim_mount_names insert_commute Un_commute) (auto simp: image_image)

lemma sidecar_cases:
  assumes "buildFileServerPodSpec zone (podConfig zone v ms ssh fb) = Inr p" and "c \<in> set (tl (pod_containers p))"
  obtains s where "ssh = Some s" "c = fst (buildSSHSidecar s True [])" | b where "fb = Some b" "c = fst (buildFileBrowserSidecar b True [])"
  using assms(2) unfolding podConfig_built(2) [OF assms(1)] by (auto split: option.splits)

text \<open>What the two sidecars mount, apart from the directory of the mounted file systems.\<close>

definition sshdVolumes :: "string set" where
  "sshdVolumes = {''ssh-etc'', ''ssh-run'', ''ssh-tmp'', ''ssh-dev'', ''ssh-oadp-etc'', ''ssh-secret''}"

definition browserVolumes :: "string set" where
  "browserVolumes = {''database'', ''tmp'', ''filebrowser-tls'', ''filebrowser-credentials''}"

lemma own_volumes:
  "mountedVolumes (fst (buildSSHSidecar s True [])) = insert ''filesystems'' sshdVolumes"
  "mountedVolumes (fst (buildFileBrowserSidecar b True [])) = insert ''filesystems'' browserVolumes"
  "sshdVolumes \<inter> browserVolumes = {}" "''filesystems'' \<notin> sshdVolumes \<union> browserVolumes"
  "volumeName m \<notin> insert ''filesystems'' (sshdVolumes \<union> browserVolumes)"
  "{''shared-mounts'', ''fuse-device'', ''kvm-device''} \<inter> insert ''filesystems'' (sshdVolumes \<union> browserVolumes) = {}"
  by (simp_all add: mountedVolumes_def sidecar_mounts mountAt_def sshdVolumes_def browserVolumes_def volumeName_def insert_commute)

lemma sidecar_volumes:
  assumes "buildFileServerPodSpec zone (podConfig zone v ms ssh fb) = Inr p" and "c \<in> set (tl (pod_containers p))"
  shows "mountedVolumes c \<subseteq> insert ''filesystems'' (sshdVolumes \<union> browserVolumes) \<and> ''filesystems'' \<in> mountedVolumes c \<and> ct_devices c = []
        \<and> (\<forall>k\<in>set (ct_mounts c). vm_name k = ''filesystems'' \<longrightarrow> vm_readOnly k)"
  using assms
proof (rule sidecar_cases)
  fix s
  assume "c = fst (buildSSHSidecar s True [])"
  then show ?thesis by (auto simp: own_volumes(1) sidecar_mounts mountAt_def)
next
  fix b
  assume "c = fst (buildFileBrowserSidecar b True [])"
  then show ?thesis by (auto simp: own_volumes(2) sidecar_mounts mountAt_def)
qed

lemma main_meets_sidecars:
  assumes "buildFileServerPodSpec zone (podConfig zone v ms ssh fb) = Inr p"
  shows "mountedVolumes (hd (pod_containers p)) \<inter> insert ''filesystems'' (sshdVolumes \<union> browserVolumes)
    = (if \<exists>m\<in>set ms. isBlockMode m then {''filesystems''} else {})"
proof -
  have "volumeName ` A \<inter> insert ''filesystems'' (sshdVolumes \<union> browserVolumes) = {}" for A using own_volumes(5) by blast
  then show ?thesis unfolding main_volumes(1) [OF assms] by (simp only: Int_Un_distrib2 own_volumes(6)) simp
qed

text \<open>C35. A sidecar shares at most one volume with the main container, the directory in which the main container
  mounts the file systems of block claims, and shares it exactly when some claim is in block mode. The claims
  themselves belong to the main container only: those in block mode are attached to it, the others mounted in it, and no
  sidecar mounts or attaches any. Without a claim in block mode nothing can be written to that directory, so
  the directory that the sidecars serve stays empty.\<close>

theorem sidecars_share_one_directory:
  assumes built: "buildFileServerPodSpec zone (podConfig zone v ms ssh fb) = Inr p"
  shows "(\<forall>c\<in>set (tl (pod_containers p)). mountedVolumes (hd (pod_containers p)) \<inter> mountedVolumes c
        = (if \<exists>m\<in>set ms. isBlockMode m then {''filesystems''} else {})
      \<and> (\<forall>m\<in>set ms. volumeName m \<notin> mountedVolumes c \<union> attachedVolumes c))
    \<and> (\<forall>m\<in>set ms. if isBlockMode m then volumeName m \<in> attachedVolumes (hd (pod_containers p))
        else volumeName m \<in> mountedVolumes (hd (pod_containers p)))
    \<and> ((\<forall>m\<in>set ms. \<not> isBlockMode m) \<longrightarrow> (\<forall>c\<in>set (pod_containers p). \<forall>k\<in>set (ct_mounts c).
        vm_name k = ''filesystems'' \<longrightarrow> vm_readOnly k))"
proof (intro conjI)
  note main = main_volumes [OF built] and side = sidecar_volumes [OF built]
  let ?own = "insert ''filesystems'' (sshdVolumes \<union> browserVolumes)"
  note common = main_meets_sidecars [OF built]
  show "\<forall>c\<in>set (tl (pod_containers p)). mountedVolumes (hd (pod_containers p)) \<inter> mountedVolumes c
        = (if \<exists>m\<in>set ms. isBlockMode m then {''filesystems''} else {})
      \<and> (\<forall>m\<in>set ms. volumeName m \<notin> mountedVolumes c \<union> attachedVolumes c)"
  proof (intro ballI conjI)
    fix c
    assume c: "c \<in> set (tl (pod_containers p))"
    have sub: "mountedVolumes c \<subseteq> ?own" and fs: "''filesystems'' \<in> mountedVolumes c" using side [OF c] by blast+
    have "mountedVolumes (hd (pod_containers p)) \<inter> mountedVolumes c = mountedVolumes (hd (pod_containers p)) \<inter> ?own \<inter> mountedVolumes c"
      using sub by (simp only: Int_assoc Int_absorb1)
    then show "mountedVolumes (hd (pod_containers p)) \<inter> mountedVolumes c = (if \<exists>m\<in>set ms. isBlockMode m then {''filesystems''} else {})"
      unfolding common using fs by (simp split: if_splits)
    fix m
    have "volumeName m \<notin> mountedVolumes c" using sub own_volumes(5) [of m] by blast
    moreover have "attachedVolumes c = {}" using side [OF c] by (simp add: attachedVolumes_def)
    ultimately show "volumeName m \<notin> mountedVolumes c \<union> attachedVolumes c" by simp
  qed
  show "\<forall>m\<in>set ms. if isBlockMode m then volumeName m \<in> attachedVolumes (hd (pod_containers p))
        else volumeName m \<in> mountedVolumes (hd (pod_containers p))"
    unfolding main by simp
  show "(\<forall>m\<in>set ms. \<not> isBlockMode m) \<longrightarrow> (\<forall>c\<in>set (pod_containers p). \<forall>k\<in>set (ct_mounts c).
        vm_name k = ''filesystems'' \<longrightarrow> vm_readOnly k)"
  proof (intro impI ballI)
    fix c k
    assume none: "\<forall>m\<in>set ms. \<not> isBlockMode m" and c: "c \<in> set (pod_containers p)" and k: "k \<in> set (ct_mounts c)" "vm_name k = ''filesystems''"
    have "''filesystems'' \<notin> mountedVolumes (hd (pod_containers p))" using none common by auto
    then have "c \<noteq> hd (pod_containers p)" using k by (force simp: mountedVolumes_def)
    then have "c \<in> set (tl (pod_containers p))" using c by (cases "pod_containers p") auto
    then show "vm_readOnly k" using side k by blast
  qed
qed

theorem sidecars_share_one_directory_witness:
  "\<exists>p. buildFileServerPodSpec (\<lambda>_. 0) (podConfig (\<lambda>_. 0) demo_vmfr [demo_mount ''1'' ''Filesystem'', demo_mount ''2'' ''Block'']
     (Some demo_ssh_config) None) = Inr p
   \<and> (\<forall>c\<in>set (tl (pod_containers p)). mountedVolumes (hd (pod_containers p)) \<inter> mountedVolumes c = {''filesystems''})
   \<and> volumeName (demo_mount ''1'' ''Filesystem'') \<in> mountedVolumes (hd (pod_containers p))"
proof -
  obtain p where p: "buildFileServerPodSpec (\<lambda>_. 0) (podConfig (\<lambda>_. 0) demo_vmfr [demo_mount ''1'' ''Filesystem'', demo_mount ''2'' ''Block'']
     (Some demo_ssh_config) None) = Inr p" using demo_pod_built by blast
  have "isBlockMode (demo_mount ''2'' ''Block'')" "\<not> isBlockMode (demo_mount ''1'' ''Filesystem'')"
    by (simp_all add: isBlockMode_def demo_mount_def)
  then show ?thesis using p sidecars_share_one_directory [OF p] by simp
qed

text \<open>The confinement of a sidecar: not privileged, no escalation, a read-only root file system, capabilities dropped; no
  device; no volume of a claim or of the host; secrets and the restored data read-only; and what it may write is its
  own: an empty directory that no other container mounts.\<close>

definition ownWrites :: "pod \<Rightarrow> container \<Rightarrow> volume_mount \<Rightarrow> bool" where
  "ownWrites p c m \<longleftrightarrow> (\<forall>vol\<in>set (pod_volumes p). vol_name vol = vm_name m \<longrightarrow> (case vol_source vol of
       PersistentVolumeClaimVolume _ _ \<Rightarrow> False
     | HostPathVolume _ _ \<Rightarrow> False
     | SecretVolume _ _ \<Rightarrow> vm_readOnly m
     | EmptyDirVolume _ _ \<Rightarrow> vm_readOnly m
         \<or> (\<forall>other\<in>set (pod_containers p). ct_name other \<noteq> ct_name c \<longrightarrow> vm_name m \<notin> mountedVolumes other)))"

definition confined :: "pod \<Rightarrow> container \<Rightarrow> bool" where
  "confined p c \<longleftrightarrow> (case ct_security c of None \<Rightarrow> False
     | Some sc \<Rightarrow> sc_privileged sc = None \<and> sc_allowEscalation sc = Some False \<and> sc_readOnlyRoot sc = Some True
         \<and> (case sc_capabilities sc of None \<Rightarrow> False | Some k \<Rightarrow> cap_drop k = [''ALL'']))
     \<and> ct_devices c = [] \<and> (\<forall>m\<in>set (ct_mounts c). ownWrites p c m \<and> (vm_name m = ''filesystems'' \<longrightarrow> vm_readOnly m))"

text \<open>Where the volumes of the pod come from.\<close>

lemma volume_sources:
  assumes "buildFileServerPodSpec zone (podConfig zone v ms ssh fb) = Inr p" and "vol \<in> set (pod_volumes p)"
  shows "vol_name vol \<in> volumeName ` set ms \<or> vol_name vol \<in> {''shared-mounts'', ''fuse-device'', ''kvm-device''}
    \<or> vol_name vol \<in> {''ssh-secret'', ''filebrowser-tls'', ''filebrowser-credentials''} \<and> (\<exists>n k. vol_source vol = SecretVolume n k)
    \<or> (\<exists>k l. vol_source vol = EmptyDirVolume k l)"
  using assms(2) unfolding podConfig_built(1) [OF assms(1)]
  by (auto simp: claimVolume_def utilityVolumes_def hostDevice_def emptyDir_def sshVolumes_def fileBrowserVolumes_def memoryDir_def
      split: option.splits)

lemma sidecar_secrets:
  assumes "buildFileServerPodSpec zone (podConfig zone v ms ssh fb) = Inr p" and "c \<in> set (tl (pod_containers p))"
    and "m \<in> set (ct_mounts c)" and "vm_name m \<in> {''ssh-secret'', ''filebrowser-tls'', ''filebrowser-credentials'', ''filesystems''}"
  shows "vm_readOnly m"
  using assms(1,2)
proof (rule sidecar_cases)
  fix s
  assume "c = fst (buildSSHSidecar s True [])"
  then show ?thesis using assms(3,4) by (auto simp: sidecar_mounts mountAt_def)
next
  fix b
  assume "c = fst (buildFileBrowserSidecar b True [])"
  then show ?thesis using assms(3,4) by (auto simp: sidecar_mounts mountAt_def)
qed

lemma sidecars_apart:
  assumes built: "buildFileServerPodSpec zone (podConfig zone v ms ssh fb) = Inr p" and "c \<in> set (tl (pod_containers p))"
    and "other \<in> set (tl (pod_containers p))" and "ct_name other \<noteq> ct_name c"
  shows "mountedVolumes c \<inter> mountedVolumes other \<subseteq> {''filesystems''}"
proof -
  have kinds: "ct_name x = ''sshd'' \<and> mountedVolumes x = insert ''filesystems'' sshdVolumes
      \<or> ct_name x = ''filebrowser'' \<and> mountedVolumes x = insert ''filesystems'' browserVolumes" if x: "x \<in> set (tl (pod_containers p))" for x
    using built x
  proof (rule sidecar_cases)
    fix s
    assume "x = fst (buildSSHSidecar s True [])"
    then show ?thesis by (simp add: own_volumes(1) sidecar_mounts)
  next
    fix b
    assume "x = fst (buildFileBrowserSidecar b True [])"
    then show ?thesis by (simp add: own_volumes(2) sidecar_mounts)
  qed
  have "mountedVolumes c = insert ''filesystems'' sshdVolumes \<and> mountedVolumes other = insert ''filesystems'' browserVolumes
      \<or> mountedVolumes c = insert ''filesystems'' browserVolumes \<and> mountedVolumes other = insert ''filesystems'' sshdVolumes"
    using kinds [OF assms(2)] kinds [OF assms(3)] assms(4) by metis
  then show ?thesis using own_volumes(3) by (elim disjE conjE) (simp_all add: Int_commute)
qed

lemma sidecar_own_writes:
  assumes built: "buildFileServerPodSpec zone (podConfig zone v ms ssh fb) = Inr p" and c: "c \<in> set (tl (pod_containers p))"
    and m: "m \<in> set (ct_mounts c)"
  shows "ownWrites p c m"
  unfolding ownWrites_def
proof (intro ballI impI)
  fix vol
  assume vol: "vol \<in> set (pod_volumes p)" and name: "vol_name vol = vm_name m"
  have mounted: "vm_name m \<in> mountedVolumes c" using m by (simp add: mountedVolumes_def)
  then have own: "vm_name m \<in> insert ''filesystems'' (sshdVolumes \<union> browserVolumes)"
    using sidecar_volumes [OF built c] by blast
  have secret: "vm_readOnly m" if "vm_name m \<in> {''ssh-secret'', ''filebrowser-tls'', ''filebrowser-credentials'', ''filesystems''}"
    by (rule sidecar_secrets [OF built c m that])
  have alone: "vm_name m \<notin> mountedVolumes other"
    if o: "other \<in> set (pod_containers p)" "ct_name other \<noteq> ct_name c" and n: "vm_name m \<noteq> ''filesystems''" for other
  proof (cases "other \<in> set (tl (pod_containers p))")
    case True
    have "mountedVolumes c \<inter> mountedVolumes other \<subseteq> {''filesystems''}" by (rule sidecars_apart [OF built c True o(2)])
    then show ?thesis using mounted n by blast
  next
    case False
    then have "other = hd (pod_containers p)" using o(1) by (cases "pod_containers p") auto
    then show ?thesis using main_meets_sidecars [OF built] own n by (auto split: if_splits)
  qed
  have "vol_name vol \<notin> volumeName ` set ms"
    unfolding name using own own_volumes(5) by (metis imageE)
  moreover have "vol_name vol \<notin> {''shared-mounts'', ''fuse-device'', ''kvm-device''}"
    unfolding name using own own_volumes(6) by (metis disjoint_iff)
  ultimately show "case vol_source vol of PersistentVolumeClaimVolume _ _ \<Rightarrow> False | HostPathVolume _ _ \<Rightarrow> False
     | SecretVolume _ _ \<Rightarrow> vm_readOnly m
     | EmptyDirVolume _ _ \<Rightarrow> vm_readOnly m
         \<or> (\<forall>other\<in>set (pod_containers p). ct_name other \<noteq> ct_name c \<longrightarrow> vm_name m \<notin> mountedVolumes other)"
    using volume_sources [OF built vol] secret alone unfolding name by (cases "vm_name m = ''filesystems''") auto
qed

text \<open>C10. Every sidecar of the pod is confined: it reads the restored data only, has no claim, device or directory of the
  host, and writes to nothing that another container mounts, so the restored claims can be written from the main
  container only. The main container is privileged and, against the security context it is built with, not bound to the
  qemu user and group.\<close>

theorem file_server_confinement:
  assumes built: "buildFileServerPodSpec zone (podConfig zone v ms ssh fb) = Inr p"
  shows "(\<forall>c\<in>set (tl (pod_containers p)). confined p c)
    \<and> ct_security (hd (pod_containers p)) = Some (noSecurity \<lparr>sc_privileged := Some True\<rparr>)
    \<and> ct_security (buildVMFileServerMainContainer zone ms)
        = Some (noSecurity \<lparr>sc_privileged := Some True, sc_runAsUser := Some 107, sc_runAsGroup := Some 107\<rparr>)"
proof (intro conjI ballI)
  fix c
  assume c: "c \<in> set (tl (pod_containers p))"
  have "case ct_security c of None \<Rightarrow> False
     | Some sc \<Rightarrow> sc_privileged sc = None \<and> sc_allowEscalation sc = Some False \<and> sc_readOnlyRoot sc = Some True
         \<and> (case sc_capabilities sc of None \<Rightarrow> False | Some k \<Rightarrow> cap_drop k = [''ALL''])"
    using built c
    by (rule sidecar_cases) (simp_all add: buildSSHSidecar_def buildFileBrowserSidecar_def noSecurity_def sshCapabilities_def)
  then show "confined p c"
    unfolding confined_def using sidecar_volumes [OF built c] sidecar_own_writes [OF built c] by blast
next
  show "ct_security (hd (pod_containers p)) = Some (noSecurity \<lparr>sc_privileged := Some True\<rparr>)"
    unfolding podConfig_built(2) [OF built] list.sel by (rule main_mounts(4))
qed (simp add: buildVMFileServerMainContainer_def)

theorem file_server_confinement_witness:
  "\<exists>p. buildFileServerPodSpec (\<lambda>_. 0) (podConfig (\<lambda>_. 0) demo_vmfr [demo_mount ''1'' ''Block'', demo_mount ''2'' ''Block'']
     (Some demo_ssh_config) None) = Inr p \<and> (\<forall>c\<in>set (tl (pod_containers p)). confined p c)"
proof -
  obtain p where p: "buildFileServerPodSpec (\<lambda>_. 0) (podConfig (\<lambda>_. 0) demo_vmfr [demo_mount ''1'' ''Block'', demo_mount ''2'' ''Block'']
     (Some demo_ssh_config) None) = Inr p" using demo_pod_built by blast
  then show ?thesis using file_server_confinement [OF p] by blast
qed

text \<open>C20. Traffic and cleanup stay with their file restore: a service selects the pod of a file restore exactly when both have the
  same UID, and the pod, the service and the route carry the labels by which the deletion of that file restore finds them.\<close>

theorem file_server_selection:
  assumes "buildFileServerPodSpec zone (podConfig zone v ms ssh fb) = Inr p" and "buildFileServerService (serviceConfig v' ssh' fb') = Inr s"
    and "buildFileServerRoute (routeConfig v' rn svc ns) = Inr r"
  shows "(selected (fv_selector s) (pod_meta p) \<longleftrightarrow> vmfr_uid v = vmfr_uid v')
    \<and> selected (ownedBy v @ appSelector) (pod_meta p) \<and> selected (ownedBy v' @ appSelector) (fv_meta s) \<and> selected (ownedBy v') (fr_meta r)"
proof -
  have keys: "VMFROriginUUIDLabel \<noteq> ManagedByLabel" "VMFROriginUUIDLabel \<noteq> ''app''" "ManagedByLabel \<noteq> ''app''" by (simp_all add: label_defs)
  have "fv_selector s = [(VMFROriginUUIDLabel, vmfr_uid v'), (''app'', ''vmfr-file-server'')]"
    "om_labels (fv_meta s) = fileServerLabels (vmfr_uid v')"
    using assms(2) by (auto simp: buildFileServerService_def serviceConfig_def split: if_splits)
  moreover have "om_labels (fr_meta r) = fileServerLabels (vmfr_uid v')"
    using assms(3) by (auto simp: buildFileServerRoute_def routeConfig_def split: if_splits)
  moreover have "om_labels (pod_meta p) = fileServerLabels (vmfr_uid v)" using podConfig_built(3) [OF assms(1)] by simp
  ultimately show ?thesis using keys by (auto simp: selected_def fileServerLabels_def ownedBy_def appSelector_def)
qed

theorem file_server_selection_witness:
  "\<exists>p s r. buildFileServerPodSpec (\<lambda>_. 0) (podConfig (\<lambda>_. 0) demo_vmfr [demo_mount ''1'' ''Block'', demo_mount ''2'' ''Block'']
      (Some demo_ssh_config) None) = Inr p \<and> buildFileServerService (serviceConfig demo_vmfr (Some demo_ssh_config) None) = Inr s
    \<and> buildFileServerRoute (routeConfig demo_vmfr ''fr-filebrowser'' ''fr-fileserver-svc'' ''tmp'') = Inr r \<and> selected (fv_selector s) (pod_meta p)"
proof -
  obtain p where p: "buildFileServerPodSpec (\<lambda>_. 0) (podConfig (\<lambda>_. 0) demo_vmfr [demo_mount ''1'' ''Block'', demo_mount ''2'' ''Block'']
     (Some demo_ssh_config) None) = Inr p" using demo_pod_built by blast
  obtain s where s: "buildFileServerService (serviceConfig demo_vmfr (Some demo_ssh_config) None) = Inr s"
    by (simp add: buildFileServerService_def serviceConfig_def demo_vmfr_def gatherServicePorts_def)
  obtain r where r: "buildFileServerRoute (routeConfig demo_vmfr ''fr-filebrowser'' ''fr-fileserver-svc'' ''tmp'') = Inr r"
    by (simp add: buildFileServerRoute_def routeConfig_def demo_vmfr_def)
  show ?thesis using p s r file_server_selection [OF p s r] by blast
qed

text \<open>C36. The date in the path of a claim reads back as the day of the backup in the local time zone, and the time stamp in the
  map of backups, which is labelled as UTC, reads back as the local time of the backup: it is right when the
  local zone is UTC and off by the zone's offset otherwise.\<close>

theorem backup_dates_read_back:
  assumes "instant zeroTime \<le> t + zone t * 1000000000" and "c_year (localCivil zone t) \<le> 9999"
  shows "(\<exists>c. parseDateOnly (formatBackupDateForPath zone (Some t)) = Some c
      \<and> epochDay (c_year c) (c_month c) (c_day c) = (t div 1000000000 + zone t) div 86400)
    \<and> (\<exists>c. parseRFC3339 (backupTimestamp zone (m \<lparr>mt_timestamp := Some t\<rparr>)) = Some c
      \<and> instant c = (t div 1000000000 + zone t) * 1000000000)"
  by (rule dates_read_back [where zone = zone and t = t, OF assms])

theorem backup_dates_read_back_witness:
  "\<exists>c. parseRFC3339 (backupTimestamp (\<lambda>_. 3600) ((demo_mount ''1'' ''Block'') \<lparr>mt_timestamp := Some 1761264000000000000\<rparr>)) = Some c
     \<and> instant c = 1761267600000000000"
proof -
  have "instant zeroTime \<le> 1761264000000000000 + 3600 * 1000000000" by code_simp
  moreover have "c_year (localCivil (\<lambda>_. 3600) 1761264000000000000) \<le> 9999" by code_simp
  ultimately show ?thesis
    using backup_dates_read_back [of 1761264000000000000 "\<lambda>_. 3600" "demo_mount ''1'' ''Block''"] by simp
qed

end
