(* ===== verification/Backup_Reader.thy ===== *)
theory Backup_Reader
  imports Restore_Discovery
begin

text \<open>
  The readers of backup contents (\<open>internal/velerohelpers\<close>): \<open>VeleroBackupContentsReader\<close>, which downloads a backup's resource
  list and archive, and \<open>MockBackupContentsReader\<close>, which serves configured data; with the error types of
  \<open>errors.go\<close>. Velero's download mechanism and the decoding of the downloaded bytes (JSON, gzip and tar
  formats) are the fields of \<open>download_env\<close>; logging is left out.
\<close>

section \<open>Errors\<close>

record backup_discovery_error =
  be_backupName :: string
  be_operation :: string
  be_cause :: go_error

definition NewBackupDiscoveryError :: "string \<Rightarrow> string \<Rightarrow> go_error \<Rightarrow> backup_discovery_error" where
  "NewBackupDiscoveryError b op cause = \<lparr>be_backupName = b, be_operation = op, be_cause = cause\<rparr>"

text \<open>An error value keeps the status reason of its cause through \<open>Unwrap\<close>.\<close>

definition BackupDiscoveryError_Error :: "backup_discovery_error \<Rightarrow> go_error" where
  "BackupDiscoveryError_Error e = errorf_w (''backup discovery failed for '' @ be_backupName e @ '' during '' @ be_operation e @ '': '') (be_cause e)"

record pvc_discovery_error = backup_discovery_error +
  de_pvcName :: string
  de_pvcNamespace :: string

definition NewPVCDiscoveryError :: "string \<Rightarrow> string \<Rightarrow> string \<Rightarrow> string \<Rightarrow> go_error \<Rightarrow> pvc_discovery_error" where
  "NewPVCDiscoveryError b n ns op cause = \<lparr>be_backupName = b, be_operation = op, be_cause = cause, de_pvcName = n, de_pvcNamespace = ns\<rparr>"

definition PVCDiscoveryError_Error :: "pvc_discovery_error \<Rightarrow> go_error" where
  "PVCDiscoveryError_Error e = errorf_w (''PVC discovery failed for '' @ de_pvcNamespace e @ ''/'' @ de_pvcName e @ '' in backup ''
     @ be_backupName e @ '' during '' @ be_operation e @ '': '') (be_cause e)"

record vm_discovery_error = backup_discovery_error +
  de_vmName :: string
  de_vmNamespace :: string

definition NewVMDiscoveryError :: "string \<Rightarrow> string \<Rightarrow> string \<Rightarrow> string \<Rightarrow> go_error \<Rightarrow> vm_discovery_error" where
  "NewVMDiscoveryError b n ns op cause = \<lparr>be_backupName = b, be_operation = op, be_cause = cause, de_vmName = n, de_vmNamespace = ns\<rparr>"

definition VMDiscoveryError_Error :: "vm_discovery_error \<Rightarrow> go_error" where
  "VMDiscoveryError_Error e = errorf_w (''VM discovery failed for '' @ de_vmNamespace e @ ''/'' @ de_vmName e @ '' in backup ''
     @ be_backupName e @ '' during '' @ be_operation e @ '': '') (be_cause e)"

section \<open>Backup metadata\<close>

record backup_resource_item =
  it_apiVersion :: string
  it_kind :: string
  it_namespace :: string
  it_name :: string

type_synonym backup_metadata = "backup_resource_item list"

text \<open>The entries of an archive, in order: a header name with the bytes that follow, or with the error of
  reading them; or an error of reading the header, which ends the archive.\<close>

datatype tar_item = TarFile string "string result" | TarBroken go_error

record 'w download_env =
  dl_resourceList :: "backup \<Rightarrow> ('w, string) io"
  dl_contents :: "backup \<Rightarrow> ('w, string) io"
  dl_notFound :: go_error
  dl_decodeList :: "string \<Rightarrow> (string \<times> string list) list result"
  dl_listOrder :: "(string \<times> string list) list \<Rightarrow> (string \<times> string list) list"
  dl_archive :: "string \<Rightarrow> tar_item list result"
  dl_unmarshalVM :: "string \<Rightarrow> backup_vm result"
  dl_unmarshalPVC :: "string \<Rightarrow> backup_pvc result"

definition resourceItem :: "string \<Rightarrow> string \<Rightarrow> backup_resource_item" where
  "resourceItem gvk resource = (case parseNamespacedName resource of (ns, n) \<Rightarrow>
     \<lparr>it_apiVersion = gvk, it_kind = extractKindFromGVK gvk, it_namespace = ns, it_name = n\<rparr>)"

definition FetchBackupMetadata :: "'w download_env \<Rightarrow> backup \<Rightarrow> ('w, backup_metadata) io" where
  "FetchBackupMetadata D b w = (case dl_resourceList D b w of
     (Inl e, w1) \<Rightarrow> (Inl e, w1)
   | (Inr bytes, w1) \<Rightarrow> (case dl_decodeList D bytes of
       Inl e \<Rightarrow> (Inl e, w1)
     | Inr list \<Rightarrow> (Inr (concat (map (\<lambda>(gvk, rs). map (resourceItem gvk) rs) (dl_listOrder D list))), w1)))"

definition hasVMInMetadata :: "backup_metadata \<Rightarrow> string \<Rightarrow> string \<Rightarrow> bool" where
  "hasVMInMetadata md vmName vmNamespace =
     hasVMInBackupResources vmName vmNamespace (map (\<lambda>i. (it_kind i, it_namespace i, it_name i)) md)"

text \<open>When the resource list cannot be fetched, the backup's spec decides alone.\<close>

definition readerContainsVM :: "'w download_env \<Rightarrow> backup \<Rightarrow> string \<Rightarrow> string \<Rightarrow> ('w, bool) io" where
  "readerContainsVM D b vmName vmNamespace w =
    (if \<not> ValidateVMInBackupSpec b (empty_meta \<lparr>om_name := vmName, om_namespace := vmNamespace\<rparr>) then (Inr False, w)
     else (case FetchBackupMetadata D b w of
        (Inl _, w1) \<Rightarrow> (Inr True, w1)
      | (Inr md, w1) \<Rightarrow> (Inr (hasVMInMetadata md vmName vmNamespace), w1)))"

section \<open>Resources in the archive\<close>

text \<open>The loop over the archive, which \<open>extractVMFromBackupTar\<close> and \<open>extractPVCFromBackupTar\<close> share: the first entry with the
  expected path is read, decoded and checked.\<close>

fun findInTar :: "string \<Rightarrow> (string \<Rightarrow> 'a result) \<Rightarrow> ('a \<Rightarrow> bool) \<Rightarrow> string \<Rightarrow> tar_item list \<Rightarrow> 'a option result" where
  "findInTar path decode matches what [] = Inr None"
| "findInTar path decode matches what (TarBroken e # _) = Inl e"
| "findInTar path decode matches what (TarFile name content # items) =
    (if name = path then
       (case content of
          Inl e \<Rightarrow> Inl e
        | Inr bytes \<Rightarrow> (case decode bytes of
            Inl e \<Rightarrow> Inl e
          | Inr x \<Rightarrow> if matches x then Inr (Some x) else Inl (errorf (what @ '' resource has unexpected name/namespace''))))
     else findInTar path decode matches what items)"

definition named :: "string \<Rightarrow> string \<Rightarrow> object_meta \<Rightarrow> bool" where
  "named n ns m \<longleftrightarrow> om_name m = n \<and> om_namespace m = ns"

definition extractVMFromBackupTar :: "'w download_env \<Rightarrow> string \<Rightarrow> string \<Rightarrow> string \<Rightarrow> backup_vm option result" where
  "extractVMFromBackupTar D bytes vmName vmNamespace = (case dl_archive D bytes of
     Inl e \<Rightarrow> Inl e
   | Inr items \<Rightarrow> findInTar (''resources/virtualmachines.kubevirt.io/namespaces/'' @ vmNamespace @ ''/'' @ vmName @ ''.json'')
       (dl_unmarshalVM D) (\<lambda>vm. named vmName vmNamespace (bvm_meta vm)) ''VM'' items)"

definition extractPVCFromBackupTar :: "'w download_env \<Rightarrow> string \<Rightarrow> string \<Rightarrow> string \<Rightarrow> backup_pvc option result" where
  "extractPVCFromBackupTar D bytes pvcName pvcNamespace = (case dl_archive D bytes of
     Inl e \<Rightarrow> Inl e
   | Inr items \<Rightarrow> findInTar (''resources/persistentvolumeclaims/namespaces/'' @ pvcNamespace @ ''/'' @ pvcName @ ''.json'')
       (dl_unmarshalPVC D) (\<lambda>p. named pvcName pvcNamespace (bpvc_meta p)) ''PVC'' items)"

definition readerFetchPVC :: "'w download_env \<Rightarrow> backup \<Rightarrow> string \<Rightarrow> string \<Rightarrow> ('w, backup_pvc) io" where
  "readerFetchPVC D b pvcName pvcNamespace w = (case dl_contents D b w of
     (Inl e, w1) \<Rightarrow> (Inl e, w1)
   | (Inr bytes, w1) \<Rightarrow> (case extractPVCFromBackupTar D bytes pvcName pvcNamespace of
       Inl e \<Rightarrow> (Inl e, w1)
     | Inr None \<Rightarrow> (Inl (dl_notFound D), w1)
     | Inr (Some p) \<Rightarrow> (Inr p, w1)))"

definition downloadVMResource :: "'w download_env \<Rightarrow> backup \<Rightarrow> string \<Rightarrow> string \<Rightarrow> ('w, backup_vm option) io" where
  "downloadVMResource D b vmName vmNamespace w = (case dl_contents D b w of
     (Inl e, w1) \<Rightarrow> (Inl e, w1)
   | (Inr bytes, w1) \<Rightarrow> (case extractVMFromBackupTar D bytes vmName vmNamespace of
       Inl e \<Rightarrow> (Inl e, w1)
     | Inr None \<Rightarrow> (Inl (dl_notFound D), w1)
     | Inr (Some vm) \<Rightarrow> (Inr (Some vm), w1)))"

definition readerExtractVM :: "'w download_env \<Rightarrow> backup \<Rightarrow> string \<Rightarrow> string \<Rightarrow> ('w, backup_vm option) io" where
  "readerExtractVM D b vmName vmNamespace w = (case FetchBackupMetadata D b w of
     (Inl _, w1) \<Rightarrow> downloadVMResource D b vmName vmNamespace w1
   | (Inr md, w1) \<Rightarrow>
      if list_ex (\<lambda>i. it_kind i = ''VirtualMachine'' \<and> it_name i = vmName \<and> it_namespace i = vmNamespace) md
      then downloadVMResource D b vmName vmNamespace w1 else (Inl (dl_notFound D), w1))"

definition contentsReader :: "'w download_env \<Rightarrow> 'w backup_reader" where
  "contentsReader D = \<lparr>BackupContainsVM = readerContainsVM D, ExtractVMFromBackupMetadata = readerExtractVM D,
     FetchPVCFromBackup = readerFetchPVC D\<rparr>"

section \<open>The mock reader\<close>

record mock_reader =
  mk_metadata :: "(string \<times> backup_metadata) list"
  mk_vms :: "(string \<times> backup_vm) list"
  mk_pvcs :: "(string \<times> backup_pvc) list"
  mk_errors :: "(string \<times> go_error) list"
  mk_failAll :: bool

definition NewMockBackupContentsReader :: mock_reader where
  "NewMockBackupContentsReader = \<lparr>mk_metadata = [], mk_vms = [], mk_pvcs = [], mk_errors = [], mk_failAll = False\<rparr>"

definition mockKey :: "string \<Rightarrow> string \<Rightarrow> string \<Rightarrow> string" where
  "mockKey a b c = a @ ''-'' @ b @ ''-'' @ c"

text \<open>The checks every operation of the mock starts with.\<close>

definition mockGuard :: "mock_reader \<Rightarrow> string \<Rightarrow> 'a result \<Rightarrow> 'a result" where
  "mockGuard M key r = (if mk_failAll M then Inl (errorf ''mock configured to fail all operations'')
     else case map_of (mk_errors M) key of Some e \<Rightarrow> Inl e | None \<Rightarrow> r)"

definition mockContainsVM :: "mock_reader \<Rightarrow> backup \<Rightarrow> string \<Rightarrow> string \<Rightarrow> bool result" where
  "mockContainsVM M b vmName vmNamespace = mockGuard M (bk_name b @ ''-contains-vm-'' @ vmNamespace @ ''-'' @ vmName)
     (Inr (map_of (mk_vms M) (mockKey (bk_name b) vmNamespace vmName) \<noteq> None))"

definition mockFetchBackupMetadata :: "mock_reader \<Rightarrow> backup \<Rightarrow> backup_metadata result" where
  "mockFetchBackupMetadata M b = mockGuard M (bk_name b @ ''-metadata'')
     (case map_of (mk_metadata M) (bk_name b) of
        None \<Rightarrow> Inl (errorf (''backup metadata not found for '' @ bk_name b))
      | Some md \<Rightarrow> Inr md)"

definition mockExtractVM :: "mock_reader \<Rightarrow> backup \<Rightarrow> string \<Rightarrow> string \<Rightarrow> backup_vm option result" where
  "mockExtractVM M b vmName vmNamespace = mockGuard M (bk_name b @ ''-vm-'' @ vmNamespace @ ''-'' @ vmName)
     (case map_of (mk_vms M) (mockKey (bk_name b) vmNamespace vmName) of
        None \<Rightarrow> Inl (errorf (''VM '' @ vmNamespace @ ''/'' @ vmName @ '' not found in backup '' @ bk_name b))
      | Some vm \<Rightarrow> Inr (Some vm))"

definition mockFetchPVC :: "mock_reader \<Rightarrow> backup \<Rightarrow> string \<Rightarrow> string \<Rightarrow> backup_pvc result" where
  "mockFetchPVC M b pvcName pvcNamespace = mockGuard M (bk_name b @ ''-pvc-'' @ pvcNamespace @ ''-'' @ pvcName)
     (case map_of (mk_pvcs M) (mockKey (bk_name b) pvcNamespace pvcName) of
        None \<Rightarrow> Inl (errorf (''PVC '' @ pvcNamespace @ ''/'' @ pvcName @ '' not found in backup '' @ bk_name b))
      | Some p \<Rightarrow> Inr p)"

definition mockVM :: "string \<Rightarrow> string \<Rightarrow> string list \<Rightarrow> backup_vm" where
  "mockVM vmName vmNamespace pvcNames = \<lparr>bvm_meta = empty_meta \<lparr>om_name := vmName, om_namespace := vmNamespace\<rparr>,
     bvm_volumes = Some (map (\<lambda>n. (Some n, None)) pvcNames)\<rparr>"

definition mockPVC :: "string \<Rightarrow> string \<Rightarrow> backup_pvc" where
  "mockPVC pvcName ns = \<lparr>bpvc_meta = empty_meta \<lparr>om_name := pvcName, om_namespace := ns, om_uid := ''mock-uid-'' @ pvcName\<rparr>,
     bpvc_labelsNil = True, bpvc_storage = Some (5 * 1024 * 1024 * 1024)\<rparr>"

definition SetupTestBackup :: "string \<Rightarrow> string \<Rightarrow> string \<Rightarrow> string list \<Rightarrow> mock_reader \<Rightarrow> mock_reader" where
  "SetupTestBackup backupName vmName vmNamespace pvcNames M =
     M \<lparr>mk_vms := AList.update (mockKey backupName vmNamespace vmName) (mockVM vmName vmNamespace pvcNames) (mk_vms M),
        mk_pvcs := foldl (\<lambda>acc n. AList.update (mockKey backupName vmNamespace n) (mockPVC n vmNamespace) acc) (mk_pvcs M) pvcNames,
        mk_metadata := AList.update backupName
          (\<lparr>it_apiVersion = ''kubevirt.io/v1'', it_kind = ''VirtualMachine'', it_namespace = vmNamespace, it_name = vmName\<rparr>
           # map (\<lambda>n. \<lparr>it_apiVersion = ''v1'', it_kind = ''PersistentVolumeClaim'', it_namespace = vmNamespace, it_name = n\<rparr>) pvcNames)
          (mk_metadata M)\<rparr>"

text \<open>An operation with another name stores the error under the empty key.\<close>

definition SetError :: "string \<Rightarrow> string \<Rightarrow> string \<Rightarrow> string \<Rightarrow> go_error \<Rightarrow> mock_reader \<Rightarrow> mock_reader" where
  "SetError operation backupName ns n err M =
    (let key = (if operation = ''contains-vm'' then backupName @ ''-contains-vm-'' @ ns @ ''-'' @ n
                else if operation = ''metadata'' then backupName @ ''-metadata''
                else if operation = ''vm'' then backupName @ ''-vm-'' @ ns @ ''-'' @ n
                else if operation = ''pvc'' then backupName @ ''-pvc-'' @ ns @ ''-'' @ n
                else [])
     in M \<lparr>mk_errors := AList.update key err (mk_errors M)\<rparr>)"

definition ClearErrors :: "mock_reader \<Rightarrow> mock_reader" where
  "ClearErrors M = M \<lparr>mk_errors := []\<rparr>"

definition mockReader :: "mock_reader \<Rightarrow> 'w backup_reader" where
  "mockReader M = \<lparr>BackupContainsVM = (\<lambda>b n ns w. (mockContainsVM M b n ns, w)),
     ExtractVMFromBackupMetadata = (\<lambda>b n ns w. (mockExtractVM M b n ns, w)), FetchPVCFromBackup = (\<lambda>b n ns w. (mockFetchPVC M b n ns, w))\<rparr>"

end
