(* ===== verification/Backup_Reader_Facts.thy ===== *)
theory Backup_Reader_Facts
  imports Backup_Reader
begin

text \<open>
  What the claim discovery relies on in a reader of backups: the objects it returns are the ones asked for.
  The locale \<open>backup_contents\<close> is that contract with its consequence for the discovery; \<open>contentsReader\<close> meets it.
\<close>

section \<open>The contract\<close>

locale backup_contents =
  fixes rd :: "'w backup_reader"
  assumes vm_named: "ExtractVMFromBackupMetadata rd b n ns w = (Inr (Some vm), w1) \<Longrightarrow> named n ns (bvm_meta vm)"
    and pvc_named: "FetchPVCFromBackup rd b n ns w = (Inr p, w1) \<Longrightarrow> named n ns (bpvc_meta p)"
begin

lemma fetched_names:
  assumes "fetchPVCs E rd b ns names acc w = (Inr cs, w1)"
  shows "\<exists>js. cs = acc @ js \<and> map PVCName js = names \<and> (\<forall>i\<in>set js. PVCNamespace i = ns)"
  using assms
proof (induction names arbitrary: acc w)
  case (Cons n names)
  then obtain p w2 i where p: "FetchPVCFromBackup rd b n ns w = (Inr p, w2)" "checkPVC E p = Inr i"
    "fetchPVCs E rd b ns names (acc @ [i]) w2 = (Inr cs, w1)"
    by (auto split: prod.splits sum.splits)
  have "PVCName i = n" "PVCNamespace i = ns"
    using pvc_named [OF p(1)] p(2) by (auto simp: checkPVC_def named_def pvcInfoOf_def Let_def split: if_splits option.splits)
  then show ?case using Cons.IH [OF p(3)] by auto
qed simp

text \<open>The claims of a completed discovery are those the machine's volumes name, each once.\<close>

lemma discovered_claims:
  assumes "pe_reader E = Some rd" and "extractPVCsForGivenVMFromBackup E bn bns vn vns w = (Inr cs, w1)" and "cs \<noteq> []"
  shows "\<exists>b w2 vm w3. getVeleroBackup E bn bns w = (Inr b, w2) \<and> ExtractVMFromBackupMetadata rd b vn vns w2 = (Inr (Some vm), w3)
    \<and> named vn vns (bvm_meta vm) \<and> map PVCName cs = pe_nameOrder E (vmPVCNames vm) \<and> (\<forall>i\<in>set cs. PVCNamespace i = vns)"
proof -
  obtain b vm w2 w3 where vm: "getVeleroBackup E bn bns w = (Inr b, w2)" "ExtractVMFromBackupMetadata rd b vn vns w2 = (Inr (Some vm), w3)"
    "fetchPVCs E rd b vns (pe_nameOrder E (vmPVCNames vm)) [] w3 = (Inr cs, w1)"
    using assms by (auto simp: extractPVCsForGivenVMFromBackup_def split: prod.splits sum.splits option.splits if_splits)
  show ?thesis using vm(1,2) vm_named [OF vm(2)] fetched_names [OF vm(3)] by auto
qed

end

section \<open>The archive reader\<close>

lemma findInTar_Some:
  "findInTar path decode ok what items = Inr (Some x) \<longleftrightarrow>
    (\<exists>pre bytes post. items = pre @ TarFile path (Inr bytes) # post \<and> decode bytes = Inr x \<and> ok x
      \<and> (\<forall>i\<in>set pre. \<exists>n c. i = TarFile n c \<and> n \<noteq> path))" (is "?l items \<longleftrightarrow> ?r items")
proof
  show "?l items \<Longrightarrow> ?r items"
  proof (induction items)
    case (Cons i items)
    show ?case
    proof (cases "\<exists>n c. i = TarFile n c \<and> n \<noteq> path")
      case True
      then have "?r items" using Cons by auto
      then obtain pre bytes post where "items = pre @ TarFile path (Inr bytes) # post" "decode bytes = Inr x" "ok x"
        "\<forall>i\<in>set pre. \<exists>n c. i = TarFile n c \<and> n \<noteq> path" by blast
      then show ?thesis using True by (intro exI [of _ "i # pre"]) auto
    next
      case False
      then obtain bytes where "i = TarFile path (Inr bytes)" "decode bytes = Inr x" "ok x"
        using Cons.prems by (cases i) (auto split: sum.splits if_splits)
      then show ?thesis by (intro exI [of _ "[]"] exI [of _ bytes] exI [of _ items]) simp
    qed
  qed simp
  assume "?r items"
  then obtain pre bytes post where i: "items = pre @ TarFile path (Inr bytes) # post" "decode bytes = Inr x" "ok x"
    "\<forall>i\<in>set pre. \<exists>n c. i = TarFile n c \<and> n \<noteq> path" by blast
  from i(4) have "findInTar path decode ok what (pre @ TarFile path (Inr bytes) # post) = Inr (Some x)"
    by (induction pre) (use i(2,3) in auto)
  then show "?l items" using i(1) by simp
qed

interpretation archive: backup_contents "contentsReader D" for D :: "'w download_env"
proof
  fix b n ns w vm w1
  assume "ExtractVMFromBackupMetadata (contentsReader D) b n ns w = (Inr (Some vm), w1)"
  then show "named n ns (bvm_meta vm)"
    by (auto simp: contentsReader_def readerExtractVM_def downloadVMResource_def extractVMFromBackupTar_def findInTar_Some
        split: prod.splits sum.splits option.splits if_splits)
next
  fix b n ns w p w1
  assume "FetchPVCFromBackup (contentsReader D) b n ns w = (Inr p, w1)"
  then show "named n ns (bpvc_meta p)"
    by (auto simp: contentsReader_def readerFetchPVC_def extractPVCFromBackupTar_def findInTar_Some
        split: prod.splits sum.splits option.splits if_splits)
qed

text \<open>The first file with the given path in an archive, all before it being readable.\<close>

definition archiveFile :: "string \<Rightarrow> string \<Rightarrow> tar_item list \<Rightarrow> bool" where
  "archiveFile path bytes items \<longleftrightarrow> (\<exists>pre post. items = pre @ TarFile path (Inr bytes) # post
     \<and> (\<forall>i\<in>set pre. \<exists>n c. i = TarFile n c \<and> n \<noteq> path))"

text \<open>The archive of the backup, downloaded in the world \<open>w\<close>, holds the machine.\<close>

definition machineInArchive :: "'w download_env \<Rightarrow> backup \<Rightarrow> string \<Rightarrow> string \<Rightarrow> backup_vm \<Rightarrow> 'w \<Rightarrow> 'w \<Rightarrow> bool" where
  "machineInArchive D b n ns vm w w1 \<longleftrightarrow> named n ns (bvm_meta vm) \<and> (\<exists>bytes items json. dl_contents D b w = (Inr bytes, w1)
     \<and> dl_archive D bytes = Inr items \<and> dl_unmarshalVM D json = Inr vm
     \<and> archiveFile (''resources/virtualmachines.kubevirt.io/namespaces/'' @ ns @ ''/'' @ n @ ''.json'') json items)"

lemma readerExtractVM_Some:
  assumes "readerExtractVM D b n ns w = (Inr (Some vm), w1)"
  shows "machineInArchive D b n ns vm (snd (FetchBackupMetadata D b w)) w1"
proof -
  have "downloadVMResource D b n ns (snd (FetchBackupMetadata D b w)) = (Inr (Some vm), w1)"
    using assms by (auto simp: readerExtractVM_def split: prod.splits sum.splits if_splits)
  then obtain bytes items where d: "dl_contents D b (snd (FetchBackupMetadata D b w)) = (Inr bytes, w1)" "dl_archive D bytes = Inr items"
    and f: "findInTar (''resources/virtualmachines.kubevirt.io/namespaces/'' @ ns @ ''/'' @ n @ ''.json'') (dl_unmarshalVM D)
       (\<lambda>vm. named n ns (bvm_meta vm)) ''VM'' items = Inr (Some vm)"
    unfolding downloadVMResource_def extractVMFromBackupTar_def by (auto split: prod.splits sum.splits option.splits)
  show ?thesis using d f [unfolded findInTar_Some] unfolding machineInArchive_def archiveFile_def by blast
qed

section \<open>Properties\<close>

text \<open>A world without state, in which every backup has the same resource list and archive.\<close>

definition demo_disk :: backup_pvc where
  "demo_disk = \<lparr>bpvc_meta = empty_meta \<lparr>om_name := ''disk'', om_namespace := ''vms'', om_uid := ''u1'',
     om_labels := [(PVCUIDLabel, ''u1'')]\<rparr>, bpvc_labelsNil = False, bpvc_storage = Some 1024\<rparr>"

definition demo_machine :: backup_vm where
  "demo_machine = \<lparr>bvm_meta = empty_meta \<lparr>om_name := ''vm'', om_namespace := ''vms''\<rparr>, bvm_volumes = Some [(Some ''disk'', None)]\<rparr>"

definition demo_downloads :: "'w download_env" where
  "demo_downloads = \<lparr>dl_resourceList = (\<lambda>b w. (Inr ''list'', w)), dl_contents = (\<lambda>b w. (Inr ''tar'', w)),
     dl_notFound = errorf ''file not found'',
     dl_decodeList = (\<lambda>s. Inr [(''kubevirt.io/v1/VirtualMachine'', [''vms/vm'']), (''v1/PersistentVolumeClaim'', [''vms/disk''])]),
     dl_listOrder = rev,
     dl_archive = (\<lambda>s. Inr [TarFile ''metadata/version'' (Inr ''1.1''),
       TarFile ''resources/persistentvolumeclaims/namespaces/vms/disk.json'' (Inr ''claim''),
       TarFile ''resources/virtualmachines.kubevirt.io/namespaces/vms/vm.json'' (Inr ''machine'')]),
     dl_unmarshalVM = (\<lambda>s. Inr demo_machine), dl_unmarshalPVC = (\<lambda>s. Inr demo_disk)\<rparr>"

definition demo_backup :: backup where
  "demo_backup = \<lparr>bk_meta = empty_meta \<lparr>om_name := ''b1'', om_namespace := ''adp''\<rparr>, bk_includedNamespaces = [], bk_excludedNamespaces = [],
     bk_storageLocation = ''default'', bk_phase = ''Completed'', bk_completion = Some 1761264000000000000, bk_attempted = 0,
     bk_completed = 0, bk_failed = 0\<rparr>"

definition demo_pvc_env :: "unit pvc_env" where
  "demo_pvc_env = \<lparr>pe_getBackup = (\<lambda>k w. (Inr demo_backup, w)), pe_reader = Some (contentsReader demo_downloads),
     pe_now = (\<lambda>w. (0, w)), pe_formatSize = (\<lambda>n. decimal (nat n)), pe_nameOrder = rev, pe_finishOrder = rev, pe_mapOrder = rev\<rparr>"

text \<open>C11. The claims that the discovery finds in a backup are the ones the volumes of the requested machine name, each of them
  once and all in the machine's namespace: the machine is the one whose file the archive of that very backup, as downloaded
  after the resource list, holds first under the path of its name and namespace, whatever the archive holds besides.\<close>

theorem discovered_claims_belong_to_vm:
  assumes "pe_reader E = Some (contentsReader D)" and "extractPVCsForGivenVMFromBackup E bn bns vn vns w = (Inr cs, w1)" and "cs \<noteq> []"
    and "\<forall>names. mset (pe_nameOrder E names) = mset names"
  shows "\<exists>b w2 vm w3. getVeleroBackup E bn bns w = (Inr b, w2) \<and> machineInArchive D b vn vns vm (snd (FetchBackupMetadata D b w2)) w3
    \<and> mset (map PVCName cs) = mset (vmPVCNames vm) \<and> (\<forall>c\<in>set cs. PVCNamespace c = vns)"
proof -
  obtain b w2 vm w3 where d: "getVeleroBackup E bn bns w = (Inr b, w2)"
    "ExtractVMFromBackupMetadata (contentsReader D) b vn vns w2 = (Inr (Some vm), w3)"
    "map PVCName cs = pe_nameOrder E (vmPVCNames vm)" "\<forall>c\<in>set cs. PVCNamespace c = vns"
    using archive.discovered_claims [OF assms(1-3)] by blast
  have "machineInArchive D b vn vns vm (snd (FetchBackupMetadata D b w2)) w3"
    using d(2) by (intro readerExtractVM_Some) (simp add: contentsReader_def)
  then show ?thesis using d(1,3,4) assms(4) by metis
qed

lemma demo_extraction: "extractPVCsForGivenVMFromBackup demo_pvc_env ''b1'' ''adp'' ''vm'' ''vms'' () = (Inr [pvcInfoOf demo_pvc_env demo_disk], ())"
  by code_simp

theorem discovered_claims_belong_to_vm_witness:
  "\<exists>vm. machineInArchive demo_downloads demo_backup ''vm'' ''vms'' vm () () \<and> mset (map PVCName [pvcInfoOf demo_pvc_env demo_disk]) = mset (vmPVCNames vm)"
  using discovered_claims_belong_to_vm [OF _ demo_extraction, of demo_downloads] by (auto simp: demo_pvc_env_def getVeleroBackup_def)

text \<open>C37. A machine that the resource list of a backup does not name is reported as missing backup files: the reader
  returns Velero's error for a missing file, whose text the discovery takes for lost backup data.\<close>

theorem absent_vm_reported_as_missing_files:
  assumes "pe_reader E = Some (contentsReader D)" and "containsStr (err_msg (dl_notFound D)) ''file not found''"
    and "getBackupMetadata E bi w = (Inr pr, w1)" and "pe_getBackup E \<lparr>nn_namespace = vb_namespace bi, nn_name = vb_name bi\<rparr> w1 = (Inr b, w2)"
    and "FetchBackupMetadata D b w2 = (Inr md, w3)"
    and "\<not> list_ex (\<lambda>i. it_kind i = ''VirtualMachine'' \<and> it_name i = VirtualMachineName sp \<and> it_namespace i = VirtualMachineNamespace sp) md"
  shows "bp_status (fst (discoverPVCsFromSingleBackup E sp bi w)) = StatusFailed
    \<and> bp_message (fst (discoverPVCsFromSingleBackup E sp bi w)) = ''BackupFilesMissing: Backup files missing from storage''"
proof -
  let ?e = "errorf_w ''failed to extract VM from backup: '' (dl_notFound D)"
  have "sublist ''file not found'' (err_msg (dl_notFound D))" using assms(2) by (simp only: containsStr_iff)
  then have "sublist ''file not found'' (err_msg ?e)" unfolding errorf_w_msg by (rule sublist_order.order.trans [OF _ sublist_append_leftI])
  then have "containsStr (err_msg ?e) ''file not found''" by (simp only: containsStr_iff)
  moreover have "extractPVCsForGivenVMFromBackup E (vb_name bi) (vb_namespace bi) (VirtualMachineName sp) (VirtualMachineNamespace sp) w1
      = (Inl (ErrOther ?e), w3)"
    using assms(1,4-6) by (simp add: extractPVCsForGivenVMFromBackup_def getVeleroBackup_def contentsReader_def readerExtractVM_def)
  ultimately show ?thesis
    using assms(3) by (simp add: discoverPVCsFromSingleBackup_def buildFailedProgress_def split: prod.splits)
qed

definition demo_backup_info :: velero_backup_info where
  "demo_backup_info = plain_info ''b1'' ''adp'' None"

theorem absent_vm_reported_as_missing_files_witness:
  "bp_message (fst (discoverPVCsFromSingleBackup demo_pvc_env \<lparr>VirtualMachineName = ''other'', VirtualMachineNamespace = ''vms'', StartTime = None,
     EndTime = None, RequestedBackups = []\<rparr> demo_backup_info ())) = ''BackupFilesMissing: Backup files missing from storage''"
proof -
  have r: "pe_reader demo_pvc_env = Some (contentsReader demo_downloads)" by (simp add: demo_pvc_env_def)
  have n: "containsStr (err_msg (dl_notFound (demo_downloads :: unit download_env))) ''file not found''" by code_simp
  have g: "getBackupMetadata demo_pvc_env demo_backup_info ()
      = (Inr \<lparr>bp_info = plain_info ''b1'' ''adp'' (Some 1761264000000000000), bp_status = StatusInProgress,
          bp_message = ''Extracting PVC information'', bp_lastUpdated = Some 0\<rparr>, ())" by code_simp
  have b: "pe_getBackup demo_pvc_env \<lparr>nn_namespace = vb_namespace demo_backup_info, nn_name = vb_name demo_backup_info\<rparr> ()
      = (Inr demo_backup, ())" by (simp add: demo_pvc_env_def)
  have m: "FetchBackupMetadata (demo_downloads :: unit download_env) demo_backup () = (Inr [
      \<lparr>it_apiVersion = ''v1/PersistentVolumeClaim'', it_kind = ''PersistentVolumeClaim'', it_namespace = ''vms'', it_name = ''disk''\<rparr>,
      \<lparr>it_apiVersion = ''kubevirt.io/v1/VirtualMachine'', it_kind = ''VirtualMachine'', it_namespace = ''vms'', it_name = ''vm''\<rparr>], ())"
    by code_simp
  show ?thesis by (rule absent_vm_reported_as_missing_files [OF r n g b m, THEN conjunct2]) simp
qed

end
