(* ===== verification/Restore_Provenance.thy ===== *)
theory Restore_Provenance
  imports Restore_Velero_Facts Backup_Reader_Facts
begin

text \<open>
  Where the claims of a file restore come from, across its components: the selection of the backups, the
  concurrent discovery that reads their archives, the grouping by claim and the creation of the Velero restores.
  The first section follows a claim backwards through the grouping, the second one through the discovery.
\<close>

section \<open>Backwards through the grouping\<close>

text \<open>A restore under the UID \<open>k\<close> was listed by one of the discovery results, and by one that found the
  claim when it is available.\<close>

definition listedBy :: "backup_progress list \<Rightarrow> string \<Rightarrow> restore_info \<Rightarrow> bool" where
  "listedBy ps k r \<longleftrightarrow> (\<exists>p\<in>set ps. \<exists>s. backupState p = Some s \<and> r = restoreInfoOf p s
     \<and> (s = StateAvailable \<longrightarrow> (\<exists>c\<in>set (vb_pvcs (bp_info p)). PVCUID c = k)))"

definition traced :: "backup_progress list \<Rightarrow> pvc_map \<Rightarrow> bool" where
  "traced ps m \<longleftrightarrow> (\<forall>(k, v)\<in>set m. \<forall>r\<in>set (pr_restores v). listedBy ps k r)"

lemma tracedD: "traced ps m \<Longrightarrow> (k, v) \<in> set m \<Longrightarrow> r \<in> set (pr_restores v) \<Longrightarrow> listedBy ps k r"
  by (auto simp: traced_def)

lemma traced_mono: "traced ps m \<Longrightarrow> set ps \<subseteq> set qs \<Longrightarrow> traced qs m"
  by (fastforce simp: traced_def listedBy_def)

lemma traced_update:
  "traced ps m \<Longrightarrow> (\<And>r. r \<in> set (pr_restores v) \<Longrightarrow> listedBy ps k r) \<Longrightarrow> traced ps (AList.update k v m)"
  using set_update [of k v m] by (fastforce simp: traced_def)

lemma traced_addPVC:
  assumes "traced ps m" and "p \<in> set ps" and "backupState p = Some s" and "c \<in> set (vb_pvcs (bp_info p))"
  shows "traced ps (addPVC p s m c)"
proof -
  let ?k = "PVCUID c"
  let ?m1 = "if map_of m ?k = None then AList.update ?k \<lparr>pr_pvc = c, pr_restores = []\<rparr> m else m"
  have m1: "traced ps ?m1" using traced_update [OF assms(1), of "\<lparr>pr_pvc = c, pr_restores = []\<rparr>" ?k] assms(1) by simp
  have new: "listedBy ps ?k (restoreInfoOf p s)" using assms(2-4) by (auto simp: listedBy_def)
  show ?thesis
  proof (cases "map_of ?m1 ?k")
    case None
    then show ?thesis using m1 by (simp add: addPVC_def Let_def)
  next
    case (Some i)
    then have "(?k, i) \<in> set ?m1" by (rule map_of_SomeD)
    then have "traced ps (AList.update ?k (i \<lparr>pr_restores := pr_restores i @ [restoreInfoOf p s]\<rparr>) ?m1)"
      using tracedD [OF m1] new by (intro traced_update [OF m1]) auto
    then show ?thesis using Some by (simp add: addPVC_def Let_def)
  qed
qed

lemma traced_addProgress:
  assumes "traced ps m" and "p \<in> set ps"
  shows "traced ps (addProgress m p)"
proof (cases "backupState p")
  case (Some s)
  have "traced ps (foldl (addPVC p s) m cs)" if "set cs \<subseteq> set (vb_pvcs (bp_info p))" for cs
    using that by (induction cs rule: rev_induct) (auto simp: assms Some intro: traced_addPVC)
  moreover have "traced ps (AList.update (syntheticUID p) (syntheticEntry p s) m)" if "s \<noteq> StateAvailable"
    using assms that Some by (intro traced_update) (auto simp: syntheticEntry_def listedBy_def)
  ultimately show ?thesis using Some by (simp add: addProgress_def)
qed (simp add: addProgress_def assms)

lemma traced_groupResults: "traced ps (groupResults ps)"
proof (induction ps rule: rev_induct)
  case (snoc p ps)
  have "traced (ps @ [p]) (groupResults ps)" by (rule traced_mono [OF snoc]) auto
  then have "traced (ps @ [p]) (addProgress (groupResults ps) p)" by (rule traced_addProgress) simp
  then show ?case by (simp add: groupResults_def)
qed (simp add: groupResults_def traced_def)

lemma restored_listed:
  assumes "\<And>m. set (pe_mapOrder E m) = set m"
    and "(b, us) \<in> set (backupToPVCUIDs (pvcRestoresOf E ps))" and "u \<in> set us"
  shows "\<exists>p\<in>set ps. bp_status p = StatusCompleted \<and> bp_name p = b \<and> (\<exists>c\<in>set (vb_pvcs (bp_info p)). PVCUID c = u)"
proof -
  have "u \<in> set (uidsOf (availablePairs (pvcRestoresOf E ps)) b)" using assms(2,3) by (simp add: set_backupToPVCUIDs)
  then obtain q r where q: "q \<in> set (pvcRestoresOf E ps)" "pr_uid q = u" "r \<in> set (pr_restores q)"
    "ri_backupName r = b" "ri_state r = StateAvailable"
    by (auto simp: uidsOf_availablePairs)
  then obtain k v where kv: "(k, v) \<in> set (groupResults ps)" "pr_uid v = u" "r \<in> set (sortRestoresByTimestamp (pr_restores v))"
    using assms(1) by (auto simp: pvcRestoresOf_def)
  have "r \<in> set (pr_restores v)" using kv(3) restores_perm [of "pr_restores v"] by (metis mset_eq_setD)
  then have l: "listedBy ps k r" by (rule tracedD [OF traced_groupResults kv(1)])
  have "k = u" using kv(1,2) keyed_groupResults [of ps] by (auto simp: keyed_def)
  with l obtain p s where p: "p \<in> set ps" "backupState p = Some s" "r = restoreInfoOf p s"
    "s = StateAvailable \<longrightarrow> (\<exists>c\<in>set (vb_pvcs (bp_info p)). PVCUID c = u)"
    unfolding listedBy_def by blast
  have "s = StateAvailable" and "bp_name p = b" using p(3) q(4,5) by (simp_all add: restoreInfoOf_def)
  moreover have "bp_status p = StatusCompleted"
    using p(2) \<open>s = StateAvailable\<close> by (auto simp: backupState_def split: if_splits discovery_status.splits)
  ultimately show ?thesis using p(1,4) by blast
qed

section \<open>Backwards through the discovery\<close>

text \<open>Every result belongs to one backup, whose discovery ran in the world that the earlier ones left.\<close>

lemma collected:
  "collectResults E sp bs w = (ps, w1) \<Longrightarrow> p \<in> set ps \<Longrightarrow> \<exists>xs bi ys wb. bs = xs @ bi # ys
     \<and> discoverPVCsFromSingleBackup E sp bi (snd (collectResults E sp xs w)) = (p, wb)"
proof (induction bs arbitrary: w ps w1)
  case (Cons b bs)
  obtain q wa where q: "discoverPVCsFromSingleBackup E sp b w = (q, wa)" by fastforce
  obtain qs wb where qs: "collectResults E sp bs wa = (qs, wb)" by fastforce
  have ps: "ps = q # qs" using Cons.prems(1) q qs by simp
  show ?case
  proof (cases "p \<in> set qs")
    case True
    then obtain xs bi ys wc where x: "bs = xs @ bi # ys"
      "discoverPVCsFromSingleBackup E sp bi (snd (collectResults E sp xs wa)) = (p, wc)"
      using Cons.IH [OF qs] by blast
    have "snd (collectResults E sp (b # xs) w) = snd (collectResults E sp xs wa)"
      using q by (simp add: Let_def split: prod.splits)
    then show ?thesis using x by (intro exI [of _ "b # xs"] exI [of _ bi] exI [of _ ys] exI [of _ wc]) simp
  next
    case False
    then show ?thesis using ps Cons.prems(2) q by (intro exI [of _ "[]"] exI [of _ b] exI [of _ bs] exI [of _ wa]) simp
  qed
qed simp

lemma metadata_name: "getBackupMetadata E bi w = (Inr pr, w1) \<Longrightarrow> bp_name pr = vb_name bi"
  by (auto simp: getBackupMetadata_def pe_nowR_def plain_info_def split: prod.splits sum.splits option.splits if_splits elim!: bindR_InrE)

lemma discovered_completed:
  assumes "discoverPVCsFromSingleBackup E sp bi w = (p, w1)" and "bp_status p = StatusCompleted"
  shows "bp_name p = vb_name bi \<and> (\<exists>pr wa wb. getBackupMetadata E bi w = (Inr pr, wa)
    \<and> extractPVCsForGivenVMFromBackup E (vb_name bi) (vb_namespace bi)
      (VirtualMachineName sp) (VirtualMachineNamespace sp) wa = (Inr (vb_pvcs (bp_info p)), wb))"
proof (cases "getBackupMetadata E bi w")
  case (Pair r w2)
  show ?thesis
  proof (cases r)
    case (Inl e)
    then show ?thesis using assms Pair by (auto simp: discoverPVCsFromSingleBackup_def buildFailedProgress_def split: prod.splits)
  next
    case (Inr pr)
    then have n: "bp_name pr = vb_name bi" using metadata_name [of E bi w pr w2] Pair by simp
    obtain x w3 where x: "extractPVCsForGivenVMFromBackup E (vb_name bi) (vb_namespace bi) (VirtualMachineName sp)
        (VirtualMachineNamespace sp) w2 = (x, w3)" by fastforce
    show ?thesis
    proof (cases x)
      case (Inl e)
      then show ?thesis using assms Pair Inr x
        by (auto simp: discoverPVCsFromSingleBackup_def buildFailedProgress_def split: prod.splits extract_error.splits if_splits)
    next
      case (Inr cs)
      then have "vb_pvcs (bp_info p) = cs \<and> bp_name p = bp_name pr"
        using assms(1) Pair \<open>r = Inr pr\<close> x by (auto simp: discoverPVCsFromSingleBackup_def split: prod.splits)
      then show ?thesis using n x Inr Pair \<open>r = Inr pr\<close> by auto
    qed
  qed
qed

lemma fetched_one:
  "fetchPVCs E rd b ns names acc w = (Inr cs, w1) \<Longrightarrow> c \<in> set cs \<Longrightarrow> c \<in> set acc
    \<or> (\<exists>as n bs ds w2 p w3. names = as @ n # bs \<and> fetchPVCs E rd b ns as acc w = (Inr ds, w2)
        \<and> FetchPVCFromBackup rd b n ns w2 = (Inr p, w3) \<and> checkPVC E p = Inr c)"
proof (induction names arbitrary: acc w)
  case (Cons n names)
  obtain p i wa where p: "FetchPVCFromBackup rd b n ns w = (Inr p, wa)" "checkPVC E p = Inr i"
    "fetchPVCs E rd b ns names (acc @ [i]) wa = (Inr cs, w1)"
    using Cons.prems(1) by (auto split: prod.splits sum.splits)
  from Cons.IH [OF p(3) Cons.prems(2)] consider "c \<in> set acc" | "c = i"
    | as m bs ds w2 q w3 where "names = as @ m # bs" "fetchPVCs E rd b ns as (acc @ [i]) wa = (Inr ds, w2)"
        "FetchPVCFromBackup rd b m ns w2 = (Inr q, w3)" "checkPVC E q = Inr c"
    by auto
  then show ?case
  proof cases
    case 2
    have "n # names = [] @ n # names \<and> fetchPVCs E rd b ns [] acc w = (Inr acc, w)" by simp
    then show ?thesis using p(1,2) 2 by blast
  next
    case (3 as m bs ds w2 q w3)
    then have "n # names = (n # as) @ m # bs \<and> fetchPVCs E rd b ns (n # as) acc w = (Inr ds, w2)" using p by simp
    then show ?thesis using 3 by blast
  qed simp
qed simp

text \<open>A claim that passes the check carries the label by which Velero selects it.\<close>

lemma checked_label: "checkPVC E p = Inr c
    \<Longrightarrow> c = pvcInfoOf E p \<and> map_of (om_labels (bpvc_meta p)) PVCUIDLabel = Some (om_uid (bpvc_meta p))"
  by (auto simp: checkPVC_def Let_def split: if_splits option.splits)

text \<open>
  The discovery of the backup \<open>bi\<close> that runs in the world \<open>w\<close> reads a claim with the UID \<open>u\<close>: it gets the backup, extracts
  the requested machine from its archive, fetches the claims its volumes name one after the other, and one of them, in
  the namespace of the machine, has this UID and carries it as the label by which Velero selects it.
\<close>

definition claimRead :: "'w pvc_env \<Rightarrow> 'w download_env \<Rightarrow> vmbd_spec \<Rightarrow> velero_backup_info \<Rightarrow> string \<Rightarrow> 'w \<Rightarrow> bool" where
  "claimRead E D sp bi u w \<longleftrightarrow> (\<exists>pr w1 bk w2 vm w3 as n bs cs w4 p w5. getBackupMetadata E bi w = (Inr pr, w1)
     \<and> getVeleroBackup E (vb_name bi) (vb_namespace bi) w1 = (Inr bk, w2)
     \<and> readerExtractVM D bk (VirtualMachineName sp) (VirtualMachineNamespace sp) w2 = (Inr (Some vm), w3)
     \<and> named (VirtualMachineName sp) (VirtualMachineNamespace sp) (bvm_meta vm)
     \<and> pe_nameOrder E (vmPVCNames vm) = as @ n # bs \<and> n \<in> set (vmPVCNames vm)
     \<and> fetchPVCs E (contentsReader D) bk (VirtualMachineNamespace sp) as [] w3 = (Inr cs, w4)
     \<and> readerFetchPVC D bk n (VirtualMachineNamespace sp) w4 = (Inr p, w5)
     \<and> named n (VirtualMachineNamespace sp) (bpvc_meta p) \<and> om_uid (bpvc_meta p) = u
     \<and> map_of (om_labels (bpvc_meta p)) PVCUIDLabel = Some u)"

lemma extracted_read:
  assumes "pe_reader E = Some (contentsReader D)" and "\<And>ns. set (pe_nameOrder E ns) = set ns"
    and "getBackupMetadata E bi w = (Inr pr, w0)"
    and "extractPVCsForGivenVMFromBackup E (vb_name bi) (vb_namespace bi) (VirtualMachineName sp) (VirtualMachineNamespace sp) w0 = (Inr cs, w1)"
    and "c \<in> set cs"
  shows "claimRead E D sp bi (PVCUID c) w"
proof -
  let ?rd = "contentsReader D" and ?n = "VirtualMachineName sp" and ?ns = "VirtualMachineNamespace sp"
  have "cs \<noteq> []" using assms(5) by auto
  then obtain b vm w2 w3 where b: "getVeleroBackup E (vb_name bi) (vb_namespace bi) w0 = (Inr b, w2)"
    and vm: "ExtractVMFromBackupMetadata ?rd b ?n ?ns w2 = (Inr (Some vm), w3)"
    and cs: "fetchPVCs E ?rd b ?ns (pe_nameOrder E (vmPVCNames vm)) [] w3 = (Inr cs, w1)"
    using assms(1,4) by (auto simp: extractPVCsForGivenVMFromBackup_def split: prod.splits sum.splits option.splits if_splits)
  obtain as n bs ds w4 p w5 where p: "pe_nameOrder E (vmPVCNames vm) = as @ n # bs" "fetchPVCs E ?rd b ?ns as [] w3 = (Inr ds, w4)"
    "FetchPVCFromBackup ?rd b n ?ns w4 = (Inr p, w5)" "checkPVC E p = Inr c"
    using fetched_one [OF cs assms(5)] by auto
  have "n \<in> set (pe_nameOrder E (vmPVCNames vm))" unfolding p(1) by simp
  then have n: "n \<in> set (vmPVCNames vm)" by (simp only: assms(2))
  have c: "c = pvcInfoOf E p" "map_of (om_labels (bpvc_meta p)) PVCUIDLabel = Some (om_uid (bpvc_meta p))"
    using checked_label [OF p(4)] by simp_all
  have r: "readerExtractVM D b ?n ?ns w2 = (Inr (Some vm), w3)" "readerFetchPVC D b n ?ns w4 = (Inr p, w5)"
    using vm p(3) by (simp_all add: contentsReader_def)
  have u: "om_uid (bpvc_meta p) = PVCUID c" using c(1) by (simp add: pvcInfoOf_def)
  show ?thesis
    unfolding claimRead_def
    using assms(3) b r archive.vm_named [OF vm] p(1) n p(2) archive.pvc_named [OF p(3)] u c(2) [unfolded u] by blast
qed

lemma served_subset:
  assumes "getFilteredBackupsToServe selected valid = Inr bs" and "bi \<in> set bs"
  shows "bi \<in> set valid \<and> (selected \<noteq> [] \<longrightarrow> vb_name bi \<in> set selected)"
  using filtered_backups_served [of selected valid] assms by auto

section \<open>Properties\<close>

text \<open>C12. What is restored comes from where the user pointed. Every claim that a Velero restore of a file restore selects
  is a claim of the requested machine: the backup of the restore is a valid one of the referenced discovery, and a selected
  one if the user selected any; the discovery of that very backup, which ran after those that finished earlier, read the machine
  from its archive and then the claim, which a volume of the machine names; and the claim has the selected UID and carries
  it as the label Velero selects by.\<close>

theorem restored_claims_provenance:
  assumes "pe_reader E = Some (contentsReader D)"
    and "\<forall>ns. set (pe_nameOrder E ns) = set ns" and "\<forall>bs. set (pe_finishOrder E bs) = set bs" and "\<forall>m. set (pe_mapOrder E m) = set m"
    and "getFilteredBackupsToServe selected valid = Inr bs" and "runConcurrentPVCDiscovery E sp bs w = (results, w1)"
    and "(b, us) \<in> set (backupToPVCUIDs (pvcRestoresOf E results))" and "u \<in> set us"
  shows "\<exists>earlier bi later. pe_finishOrder E bs = earlier @ bi # later \<and> bi \<in> set valid \<and> vb_name bi = b
    \<and> (selected \<noteq> [] \<longrightarrow> b \<in> set selected) \<and> claimRead E D sp bi u (snd (collectResults E sp earlier w))"
proof -
  obtain pr c where pr: "pr \<in> set results" "bp_status pr = StatusCompleted" "bp_name pr = b"
    and c: "c \<in> set (vb_pvcs (bp_info pr))" "PVCUID c = u"
    using restored_listed [OF _ assms(7,8)] assms(4) by blast
  have run: "collectResults E sp (pe_finishOrder E bs) w = (results, w1)"
    using assms(6) pr(1) by (auto simp: runConcurrentPVCDiscovery_def split: if_splits)
  then obtain xs bi ys wb where x: "pe_finishOrder E bs = xs @ bi # ys"
    "discoverPVCsFromSingleBackup E sp bi (snd (collectResults E sp xs w)) = (pr, wb)"
    using collected [OF run pr(1)] by blast
  have n: "vb_name bi = b" and "claimRead E D sp bi (PVCUID c) (snd (collectResults E sp xs w))"
    using discovered_completed [OF x(2) pr(2)] extracted_read [OF assms(1) _ _ _ c(1)] assms(2) pr(3) by auto
  moreover have "bi \<in> set bs" using assms(3) x(1) by (metis in_set_conv_decomp)
  ultimately show ?thesis using served_subset [OF assms(5)] x(1) c(2) by blast
qed

definition demo_request_spec :: vmbd_spec where
  "demo_request_spec = \<lparr>VirtualMachineName = ''vm'', VirtualMachineNamespace = ''vms'', StartTime = None, EndTime = None, RequestedBackups = []\<rparr>"

theorem restored_claims_provenance_witness:
  "claimRead Backup_Reader_Facts.demo_pvc_env demo_downloads demo_request_spec demo_backup_info ''u1'' ()"
proof -
  let ?E = "Backup_Reader_Facts.demo_pvc_env" and ?sp = demo_request_spec and ?bs = "[demo_backup_info]"
  define results where "results = fst (runConcurrentPVCDiscovery ?E ?sp ?bs ())"
  have run: "runConcurrentPVCDiscovery ?E ?sp ?bs () = (results, ())" by (simp add: results_def prod_eq_iff)
  have "backupToPVCUIDs (pvcRestoresOf ?E (fst (runConcurrentPVCDiscovery ?E ?sp ?bs ()))) = [(''b1'', [''u1''])]" by code_simp
  then have m: "(''b1'', [''u1'']) \<in> set (backupToPVCUIDs (pvcRestoresOf ?E results))" by (simp add: run)
  have s: "getFilteredBackupsToServe [''b1''] ?bs = Inr ?bs" by code_simp
  have o: "set (pe_nameOrder ?E ns) = set ns" "set (pe_finishOrder ?E fs) = set fs" "set (pe_mapOrder ?E ms) = set ms"
    "pe_reader ?E = Some (contentsReader demo_downloads)" "pe_finishOrder ?E [x] = [x]" for ns fs ms x
    by (simp_all add: Backup_Reader_Facts.demo_pvc_env_def)
  have "\<exists>earlier bi later. pe_finishOrder ?E ?bs = earlier @ bi # later
      \<and> claimRead ?E demo_downloads ?sp bi ''u1'' (snd (collectResults ?E ?sp earlier ()))"
    using restored_claims_provenance [OF o(4) _ _ _ s run m, of "''u1''"] o(1-3) by auto
  then show ?thesis using o(5) by (auto simp: Cons_eq_append_conv)
qed

text \<open>C39. A backup that cannot be read is reported as deleted: whatever error the API server gives for it, and also when the
  backup is there but its asynchronous operations are not finished, the file restore gets an entry for the backup in the state
  BackupDeleted.\<close>

theorem unreadable_backup_reported_deleted:
  assumes "pe_getBackup E \<lparr>nn_namespace = vb_namespace bi, nn_name = vb_name bi\<rparr> w = (r, w1)"
    and "\<forall>b. r = Inr b \<longrightarrow> BackupAsyncOperationsIncomplete (Some b)" and "discoverPVCsFromSingleBackup E sp bi w = (p, w2)"
  shows "groupResults [p] = [(syntheticUID p, syntheticEntry p StateBackupDeleted)]
    \<and> bp_name p = vb_name bi \<and> (\<exists>msg. bp_message p = ''BackupNotFound: '' @ msg)"
proof -
  have "\<exists>e w3. getBackupMetadata E bi w = (Inl e, w3)"
    using assms(1,2) by (cases r) (auto simp: getBackupMetadata_def getVeleroBackup_def split: option.splits)
  then obtain e w3 where "getBackupMetadata E bi w = (Inl e, w3)" by blast
  note assms = this assms(3)
  have p: "bp_status p = StatusFailed" "bp_message p = ''BackupNotFound: '' @ err_msg e" "vb_pvcs (bp_info p) = []" "bp_name p = vb_name bi"
    using assms by (auto simp: discoverPVCsFromSingleBackup_def buildFailedProgress_def plain_info_def split: prod.splits)
  have "containsStr (''BackupNotFound'' @ '': '' @ err_msg e) ''BackupNotFound''"
    unfolding containsStr_iff sublist_def
    by (rule exI [of _ "[]"], rule exI, simp only: append_Nil)
  then have "backupState p = Some StateBackupDeleted" using p(1,2) by (simp add: backupState_def)
  then show ?thesis using p by (simp add: groupResults_def addProgress_def)
qed

text \<open>A backup whose item operations go on is there and can be read.\<close>

definition unfinished_env :: "unit pvc_env" where
  "unfinished_env = Backup_Reader_Facts.demo_pvc_env \<lparr>pe_getBackup :=
     (\<lambda>k w. (Inr (demo_backup \<lparr>bk_attempted := 3, bk_completed := 1\<rparr>), w))\<rparr>"

theorem unreadable_backup_reported_deleted_witness:
  "(\<forall>k. pe_getBackup unfinished_env k () = (Inr (demo_backup \<lparr>bk_attempted := 3, bk_completed := 1\<rparr>), ()))
   \<and> (let p = fst (discoverPVCsFromSingleBackup unfinished_env demo_request_spec demo_backup_info ())
      in groupResults [p] = [(syntheticUID p, syntheticEntry p StateBackupDeleted)])"
proof -
  have g: "pe_getBackup unfinished_env k () = (Inr (demo_backup \<lparr>bk_attempted := 3, bk_completed := 1\<rparr>), ())" for k
    by (simp add: unfinished_env_def)
  have u: "BackupAsyncOperationsIncomplete (Some (demo_backup \<lparr>bk_attempted := 3, bk_completed := 1\<rparr>))" by code_simp
  define p where "p = fst (discoverPVCsFromSingleBackup unfinished_env demo_request_spec demo_backup_info ())"
  have p: "discoverPVCsFromSingleBackup unfinished_env demo_request_spec demo_backup_info () = (p, ())"
    by (simp add: p_def prod_eq_iff)
  have "groupResults [p] = [(syntheticUID p, syntheticEntry p StateBackupDeleted)]"
    using unreadable_backup_reported_deleted [OF g _ p] u by simp
  then show ?thesis using g unfolding Let_def p_def by blast
qed

end
