(* ===== verification/Io_Logic.thy ===== *)
theory Io_Logic
  imports Prelude
begin

text \<open>
  A small program logic for calls on the outside world: a triple gives a precondition on the world, a
  postcondition on result and world for success, and a condition on the world for failure. The rules follow the
  shapes of the models: return, failure, sequencing, and the case distinction on the result of a call.
\<close>

definition triple :: "('w \<Rightarrow> bool) \<Rightarrow> ('w, 'a) io \<Rightarrow> ('a \<Rightarrow> 'w \<Rightarrow> bool) \<Rightarrow> ('w \<Rightarrow> bool) \<Rightarrow> bool" where
  "triple P m Q F \<longleftrightarrow> (\<forall>w. P w \<longrightarrow> (case m w of (Inr x, w1) \<Rightarrow> Q x w1 | (Inl e, w1) \<Rightarrow> F w1))"

lemma tripleI: "(\<And>w x w1. P w \<Longrightarrow> m w = (Inr x, w1) \<Longrightarrow> Q x w1) \<Longrightarrow> (\<And>w e w1. P w \<Longrightarrow> m w = (Inl e, w1) \<Longrightarrow> F w1)
  \<Longrightarrow> triple P m Q F"
  by (auto simp: triple_def split: prod.splits sum.splits)

lemma triple_Inr: "triple P m Q F \<Longrightarrow> P w \<Longrightarrow> m w = (Inr x, w1) \<Longrightarrow> Q x w1"
  by (fastforce simp: triple_def)

lemma triple_Inl: "triple P m Q F \<Longrightarrow> P w \<Longrightarrow> m w = (Inl e, w1) \<Longrightarrow> F w1"
  by (fastforce simp: triple_def)

lemma triple_conseq:
  "triple P m Q F \<Longrightarrow> (\<And>w. P' w \<Longrightarrow> P w) \<Longrightarrow> (\<And>x w. Q x w \<Longrightarrow> Q' x w) \<Longrightarrow> (\<And>w. F w \<Longrightarrow> F' w) \<Longrightarrow> triple P' m Q' F'"
  by (fastforce simp: triple_def split: prod.splits sum.splits)

lemma triple_pure: "(b \<Longrightarrow> triple P m Q F) \<Longrightarrow> triple (\<lambda>w. P w \<and> b) m Q F"
  by (auto simp: triple_def)

lemma triple_return: "(\<And>w. P w \<Longrightarrow> Q x w) \<Longrightarrow> triple P (returnR x) Q F"
  by (simp add: triple_def)

lemma triple_fail: "(\<And>w. P w \<Longrightarrow> F w) \<Longrightarrow> triple P (failR e) Q F"
  by (simp add: triple_def)

lemma triple_try:
  assumes "triple P m Q F" and "\<And>x. triple (Q x) (g x) R G" and "\<And>e. triple F (h e) R G"
  shows "triple P (\<lambda>w. case m w of (Inl e, w1) \<Rightarrow> h e w1 | (Inr x, w1) \<Rightarrow> g x w1) R G"
  unfolding triple_def
proof (intro allI impI)
  fix w
  assume "P w"
  then show "case (case m w of (Inl e, w1) \<Rightarrow> h e w1 | (Inr x, w1) \<Rightarrow> g x w1) of
      (Inr x, w1) \<Rightarrow> R x w1 | (Inl e, w1) \<Rightarrow> G w1"
    using assms unfolding triple_def by (fastforce split: prod.splits sum.splits)
qed

lemma triple_bind: "triple P m Q F \<Longrightarrow> (\<And>x. triple (Q x) (g x) R F) \<Longrightarrow> triple P (bindR m g) R F"
  unfolding bindR_def [abs_def] by (rule triple_try, assumption, assumption) (simp add: triple_def)

lemma triple_wrap:
  "triple P m Q F \<Longrightarrow> triple P (\<lambda>w. case m w of (Inl e, w1) \<Rightarrow> (Inl (f e), w1) | (Inr x, w1) \<Rightarrow> (Inr x, w1)) Q F"
  by (rule triple_try, assumption) (simp_all add: triple_def)

lemma triple_if: "(b \<Longrightarrow> triple P m Q F) \<Longrightarrow> (\<not> b \<Longrightarrow> triple P n Q F) \<Longrightarrow> triple P (if b then m else n) Q F"
  by simp

text \<open>Calls that leave a view of the world alone.\<close>

definition quiet :: "('w \<Rightarrow> 'v) \<Rightarrow> ('w \<Rightarrow> 'r \<times> 'w) \<Rightarrow> bool" where
  "quiet view m \<longleftrightarrow> (\<forall>w r w1. m w = (r, w1) \<longrightarrow> view w1 = view w)"

lemma quietI: "(\<And>w r w1. m w = (r, w1) \<Longrightarrow> view w1 = view w) \<Longrightarrow> quiet view m"
  by (simp add: quiet_def)

lemma quietD: "quiet view m \<Longrightarrow> m w = (r, w1) \<Longrightarrow> view w1 = view w"
  by (simp add: quiet_def)

lemma quiet_return [simp]: "quiet view (returnR x)" and quiet_fail [simp]: "quiet view (failR e)"
  by (simp_all add: quiet_def)

lemma quiet_try:
  "quiet view m \<Longrightarrow> (\<And>x. quiet view (g x)) \<Longrightarrow> (\<And>e. quiet view (h e))
   \<Longrightarrow> quiet view (\<lambda>w. case m w of (Inl e, w1) \<Rightarrow> h e w1 | (Inr x, w1) \<Rightarrow> g x w1)"
  unfolding quiet_def by (fastforce split: prod.splits sum.splits)

lemma quiet_then: "quiet view m \<Longrightarrow> (\<And>x. quiet view (g x)) \<Longrightarrow> quiet view (\<lambda>w. let (x, w1) = m w in g x w1)"
  unfolding quiet_def by (fastforce split: prod.splits)

lemma quiet_value: "quiet view (\<lambda>w. (x, w))"
  by (simp add: quiet_def)

lemma quiet_Pair [simp]: "quiet view (Pair x)"
  by (simp add: quiet_def)

lemma quiet_bind: "quiet view m \<Longrightarrow> (\<And>x. quiet view (g x)) \<Longrightarrow> quiet view (bindR m g)"
  unfolding bindR_def [abs_def] by (rule quiet_try) (auto simp: quiet_value)

lemma quiet_if: "(b \<Longrightarrow> quiet view m) \<Longrightarrow> (\<not> b \<Longrightarrow> quiet view n) \<Longrightarrow> quiet view (if b then m else n)"
  by simp

lemma quiet_foldR: "(\<And>x b. quiet view (f x b)) \<Longrightarrow> quiet view (foldR f xs b)"
  by (induction xs arbitrary: b) (simp_all add: quiet_bind)

lemma triple_quiet: "quiet view m \<Longrightarrow> (\<And>w. P w = P' (view w)) \<Longrightarrow> triple P m (\<lambda>_. P) P"
  by (auto simp: quiet_def intro!: tripleI)

end
