(* ===== verification/Workflow_Facts.thy ===== *)
theory Workflow_Facts
  imports Restore_Workflow Io_Logic
begin

text \<open>
  The file restore controller against the API server. The abstract machine of its workflow has one stage for each
  combination of phase, condition statuses and progress reason the controller can leave in the status; the
  locale \<open>vmfr_api\<close> is the contract of the server, and the lemmas of this theory say which calls
  leave phase and conditions alone and what a status patch leaves behind.
\<close>

section \<open>Stages\<close>

definition conditionTypes :: "string list" where
  "conditionTypes = [ConditionTypeProgressing, ConditionTypeAvailable, ConditionTypeDegraded, ConditionTypeReady]"

datatype stage =
    SUnset | SInitialized | SValidating | SWaitingForDiscovery | SDiscoveringPVCs | SValidationCompleted | SNamespaceReady
  | SWaitingForRestores | SRestoresCompleted | SCredentialsReady | SWaitingForRoute
  | SCompleted | SSomeFailed | SPartlyInvalid | SInvalid | SAllFailed

primrec stagePhase :: "stage \<Rightarrow> restore_phase" where
  "stagePhase SUnset = VMFRPhaseUnset"
| "stagePhase SInitialized = VMFRPhaseNew"
| "stagePhase SValidating = VMFRPhaseInProgress"
| "stagePhase SWaitingForDiscovery = VMFRPhaseInProgress"
| "stagePhase SDiscoveringPVCs = VMFRPhaseInProgress"
| "stagePhase SValidationCompleted = VMFRPhaseInProgress"
| "stagePhase SNamespaceReady = VMFRPhaseInProgress"
| "stagePhase SWaitingForRestores = VMFRPhaseInProgress"
| "stagePhase SRestoresCompleted = VMFRPhaseInProgress"
| "stagePhase SCredentialsReady = VMFRPhaseInProgress"
| "stagePhase SWaitingForRoute = VMFRPhaseInProgress"
| "stagePhase SCompleted = VMFRPhaseCompleted"
| "stagePhase SSomeFailed = VMFRPhasePartiallyFailed"
| "stagePhase SPartlyInvalid = VMFRPhasePartiallyFailed"
| "stagePhase SInvalid = VMFRPhaseFailed"
| "stagePhase SAllFailed = VMFRPhaseFailed"

text \<open>The reason of the Progressing condition tells the stages apart.\<close>

primrec stageReason :: "stage \<Rightarrow> string" where
  "stageReason SUnset = []"
| "stageReason SInitialized = ''Initialized''"
| "stageReason SValidating = ''Validating''"
| "stageReason SWaitingForDiscovery = ''WaitingForDiscovery''"
| "stageReason SDiscoveringPVCs = ''DiscoveringPVCs''"
| "stageReason SValidationCompleted = ''ValidationCompleted''"
| "stageReason SNamespaceReady = ''NamespaceReady''"
| "stageReason SWaitingForRestores = ''WaitingForRestores''"
| "stageReason SRestoresCompleted = ''RestoresCompleted''"
| "stageReason SCredentialsReady = ''CredentialsReady''"
| "stageReason SWaitingForRoute = ''WaitingForRoute''"
| "stageReason SCompleted = ''FileServerCreated''"
| "stageReason SSomeFailed = ''RestoresCompletedWithFailures''"
| "stageReason SPartlyInvalid = ''PartialValidationFailed''"
| "stageReason SInvalid = ''ValidationFailed''"
| "stageReason SAllFailed = ''RestoresFailed''"

text \<open>The statuses of Progressing, Available, Degraded and Ready that the design document
  (\<open>docs/design/crd_status_lifecycle.md\<close>) gives to each phase.\<close>

primrec documented :: "restore_phase \<Rightarrow> condition_status list" where
  "documented VMFRPhaseUnset = []"
| "documented VMFRPhaseNew = [ConditionFalse, ConditionFalse, ConditionFalse, ConditionFalse]"
| "documented VMFRPhaseInProgress = [ConditionTrue, ConditionFalse, ConditionFalse, ConditionFalse]"
| "documented VMFRPhaseCompleted = [ConditionFalse, ConditionTrue, ConditionFalse, ConditionTrue]"
| "documented VMFRPhasePartiallyFailed = [ConditionFalse, ConditionTrue, ConditionTrue, ConditionTrue]"
| "documented VMFRPhaseFailed = [ConditionFalse, ConditionFalse, ConditionTrue, ConditionFalse]"
| "documented VMFRPhaseDeleting = [ConditionFalse, ConditionFalse, ConditionFalse, ConditionFalse]"

text \<open>The code deviates in two stages: a restore that waits for its route is already available, and one whose
  claims are only partly available is not ready.\<close>

definition stageStatuses :: "stage \<Rightarrow> condition_status list" where
  "stageStatuses s = (if s = SWaitingForRoute then [ConditionTrue, ConditionTrue, ConditionFalse, ConditionFalse]
     else if s = SPartlyInvalid then [ConditionFalse, ConditionTrue, ConditionTrue, ConditionFalse]
     else documented (stagePhase s))"

text \<open>The transitions of the workflow.\<close>

inductive stage_step :: "stage \<Rightarrow> stage \<Rightarrow> bool" where
  initialise: "stage_step SUnset SInitialized"
| validate: "stage_step SInitialized SValidating"
| await_discovery: "s \<in> {SValidating, SWaitingForDiscovery} \<Longrightarrow> stage_step s SWaitingForDiscovery"
| discover: "s \<in> {SValidating, SWaitingForDiscovery} \<Longrightarrow> stage_step s SDiscoveringPVCs"
| validated: "stage_step SDiscoveringPVCs SValidationCompleted"
| partly_invalid: "stage_step SDiscoveringPVCs SPartlyInvalid"
| namespace_ready: "stage_step SValidationCompleted SNamespaceReady"
| restores_created: "stage_step SNamespaceReady SWaitingForRestores"
| restores_completed: "stage_step SWaitingForRestores SRestoresCompleted"
| some_failed: "stage_step SWaitingForRestores SSomeFailed"
| all_failed: "stage_step SWaitingForRestores SAllFailed"
| credentials_ready: "stage_step SRestoresCompleted SCredentialsReady"
| await_route: "stage_step SCredentialsReady SWaitingForRoute"
| complete: "s \<in> {SCredentialsReady, SWaitingForRoute} \<Longrightarrow> stage_step s SCompleted"
| invalid: "s \<in> {SValidating, SWaitingForDiscovery, SDiscoveringPVCs, SValidationCompleted, SNamespaceReady, SWaitingForRestores,
    SRestoresCompleted, SCredentialsReady} \<Longrightarrow> stage_step s SInvalid"

inductive_cases stage_stepE [elim]: "stage_step s t"

definition observed :: "find_condition \<Rightarrow> condition list \<Rightarrow> condition_status option list" where
  "observed fnd cs = map (\<lambda>t. map_option fst (view fnd cs t)) conditionTypes"

definition progressReason :: "find_condition \<Rightarrow> condition list \<Rightarrow> string option" where
  "progressReason fnd cs = map_option (fst \<circ> snd) (view fnd cs ConditionTypeProgressing)"

type_synonym life = "restore_phase \<times> condition list"

definition lifeOf :: "vmfr \<Rightarrow> life" where
  "lifeOf v = (fs_phase (vmfr_status v), fs_conditions (vmfr_status v))"

text \<open>The stage that phase and conditions show.\<close>

definition at_stage :: "find_condition \<Rightarrow> stage \<Rightarrow> life \<Rightarrow> bool" where
  "at_stage fnd s l = (case l of (ph, cs) \<Rightarrow> ph = stagePhase s \<and> (s = SUnset
     \<or> observed fnd cs = map Some (stageStatuses s) \<and> progressReason fnd cs = Some (stageReason s)))"

section \<open>The contract of the server\<close>

text \<open>
  \<open>life\<close> is the phase and the conditions the server stores for the file restore with key \<open>key\<close>. Reading returns them; a status patch
  whose baseline agrees with the stored ones stores the ones of the modified object and returns them, a status
  update likewise; a failed call stores nothing. A patch of the metadata may let a deleted object
  go. No other call changes phase or conditions.
\<close>

locale vmfr_api = status_conditions "fe_setCondition (re_vmfr E)" "fe_findCondition (re_vmfr E)"
  for E :: "'w restore_env" +
  fixes life :: "'w \<Rightarrow> life option" and key :: namespaced_name
  assumes get_value: "fe_get (re_vmfr E) key w = (Inr v, w1) \<Longrightarrow> life w1 = Some (lifeOf v)"
    and get_life: "quiet life (fe_get (re_vmfr E) key)"
    and patch_ok: "fe_patchStatus (re_vmfr E) b m w = (Inr a, w1) \<Longrightarrow> life w = Some (lifeOf b)
      \<Longrightarrow> life w1 = Some (lifeOf m) \<and> lifeOf a = lifeOf m"
    and patch_err: "fe_patchStatus (re_vmfr E) b m w = (Inl e, w1) \<Longrightarrow> life w1 = life w"
    and update_ok: "fe_updateStatus (re_vmfr E) v w = (Inr a, w1) \<Longrightarrow> life w = Some (lifeOf v)
      \<Longrightarrow> life w1 = Some (lifeOf v) \<and> lifeOf a = lifeOf v"
    and update_err: "fe_updateStatus (re_vmfr E) v w = (Inl e, w1) \<Longrightarrow> life w1 = life w"
    and meta_patch: "fe_patch (re_vmfr E) b m w = (rp, w1) \<Longrightarrow> life w1 = life w \<or> life w1 = None"
      "oe_patchVMFR (re_objects E) b m w = (rp, w1) \<Longrightarrow> life w1 = life w \<or> life w1 = None"
    and vmfr_calls: "quiet life (fe_getDiscovery (re_vmfr E) k)" "quiet life (fe_listRestores (re_vmfr E) ns sel)"
      "quiet life (fe_createRestore (re_vmfr E) r)"
    and pvc_calls: "quiet life (pe_getBackup (fe_pvc (re_vmfr E)) k)" "quiet life (pe_now (fe_pvc (re_vmfr E)))"
      "pe_reader (fe_pvc (re_vmfr E)) = Some rd \<Longrightarrow> quiet life (ExtractVMFromBackupMetadata rd bk n1 n2)"
      "pe_reader (fe_pvc (re_vmfr E)) = Some rd \<Longrightarrow> quiet life (FetchPVCFromBackup rd bk n1 n2)"
    and object_calls: "quiet life (oe_get (re_objects E) kd k)" "quiet life (oe_list (re_objects E) kd ns sel)"
      "quiet life (oe_delete (re_objects E) kd om)" "quiet life (oe_listAllVMFRs (re_objects E))"
      "quiet life (oe_probeRoutes (re_objects E))"
    and restore_calls: "quiet life (re_createNamespace E om)" "quiet life (re_createServiceAccount E om)"
      "quiet life (re_readServiceAccount E k)" "quiet life (re_getRoleBinding E k)" "quiet life (re_createRoleBinding E rb)"
      "quiet life (re_readRoleBinding E k)" "quiet life (re_listClaims E ns sel)" "quiet life (re_getClaim E k)"
      "quiet life (re_getSecret E k)" "quiet life (re_listSecrets E ns sel)" "quiet life (re_createSecret E s)"
      "quiet life (re_listServices E ns sel)" "quiet life (re_getRoute E k)" "quiet life (re_listDataDownloads E ns sel)"
      "quiet life (re_patchDataDownload E dd pn)" "quiet life (re_crypto E)" "quiet life (re_randomBytes E)"
begin

abbreviation V :: "'w vmfr_env" where "V \<equiv> re_vmfr E"

lemmas calls = vmfr_calls pvc_calls object_calls restore_calls

text \<open>The object in memory agrees with the server.\<close>

definition synced :: "vmfr \<Rightarrow> 'w \<Rightarrow> bool" where
  "synced v w \<longleftrightarrow> life w = Some (lifeOf v)"

text \<open>A call that may store other fields of the status but returns an object that still agrees.\<close>

definition keeps :: "vmfr \<Rightarrow> ('w, vmfr) io \<Rightarrow> bool" where
  "keeps v m \<longleftrightarrow> triple (synced v) m (\<lambda>a w. synced a w \<and> lifeOf a = lifeOf v) (synced v)"

lemma synced_quiet: "quiet life m \<Longrightarrow> triple (synced v) m (\<lambda>_. synced v) (synced v)"
  by (rule triple_quiet [where P' = "\<lambda>l. l = Some (lifeOf v)"]) (simp_all add: synced_def)

lemma keeps_patch: "lifeOf m = lifeOf v \<Longrightarrow> keeps v (fe_patchStatus V v m)"
  unfolding keeps_def by (rule tripleI) (auto simp: synced_def dest: patch_ok patch_err)

lemma keeps_return: "keeps v (returnR v)"
  unfolding keeps_def by (rule triple_return) simp

section \<open>Calls that leave phase and conditions alone\<close>

lemmas callD = vmfr_calls [THEN quietD] pvc_calls(1,2) [THEN quietD] object_calls [THEN quietD]
  restore_calls [THEN quietD]

lemmas sum_cases = prod.splits sum.splits option.splits if_splits list.splits

lemma quiet_stamped: "quiet life (stamped V cs)"
proof (induction cs)
  case (Cons c cs)
  then show ?case by (auto simp: quiet_def split: prod.splits dest!: callD)
qed (simp add: quiet_def)

lemma quiet_getOrCreate:
  "quiet life g \<Longrightarrow> quiet life c \<Longrightarrow> quiet life r \<Longrightarrow> quiet life (getOrCreate g c r skip gm cm)"
  unfolding quiet_def getOrCreate_def Let_def by (fastforce split: sum_cases)

lemma quiet_access: "quiet life (ensureFileServerAccess E v ns)"
proof -
  have "quiet life (ensureServiceAccount E v ns)"
    unfolding ensureServiceAccount_def [abs_def] Let_def
    using quiet_getOrCreate [OF object_calls(1) restore_calls(2) restore_calls(3)]
    by (fastforce simp: quiet_def split: sum_cases)
  moreover have "quiet life (ensureRoleBinding E v ns)"
    unfolding ensureRoleBinding_def [abs_def] Let_def
    using quiet_getOrCreate [OF restore_calls(4) restore_calls(5) restore_calls(6)]
    by (fastforce simp: quiet_def split: sum_cases)
  ultimately show ?thesis unfolding ensureFileServerAccess_def by (rule quiet_bind)
qed

lemma quiet_findExisting: "quiet life (findExistingVeleroRestore V b v)"
  by (rule quietI) (auto simp: findExistingVeleroRestore_def split: sum_cases dest!: callD)

lemma quiet_createOne: "quiet life (createOne V v sp ns bu names)"
proof (rule quietI)
  fix w r w1
  assume run: "createOne V v sp ns bu names w = (r, w1)"
  obtain c w2 where c: "fe_createRestore V (restoreObject V v sp ns (fst bu) (snd bu)) w = (c, w2)" by fastforce
  then show "life w1 = life w"
    using run quietD [OF quiet_findExisting, of "fst bu" v w2] callD(3) [OF c]
    by (auto simp: createOne_def Let_def split: sum_cases)
qed

lemma quiet_monitor: "quiet life (monitorVeleroRestores V v)"
  by (rule quietI) (auto simp: monitorVeleroRestores_def Let_def split: sum_cases dest!: callD)

lemma quiet_findRestored: "quiet life (findRestoredPVCName E ns rn orig)"
  by (rule quietI) (auto simp: findRestoredPVCName_def split: sum_cases dest!: callD)

lemma quiet_checkMounts: "quiet life (checkMounts E ns ms ok)"
proof (induction ms arbitrary: ok)
  case (Cons m ms)
  have "quiet life (\<lambda>w. case findRestoredPVCName E ns (mt_restoreName m) (mt_pvcName m) w of
     (Inl _, w1) \<Rightarrow> checkMounts E ns ms False w1
   | (Inr name, w1) \<Rightarrow>
      (case re_getClaim E \<lparr>nn_namespace = ns, nn_name = name\<rparr> w1 of
         (Inl e, w2) \<Rightarrow> (Inl (errorf_w (''failed to get PVC '' @ name @ '': '') e), w2)
       | (Inr c, w2) \<Rightarrow>
          if cl_phase c = ''Lost'' then (Inl (errorf (''PVC '' @ mt_pvcName m @ '' is in Lost state'')), w2)
          else checkMounts E ns ms ok w2))"
    using Cons quiet_value by (intro quiet_try quiet_findRestored calls) (auto simp: quiet_def)
  then show ?case by simp
qed (simp add: quiet_def)

lemma quiet_validate: "quiet life (validateRestoredPVCs E v)"
  by (simp add: validateRestoredPVCs_def quiet_checkMounts)

lemma quiet_collectDownloads: "quiet life (collectDownloads E rs)"
proof (induction rs)
  case (Cons r rs)
  then show ?case by (auto simp: quiet_def Let_def split: prod.splits dest!: callD)
qed (simp add: quiet_def)

lemma quiet_fixDownload: "quiet life (fixDownload E ns d n)"
proof (rule quietI)
  fix w r w1
  assume run: "fixDownload E ns d n w = (r, w1)"
  obtain c w2 where c: "findRestoredPVCName E ns (ownerRestore d) (dd_targetPVC d) w = (c, w2)" by fastforce
  show "life w1 = life w"
    using run c quietD [OF quiet_findRestored c] by (auto simp: fixDownload_def split: sum_cases dest!: callD)
qed

lemma quiet_fixDataDownloads: "quiet life (fixDataDownloadPVCNames E v)"
proof (rule quietI)
  fix w r w1
  assume run: "fixDataDownloadPVCNames E v w = (r, w1)"
  obtain l w2 where l: "fe_listRestores V (fe_oadpNamespace V) (ownedBy v) w = (l, w2)" by fastforce
  have "quiet life (\<lambda>w. let (ds, w2) = collectDownloads E rs w in foldR (fixDownload E (restoreNs v)) ds 0 w2)" for rs
    by (intro quiet_then quiet_collectDownloads quiet_foldR quiet_fixDownload)
  from quietD [OF this, of _ w2 r w1] show "life w1 = life w"
    using run l callD(2) [OF l] unfolding fixDataDownloadPVCNames_def by (cases l) (auto split: if_splits)
qed

lemma quiet_findSecret: "quiet life (findSecretByLabels E ns uid ct)"
  by (rule quietI) (auto simp: findSecretByLabels_def split: sum_cases dest!: callD)

lemma quiet_secretRef: "quiet life (secretRef E v ct)"
proof (rule quietI)
  fix w r w1
  assume "secretRef E v ct w = (r, w1)"
  then obtain q where "findSecretByLabels E (restoreNs v) (vmfr_uid v) ct w = (q, w1)"
    by (auto simp: secretRef_def split: sum_cases)
  then show "life w1 = life w" by (rule quietD [OF quiet_findSecret])
qed

lemma quiet_publicAccess: "quiet life (publicAccess E v f)"
proof (rule quietI)
  fix w r w1
  assume run: "publicAccess E v f w = (r, w1)"
  have "quiet life (findRouteHost E ns n)" for ns n
    by (rule quietI) (auto simp: findRouteHost_def split: sum_cases dest!: callD)
  from quietD [OF this] show "life w1 = life w"
    using run by (auto simp: publicAccess_def split: sum_cases)
qed

lemma quiet_updateServing: "quiet life (updateFileServingInfo E v s)"
proof (rule quietI)
  fix w r w1
  assume run: "updateFileServingInfo E v s w = (r, w1)"
  have ssh: "life wb = life wa" if "sshInfo E v s wa = (i, wb)" for wa i wb
    using that quietD [OF quiet_secretRef] by (auto simp: sshInfo_def split: prod.splits)
  have fb: "life wb = life wa" if "fileBrowserInfo E v f s wa = (i, wb)" for f wa i wb
    using that quietD [OF quiet_secretRef] quietD [OF quiet_publicAccess]
    unfolding fileBrowserInfo_def Let_def by (auto split: prod.splits)
  show "life w1 = life w"
    using run unfolding updateFileServingInfo_def Let_def
    by (auto split: if_splits option.splits prod.splits dest!: ssh fb)
qed

lemma quiet_wrapR: "quiet life f \<Longrightarrow> quiet life (wrapR msg f)"
  unfolding quiet_def wrapR_def by (fastforce split: sum_cases)

lemma quiet_ensureSecret: "quiet life (ensureSecretInRestoreNamespace E n ns v val ct)"
proof -
  have *: "quiet life (\<lambda>w. (x :: 'b, w))" for x by (rule quiet_value)
  show ?thesis
    unfolding ensureSecretInRestoreNamespace_def [abs_def] Let_def quiet_def
    by (auto split: sum_cases dest!: callD)
qed

lemma quiet_deleteCredentials: "quiet life (deleteCredentials E ss)"
proof (induction ss)
  case (Cons s ss)
  have "life w1 = life w" if run: "deleteCredentials E (s # ss) w = (r, w1)" for w r w1
  proof -
    obtain d w2 where d: "oe_delete (re_objects E) KSecret (sec_meta s) w = (d, w2)" by fastforce
    show ?thesis
      using run d callD(8) [OF d] quietD [OF Cons] by (auto split: sum_cases)
  qed
  then show ?case by (auto simp: quiet_def)
qed (simp add: quiet_def)

lemma quiet_cleanupCredentials: "quiet life (cleanupAllCredentialSecrets E v)"
  unfolding cleanupAllCredentialSecrets_def [abs_def]
  by (intro quiet_try calls quiet_deleteCredentials quiet_value)

lemma quiet_credentials: "quiet life (ensureCredentials E v)"
proof -
  have kp: "quiet life (generateKeyPair E)" "quiet life (generateFileBrowser E)"
    by (auto simp: quiet_def generateKeyPair_def generateFileBrowser_def split: prod.splits dest!: callD)
  have ssh: "quiet life (ensureSSHCredentials E v s)" for s
    unfolding ensureSSHCredentials_def
    by (auto split: option.splits sum.splits intro!: quiet_wrapR quiet_bind quiet_ensureSecret calls kp)
  have fb: "quiet life (ensureFileBrowserCredentials E v f)" for f
    unfolding ensureFileBrowserCredentials_def
    by (auto split: option.splits intro!: quiet_wrapR quiet_bind quiet_ensureSecret calls kp)
  show ?thesis
    unfolding ensureCredentials_def
    by (auto split: option.splits intro!: quiet_bind quiet_wrapR quiet_cleanupCredentials ssh fb)
qed

lemma quiet_fetchPVCs:
  assumes "pe_reader (fe_pvc V) = Some rd"
  shows "quiet life (fetchPVCs (fe_pvc V) rd b ns names acc)"
proof (induction names arbitrary: acc)
  case (Cons n names)
  have "life w1 = life w" if run: "fetchPVCs (fe_pvc V) rd b ns (n # names) acc w = (r, w1)" for w r w1
  proof -
    obtain d w2 where d: "FetchPVCFromBackup rd b n ns w = (d, w2)" by fastforce
    show ?thesis
      using run d quietD [OF pvc_calls(4) [OF assms] d] quietD [OF Cons] by (auto split: sum_cases)
  qed
  then show ?case by (auto simp: quiet_def)
qed (simp add: quiet_def)

lemma quiet_getVeleroBackup: "quiet life (getVeleroBackup (fe_pvc V) n ns)"
  by (rule quietI) (auto simp: getVeleroBackup_def split: sum_cases dest!: callD)

lemma quiet_extract: "quiet life (extractPVCsForGivenVMFromBackup (fe_pvc V) bn bns vn vns)"
proof (rule quietI)
  fix w r w1
  assume run: "extractPVCsForGivenVMFromBackup (fe_pvc V) bn bns vn vns w = (r, w1)"
  show "life w1 = life w"
    using run quietD [OF quiet_fetchPVCs] unfolding extractPVCsForGivenVMFromBackup_def
    by (auto split: sum_cases dest!: quietD [OF quiet_getVeleroBackup] dest: quietD [OF pvc_calls(3)])
qed

lemma quiet_metadata: "quiet life (getBackupMetadata (fe_pvc V) bi)"
  by (rule quietI) (auto simp: getBackupMetadata_def bindR_def pe_nowR_def split: sum_cases
      dest!: callD quietD [OF quiet_getVeleroBackup])

lemma quiet_discoverSingle: "quiet life (discoverPVCsFromSingleBackup (fe_pvc V) sp bi)"
proof (rule quietI)
  fix w r w1
  assume run: "discoverPVCsFromSingleBackup (fe_pvc V) sp bi w = (r, w1)"
  have fp: "life wb = life wa" if "buildFailedProgress (fe_pvc V) bi rs ms wa = (p, wb)" for wa rs ms p wb
    using that by (auto simp: buildFailedProgress_def split: prod.splits dest!: callD)
  show "life w1 = life w"
    using run unfolding discoverPVCsFromSingleBackup_def Let_def
    by (auto split: sum_cases extract_error.splits dest!: fp callD quietD [OF quiet_metadata] quietD [OF quiet_extract])
qed

lemma quiet_runDiscovery: "quiet life (runConcurrentPVCDiscovery (fe_pvc V) sp bs)"
proof -
  have "quiet life (collectResults (fe_pvc V) sp xs)" for xs
  proof (induction xs)
    case (Cons x xs)
    then show ?case by (auto simp: quiet_def Let_def split: prod.splits dest!: quietD [OF quiet_discoverSingle])
  qed (simp add: quiet_def)
  then show ?thesis by (simp add: runConcurrentPVCDiscovery_def [abs_def] quiet_def)
qed

section \<open>Status patches\<close>

lemma stamped_specs: "stamped V cs w = (ds, w1) \<Longrightarrow> map (\<lambda>c. (cond_type c, payload c)) ds
    = map (\<lambda>c. (cs_type c, (cs_status c, cs_reason c, cs_message c))) cs"
  by (induction cs arbitrary: w ds w1) (auto simp: specAt_def payload_def Let_def split: prod.splits)

lemma four_view:
  assumes "map (\<lambda>c. (cond_type c, payload c)) ds
    = map (\<lambda>c. (cs_type c, (cs_status c, cs_reason c, cs_message c))) (fourConditions p a d r)"
  shows "observed (fe_findCondition V) (foldl (fe_setCondition V) cs ds) = map Some [fst p, fst a, fst d, fst r]
    \<and> progressReason (fe_findCondition V) (foldl (fe_setCondition V) cs ds) = Some (fst (snd p))"
proof -
  let ?ps = "[(ConditionTypeProgressing, p), (ConditionTypeAvailable, a), (ConditionTypeDegraded, d), (ConditionTypeReady, r)]"
  have "map (\<lambda>c. (cond_type c, payload c)) ds = ?ps"
    using assms by (cases p; cases a; cases d; cases r) (simp add: fourConditions_def)
  moreover have "distinct (map fst ?ps)" by (simp add: condition_type_defs)
  ultimately have "\<forall>(t, q)\<in>set ?ps. view (fe_findCondition V) (foldl (fe_setCondition V) cs ds) t = Some q"
    by (rule view_fold_payloads)
  then show ?thesis by (simp add: observed_def conditionTypes_def progressReason_def)
qed

text \<open>What a patch with four conditions leaves on the server and in memory.\<close>

definition shows_status :: "restore_phase \<Rightarrow> condition_status list \<Rightarrow> string \<Rightarrow> vmfr \<Rightarrow> bool" where
  "shows_status ph ss reason v \<longleftrightarrow> fs_phase (vmfr_status v) = ph
     \<and> observed (fe_findCondition V) (fs_conditions (vmfr_status v)) = map Some ss
     \<and> progressReason (fe_findCondition V) (fs_conditions (vmfr_status v)) = Some reason"

lemma patch_four:
  assumes "map (\<lambda>c. (cond_type c, payload c)) ds
    = map (\<lambda>c. (cs_type c, (cs_status c, cs_reason c, cs_message c))) (fourConditions p a d r)"
    and "lifeOf m = (ph, foldl (fe_setCondition V) cs ds)"
  shows "triple (synced b) (fe_patchStatus V b m)
    (\<lambda>x w. synced x w \<and> shows_status ph [fst p, fst a, fst d, fst r] (fst (snd p)) x) (synced b)"
proof (rule tripleI)
  fix w x w1
  assume "synced b w" and run: "fe_patchStatus V b m w = (Inr x, w1)"
  then have "life w1 = Some (lifeOf m)" and x: "lifeOf x = lifeOf m" using patch_ok [OF run] by (simp_all add: synced_def)
  then show "synced x w1 \<and> shows_status ph [fst p, fst a, fst d, fst r] (fst (snd p)) x"
    using four_view [OF assms(1)] x assms(2) by (simp add: synced_def shows_status_def lifeOf_def)
next
  fix w e w1
  assume "synced b w" and "fe_patchStatus V b m w = (Inl e, w1)"
  then show "synced b w1" using patch_err by (simp add: synced_def)
qed

lemma patchWith_four:
  "triple (synced v) (patchWith V v ph (fourConditions p a d r) g)
    (\<lambda>x w. synced x w \<and> shows_status ph [fst p, fst a, fst d, fst r] (fst (snd p)) x) (synced v)"
proof -
  have "case patchWith V v ph (fourConditions p a d r) g w of
      (Inr x, w1) \<Rightarrow> synced x w1 \<and> shows_status ph [fst p, fst a, fst d, fst r] (fst (snd p)) x
    | (Inl e, w1) \<Rightarrow> synced v w1" if s: "synced v w" for w
  proof -
    obtain ds w1 where st: "stamped V (fourConditions p a d r) w = (ds, w1)" by fastforce
    have "synced v w1" using s quietD [OF quiet_stamped st] by (simp add: synced_def)
    moreover have "triple (synced v) (patchVmfrStatusPhaseConditions V v ph ds g)
        (\<lambda>x w. synced x w \<and> shows_status ph [fst p, fst a, fst d, fst r] (fst (snd p)) x) (synced v)"
      unfolding patchVmfrStatusPhaseConditions_def Let_def
      by (rule patch_four [OF stamped_specs [OF st], where cs = "fs_conditions (vmfr_status v)"]) (simp add: lifeOf_def)
    ultimately show ?thesis by (simp add: patchWith_def st triple_def)
  qed
  then show ?thesis by (simp add: triple_def)
qed

end

text \<open>The workflow also relies on the creation of the file server: it changes phase and conditions neither on the
  server nor in memory.\<close>

locale vmfr_server = vmfr_api E life key
  for E :: "'w restore_env" and createServer :: "vmfr \<Rightarrow> ('w, vmfr) io" and life :: "'w \<Rightarrow> life option" and key :: namespaced_name +
  assumes server_quiet: "quiet life (createServer v)"
    and server_value: "createServer v w = (Inr v1, w1) \<Longrightarrow> lifeOf v1 = lifeOf v"

end
