(* ===== verification/Workflow_Lifecycle.thy ===== *)
theory Workflow_Lifecycle
  imports Workflow_Facts
begin

text \<open>
  Every step of the file restore controller is a sequence of transitions of the abstract machine. The locale
  \<open>vmfr_run\<close> adds the stage a reconciliation starts from to the contract \<open>vmfr_server\<close>; its invariant says that the
  server stores a stage that the machine reaches from there, or no object. A set of stages \<open>stop\<close> makes the statement
  finer: the machine leaves none of them, so that the invariant tells which stages a reconciliation cannot jump over.
\<close>

text \<open>The machine without the transitions that leave a stage of \<open>stop\<close>.\<close>

definition step_outside :: "stage set \<Rightarrow> stage \<Rightarrow> stage \<Rightarrow> bool" where
  "step_outside stop s t \<longleftrightarrow> stage_step s t \<and> s \<notin> stop"

lemma step_outside_none [simp]: "step_outside {} = stage_step"
  by (simp add: step_outside_def fun_eq_iff)

locale vmfr_run = vmfr_server E createServer life key
  for E :: "'w restore_env" and createServer :: "vmfr \<Rightarrow> ('w, vmfr) io" and life :: "'w \<Rightarrow> life option" and key :: namespaced_name +
  fixes start :: stage and stop :: "stage set"
  assumes passes: "stop \<inter> {SValidating, SWaitingForDiscovery, SDiscoveringPVCs} = {}"
begin

section \<open>The invariant\<close>

definition Inv :: "'w \<Rightarrow> bool" where
  "Inv w \<longleftrightarrow> (case life w of None \<Rightarrow> True | Some l \<Rightarrow> \<exists>s. (step_outside stop)\<^sup>*\<^sup>* start s \<and> at_stage (fe_findCondition V) s l)"

definition reached :: "stage \<Rightarrow> vmfr \<Rightarrow> bool" where
  "reached s v \<longleftrightarrow> (step_outside stop)\<^sup>*\<^sup>* start s \<and> at_stage (fe_findCondition V) s (lifeOf v)"

text \<open>The object is in a reached stage that may be left.\<close>

definition on :: "stage \<Rightarrow> vmfr \<Rightarrow> bool" where
  "on s v \<longleftrightarrow> reached s v \<and> s \<notin> stop"

lemma Inv_reached: "reached s v \<Longrightarrow> synced v w \<Longrightarrow> Inv w"
  by (auto simp: Inv_def reached_def synced_def)

lemma Inv_on: "on s v \<Longrightarrow> synced v w \<Longrightarrow> Inv w"
  by (auto simp: on_def intro: Inv_reached)

lemma on_at: "on s v \<Longrightarrow> at_stage (fe_findCondition V) s (lifeOf v)"
  by (simp add: on_def reached_def)

lemma on_validating: "reached s v \<Longrightarrow> s \<in> {SValidating, SWaitingForDiscovery, SDiscoveringPVCs} \<Longrightarrow> on s v"
  using passes by (auto simp: on_def)

lemma on_cong: "lifeOf a = lifeOf v \<Longrightarrow> on s a = on s v"
  by (simp add: on_def reached_def)

lemma reached_step: "on s v \<Longrightarrow> stage_step s t \<Longrightarrow> (step_outside stop)\<^sup>*\<^sup>* start t"
  by (auto simp: on_def reached_def step_outside_def intro: rtranclp.rtrancl_into_rtrancl)

lemma shows_on: "shows_status (stagePhase t) (stageStatuses t) (stageReason t) x \<Longrightarrow> on s v \<Longrightarrow> stage_step s t \<Longrightarrow> reached t x"
  using reached_step by (auto simp: shows_status_def reached_def at_stage_def lifeOf_def)

text \<open>A patch with four conditions that is a transition of the machine.\<close>

definition moves :: "stage \<Rightarrow> stage \<Rightarrow> restore_phase \<Rightarrow> cond_spec list \<Rightarrow> bool" where
  "moves s t ph cs \<longleftrightarrow> stage_step s t \<and> (\<exists>p a d r. cs = fourConditions p a d r \<and> ph = stagePhase t
     \<and> [fst p, fst a, fst d, fst r] = stageStatuses t \<and> fst (snd p) = stageReason t)"

lemma movesI: "stage_step s t \<Longrightarrow> ph = stagePhase t \<Longrightarrow> [fst p, fst a, fst d, fst r] = stageStatuses t
  \<Longrightarrow> fst (snd p) = stageReason t \<Longrightarrow> moves s t ph (fourConditions p a d r)"
  unfolding moves_def by blast

lemma patch_moves:
  assumes "on s v" and "moves s t ph cs"
  shows "triple (synced v) (patchWith V v ph cs g) (\<lambda>x w. synced x w \<and> reached t x) (synced v)"
proof -
  obtain p a d r where cs: "cs = fourConditions p a d r" "ph = stagePhase t" "[fst p, fst a, fst d, fst r] = stageStatuses t"
    "fst (snd p) = stageReason t" and st: "stage_step s t"
    using assms(2) unfolding moves_def by blast
  show ?thesis
    unfolding cs(1) by (rule triple_conseq [OF patchWith_four]) (use cs st assms(1) shows_on in auto)
qed

lemma patch_Inv: "on s v \<Longrightarrow> moves s t ph cs \<Longrightarrow> triple (synced v) (patchWith V v ph cs g) (\<lambda>_. Inv) Inv"
  by (rule triple_conseq [OF patch_moves]) (auto intro: Inv_reached Inv_on)

lemma then_return: "triple P m (\<lambda>_. Inv) Inv \<Longrightarrow> triple P (bindR m (\<lambda>_. returnR x)) (\<lambda>_. Inv) Inv"
  by (rule triple_bind) (auto intro: triple_return)

lemma then_fail: "triple P m (\<lambda>_. Inv) Inv \<Longrightarrow> triple P (bindR m (\<lambda>_. failR e)) Q Inv"
  by (rule triple_bind) (auto intro: triple_fail)

lemma fail_Inv:
  assumes "on s v" and "stage_step s SInvalid"
  shows "triple (synced v) (failValidation V v reason msg) Q Inv"
  unfolding failValidation_def failedConditions_def
  by (rule then_fail, rule patch_Inv [OF assms(1)], rule movesI [OF assms(2)]) (simp_all add: stageStatuses_def)

section \<open>Calls that store other fields\<close>

lemma keeps_wrap: "keeps v m \<Longrightarrow> keeps v (\<lambda>w. case m w of (Inl e, w1) \<Rightarrow> (Inl (f e), w1) | (Inr x, w1) \<Rightarrow> (Inr x, w1))"
  unfolding keeps_def by (rule triple_wrap)

lemma synced_same: "synced a w \<and> lifeOf a = lifeOf v \<Longrightarrow> synced v w"
  by (simp add: synced_def)

lemma quiet_first:
  fixes m :: "('w, 'a) io"
  assumes "quiet life m" and "\<And>x. triple (synced v) (g x) R F" and "\<And>e. triple (synced v) (h e) R F"
  shows "triple (synced v) (\<lambda>w. case m w of (Inl e, w1) \<Rightarrow> h e w1 | (Inr x, w1) \<Rightarrow> g x w1) R F"
  by (rule triple_try [OF synced_quiet [OF assms(1)] assms(2,3)])

lemma triple_error: "(\<And>w. P w \<Longrightarrow> F w) \<Longrightarrow> triple P (\<lambda>w. (Inl (f w), w)) Q F"
  by (simp add: triple_def)

lemma keeps_settleNamespace:
  "triple (synced v) (settleNamespace E v ns msg) (\<lambda>(n, a) w. synced a w \<and> lifeOf a = lifeOf v) (synced v)"
proof -
  have rec: "keeps v (recordNamespace E v ns msg)"
    unfolding recordNamespace_def [abs_def] by (intro keeps_wrap keeps_patch) (simp add: lifeOf_def)
  have acc: "triple (\<lambda>w. synced a w \<and> lifeOf a = lifeOf v) (ensureFileServerAccess E a ns)
      (\<lambda>_ w. synced a w \<and> lifeOf a = lifeOf v) (synced v)" for a
    by (rule tripleI) (auto simp: synced_def dest: quietD [OF quiet_access])
  show ?thesis
    unfolding settleNamespace_def
    by (rule triple_bind [OF rec [unfolded keeps_def]], rule triple_bind [OF acc], rule triple_return) simp
qed

lemma keeps_ensureNamespace:
  "triple (synced v) (ensureRestoreNamespace E v) (\<lambda>(n, a) w. synced a w \<and> lifeOf a = lifeOf v) (synced v)"
proof -
  have create: "triple (synced v) (\<lambda>w. case re_createNamespace E m w of
        (Inl e, w2) \<Rightarrow> if IsAlreadyExists e then settleNamespace E v n msg w2 else (Inl (f e), w2)
      | (Inr x, w2) \<Rightarrow> settleNamespace E v n msg w2)
      (\<lambda>(n, a) w. synced a w \<and> lifeOf a = lifeOf v) (synced v)" for m n msg f
    using keeps_settleNamespace [of v n msg]
    by (intro quiet_first calls) (auto simp: triple_def)
  show ?thesis
  proof (cases "RestoreNamespace (vmfr_spec v) = []")
    case True
    then show ?thesis
      unfolding ensureRestoreNamespace_def [abs_def] Let_def getDiscoveryResource_def
      by (auto intro!: quiet_first calls create triple_error)
  next
    case False
    then show ?thesis
      unfolding ensureRestoreNamespace_def [abs_def] Let_def
      by (auto intro!: quiet_first calls keeps_settleNamespace triple_error)
  qed
qed

lemma keeps_createRestores: "keeps v (createVeleroRestores V v)"
proof -
  have "keeps v (\<lambda>w2. case fe_patchStatus V v (v \<lparr>vmfr_status := (vmfr_status v) \<lparr>fs_pvcRestores := ps\<rparr>\<rparr>) w2 of
      (Inl e, w3) \<Rightarrow> (Inl (f e), w3) | (Inr v1, w3) \<Rightarrow> (Inr v1, w3))" for ps f
    by (intro keeps_wrap keeps_patch) (simp add: lifeOf_def)
  then have "triple (synced v) (bindR (foldR (createOne V v sp ns) m [])
     (\<lambda>names w2. case fe_patchStatus V v (v \<lparr>vmfr_status := (vmfr_status v) \<lparr>fs_pvcRestores := g names\<rparr>\<rparr>) w2 of
        (Inl e, w3) \<Rightarrow> (Inl (errorf_w msg e), w3) | (Inr v1, w3) \<Rightarrow> (Inr v1, w3)))
     (\<lambda>a w. synced a w \<and> lifeOf a = lifeOf v) (synced v)" for sp ns m g msg
    by (intro triple_bind [OF synced_quiet] quiet_foldR quiet_createOne) (simp add: keeps_def)
  note created = this
  let ?ns = "restoreNs v" and ?m = "backupToPVCUIDs (fs_pvcRestores (vmfr_status v))"
  show ?thesis
  proof (cases "?ns = [] \<or> ?m = []")
    case True
    then have "\<exists>e w0. createVeleroRestores V v w = (Inl e, w0) \<and> life w0 = life w" for w
      by (auto simp: createVeleroRestores_def getDiscoveryResource_def Let_def split: prod.splits sum.splits dest!: callD)
    then show ?thesis unfolding keeps_def synced_def by (intro tripleI) (metis Inl_Inr_False prod.inject)+
  next
    case False
    then show ?thesis
      unfolding keeps_def createVeleroRestores_def [abs_def] Let_def getDiscoveryResource_def
      by (simp, intro quiet_first calls triple_error) (use created in simp_all)
  qed
qed

lemma keeps_processResults: "keeps v (processDiscoveryResults V v rs)"
proof -
  let ?v1 = "v \<lparr>vmfr_status := (vmfr_status v) \<lparr>fs_pvcRestores := pvcRestoresOf (fe_pvc V) rs\<rparr>\<rparr>"
  have "keeps v (\<lambda>w. case fe_patchStatus V v ?v1 w of (Inl e, w1) \<Rightarrow> (Inl (f e), w1) | (Inr a, w1) \<Rightarrow> (Inr a, w1))" for f
    by (intro keeps_wrap keeps_patch) (simp add: lifeOf_def)
  then show ?thesis
    by (cases "?v1 = v") (simp_all add: processDiscoveryResults_def [abs_def] keeps_def triple_def)
qed

lemma keeps_update: "lifeOf v1 = lifeOf v \<Longrightarrow> triple (synced v) (fe_updateStatus V v1) (\<lambda>a w. synced a w \<and> lifeOf a = lifeOf v) (synced v)"
  by (rule tripleI) (auto simp: synced_def dest: update_ok update_err)

section \<open>Workflow steps\<close>

text \<open>The rest of a step runs on an object that agrees with the server and has the phase and conditions of the first one.\<close>

lemma rest_on: "(\<And>a. lifeOf a = lifeOf v \<Longrightarrow> triple (synced a) (g a) R F) \<Longrightarrow> triple (\<lambda>w. synced a w \<and> lifeOf a = lifeOf v) (g a) R F"
  by (auto simp: triple_def)

lemmas moving = stage_step.intros stageStatuses_def

lemma Inv_while: "on s v \<Longrightarrow> triple (synced v) (returnR x) (\<lambda>_. Inv) Inv"
  by (rule triple_return) (rule Inv_on)

lemma step_namespace: "on SValidationCompleted v \<Longrightarrow> triple (synced v) (prepareNamespaceStep E v) (\<lambda>_. Inv) Inv"
proof -
  assume f: "on SValidationCompleted v"
  have ok: "triple (\<lambda>w. synced a w \<and> lifeOf a = lifeOf v)
      (bindR (patchWith V a VMFRPhaseInProgress (namespaceReady ns) False) (\<lambda>_. returnR True)) (\<lambda>_. Inv) Inv" for a ns
    unfolding namespaceReady_def
    by (rule rest_on, intro then_return patch_Inv [of SValidationCompleted _ SNamespaceReady] movesI) (simp_all add: on_cong f moving)
  have "triple (synced v) (\<lambda>w. case ensureRestoreNamespace E v w of
      (Inl e, w1) \<Rightarrow> failValidation V v ''NamespaceCreationFailed'' (''Failed to create/validate restore namespace: '' @ err_msg e) w1
    | (Inr x, w1) \<Rightarrow> (case x of (ns, a) \<Rightarrow> bindR (patchWith V a VMFRPhaseInProgress (namespaceReady ns) False) (\<lambda>_. returnR True)) w1)
    (\<lambda>_. Inv) Inv"
    by (rule triple_try [OF keeps_ensureNamespace]) (use ok fail_Inv [OF f] in \<open>auto simp: moving split: prod.splits\<close>)
  moreover have "prepareNamespaceStep E v = (\<lambda>w. case ensureRestoreNamespace E v w of
      (Inl e, w1) \<Rightarrow> failValidation V v ''NamespaceCreationFailed'' (''Failed to create/validate restore namespace: '' @ err_msg e) w1
    | (Inr x, w1) \<Rightarrow> (case x of (ns, a) \<Rightarrow> bindR (patchWith V a VMFRPhaseInProgress (namespaceReady ns) False) (\<lambda>_. returnR True)) w1)"
    by (rule ext) (simp add: prepareNamespaceStep_def split: prod.splits sum.splits)
  ultimately show ?thesis by simp
qed

lemma step_createRestores: "on SNamespaceReady v \<Longrightarrow> triple (synced v) (createRestoresStep E v) (\<lambda>_. Inv) Inv"
proof -
  assume f: "on SNamespaceReady v"
  have go: "triple (synced a) (bindR (patchWith V a VMFRPhaseInProgress waitingForRestores False) (\<lambda>_. returnR True)) (\<lambda>_. Inv) Inv"
    if "lifeOf a = lifeOf v" for a
    unfolding waitingForRestores_def by (intro then_return patch_Inv [of SNamespaceReady _ SWaitingForRestores] movesI) (simp_all add: on_cong [OF that] f moving)
  show ?thesis
    unfolding createRestoresStep_def [abs_def] Let_def
  proof (cases "checkVeleroRestoresAlreadyCreated (fs_pvcRestores (vmfr_status v))", simp_all)
    show "triple (synced v) (bindR (patchWith V v VMFRPhaseInProgress waitingForRestores False) (\<lambda>_. returnR True)) (\<lambda>_. Inv) Inv"
      by (rule go [OF refl])
    show "triple (synced v) (\<lambda>w. case createVeleroRestores V v w of
        (Inl e, w1) \<Rightarrow> failValidation V v ''RestoreCreationFailed'' (''Failed to create Velero Restores: '' @ err_msg e) w1
      | (Inr a, w1) \<Rightarrow> bindR (patchWith V a VMFRPhaseInProgress waitingForRestores False) (\<lambda>_. returnR True) w1) (\<lambda>_. Inv) Inv"
      by (rule triple_try [OF keeps_createRestores [unfolded keeps_def]]) (auto intro!: rest_on go fail_Inv [OF f] simp: moving)
  qed
qed

definition outcomeStage :: "nat \<Rightarrow> nat \<Rightarrow> stage" where
  "outcomeStage completed failed = (if completed = 0 then SAllFailed else if failed = 0 then SRestoresCompleted else SSomeFailed)"

lemma outcome_moves: "restoreOutcome c n t = (ph, cs) \<Longrightarrow> moves SWaitingForRestores (outcomeStage c n) ph cs"
  by (auto simp: restoreOutcome_def outcomeStage_def restoresReady_def someRestoresFailed_def allRestoresFailed_def moving
      intro!: movesI split: if_splits)

lemma step_finish: "on SWaitingForRestores v \<Longrightarrow> triple (synced v) (finishRestores E v m) (\<lambda>_. Inv) Inv"
  unfolding finishRestores_def Let_def
  by (auto intro!: triple_fail then_return patch_Inv [OF _ outcome_moves] simp: Inv_on split: prod.splits)

text \<open>The shape of the steps, for any condition on their results.\<close>

lemma settle_rule:
  assumes fin: "triple (synced v) (finishRestores E v m) R F" and bad: "\<And>r msg. triple (synced v) (failValidation V v r msg) R F"
    and more: "\<And>w. synced v w \<Longrightarrow> R True w"
  shows "triple (synced v) (settleRestores E m v) R F"
proof -
  have val: "triple (synced v) (\<lambda>w. case validateRestoredPVCs E v w of
      (Inl e, w2) \<Rightarrow> failValidation V v ''PVCValidationFailed'' (''PVC validation failed: '' @ err_msg e) w2
    | (Inr ready, w2) \<Rightarrow> (if ready then finishRestores E v m else returnR True) w2) R F"
    by (intro quiet_first quiet_validate bad triple_if fin triple_return more)
  have split: "(case x of (Inl e, w2) \<Rightarrow> h e w2 | (Inr False, w2) \<Rightarrow> (Inr True, w2) | (Inr True, w2) \<Rightarrow> g w2)
      = (case x of (Inl e, w2) \<Rightarrow> h e w2 | (Inr ready, w2) \<Rightarrow> (if ready then g else returnR True) w2)"
    for x :: "bool result \<times> 'w" and h and g :: "('w, bool) io"
    by (simp split: prod.splits sum.splits bool.splits)
  show ?thesis
    unfolding triple_def
  proof (intro allI impI)
    fix w
    assume s: "synced v w"
    obtain x w1 where x: "fixDataDownloadPVCNames E v w = (x, w1)" by fastforce
    then have s1: "synced v w1" using s quietD [OF quiet_fixDataDownloads] by (simp add: synced_def)
    show "case settleRestores E m v w of (Inr x, w1) \<Rightarrow> R x w1 | (Inl e, w1) \<Rightarrow> F w1"
      using val fin s1 more [OF s1] unfolding settleRestores_def x Let_def split triple_def by auto
  qed
qed

lemma wait_rule:
  assumes settle: "\<And>b m. lifeOf b = lifeOf v \<Longrightarrow> triple (synced b) (settleRestores E m b) R F" and err: "\<And>w. synced v w \<Longrightarrow> F w"
  shows "triple (synced v) (waitForRestoresStep E v) R F"
proof -
  have mon: "triple (synced v) (monitorVeleroRestores V v) (\<lambda>(m, a) w. synced v w \<and> lifeOf a = lifeOf v) F"
  proof (rule tripleI)
    fix w x w1
    assume "synced v w" "monitorVeleroRestores V v w = (Inr x, w1)"
    then show "(case x of (m, a) \<Rightarrow> \<lambda>w. synced v w \<and> lifeOf a = lifeOf v) w1"
      using quietD [OF quiet_monitor] by (auto simp: synced_def monitorVeleroRestores_def Let_def lifeOf_def
          split: prod.splits sum.splits if_splits)
  next
    fix w e w1
    assume "synced v w" "monitorVeleroRestores V v w = (Inl e, w1)"
    then have "synced v w1" using quietD [OF quiet_monitor] by (fastforce simp: synced_def)
    then show "F w1" by (rule err)
  qed
  have upd: "triple (synced v) (if mo_updated m then fe_updateStatus V a else returnR a)
      (\<lambda>b w. synced b w \<and> lifeOf b = lifeOf v) F" if "lifeOf a = lifeOf v" for m a
    by (rule triple_if, rule triple_conseq [OF keeps_update [OF that]])
       (use that err in \<open>auto intro!: triple_return, auto simp: synced_def\<close>)
  show ?thesis
    unfolding waitForRestoresStep_def
  proof (rule triple_bind [OF mon])
    fix x :: "monitor \<times> vmfr"
    obtain m a where x: "x = (m, a)" by (cases x)
    show "triple (case x of (m, a) \<Rightarrow> \<lambda>w. synced v w \<and> lifeOf a = lifeOf v)
       (case x of (m, a) \<Rightarrow> bindR (if mo_updated m then fe_updateStatus V a else returnR a) (settleRestores E m)) R F"
      unfolding x prod.case by (rule triple_pure, rule triple_bind [OF upd rest_on [OF settle]])
  qed
qed

lemma server_rule:
  assumes route: "\<And>a. lifeOf a = lifeOf v
      \<Longrightarrow> triple (synced v) (bindR (patchServing V v a VMFRPhaseInProgress waitingForRoute) (\<lambda>_. returnR True)) R F"
    and ready: "\<And>a m1 m2. lifeOf a = lifeOf v
      \<Longrightarrow> triple (synced v) (bindR (patchServing V v a VMFRPhaseCompleted (completedConditions m1 m2)) (\<lambda>_. returnR False)) R F"
    and bad: "\<And>r msg. triple (synced v) (failValidation V v r msg) R F"
  shows "triple (synced v) (createFileServerStep E createServer v) R F"
proof -
  have create: "triple (synced v) (createServer v) (\<lambda>a w. synced v w \<and> lifeOf a = lifeOf v) (synced v)"
    by (rule tripleI) (auto simp: synced_def dest: quietD [OF server_quiet] server_value)
  have fin: "triple (\<lambda>w. synced v w \<and> lifeOf a = lifeOf v) (\<lambda>w1. if b
      then bindR (patchServing V v a VMFRPhaseInProgress waitingForRoute) (\<lambda>_. returnR True) w1
      else bindR (patchServing V v a VMFRPhaseCompleted (completedConditions m1 m2)) (\<lambda>_. returnR False) w1) R F" for a b m1 m2
    by (rule triple_pure, cases b) (simp_all add: route ready del: returnR_def)
  show ?thesis
    unfolding createFileServerStep_def [abs_def] by (rule triple_try [OF create fin bad])
qed

lemma route_rule:
  assumes ready: "\<And>a m1 m2. lifeOf a = lifeOf v
      \<Longrightarrow> triple (synced v) (bindR (patchServing V v a VMFRPhaseCompleted (completedConditions m1 m2)) (\<lambda>_. returnR False)) R F"
    and more: "\<And>w. synced v w \<Longrightarrow> R True w" and err: "\<And>w. synced v w \<Longrightarrow> F w"
  shows "triple (synced v) (waitForRouteStep E v) R F"
proof -
  have serving: "case (case updateFileServingInfo E v s w of
       ((Some e, _), w2) \<Rightarrow> (Inl e, w2)
     | ((None, v1), w2) \<Rightarrow> if \<not> routeReady v1 then (Inr True, w2)
         else bindR (patchServing V v v1 VMFRPhaseCompleted (completedConditions m1 m2)) (\<lambda>_. returnR False) w2) of
      (Inr x, w1) \<Rightarrow> R x w1 | (Inl e, w1) \<Rightarrow> F w1" if "synced v w" for s w m1 m2
  proof -
    obtain e v1 w2 where u: "updateFileServingInfo E v s w = ((e, v1), w2)" by (metis prod.exhaust)
    have "lifeOf v1 = lifeOf v"
      using u unfolding updateFileServingInfo_def Let_def by (auto simp: setServingInfo_def lifeOf_def split: if_splits prod.splits)
    moreover have "synced v w2" using quietD [OF quiet_updateServing u] that by (simp add: synced_def)
    ultimately show ?thesis using ready [of v1] more err by (simp add: u triple_def split: option.splits)
  qed
  show ?thesis
    unfolding triple_def
  proof (intro allI impI)
    fix w
    assume s: "synced v w"
    obtain l w1 where l: "re_listServices E (restoreNs v) (ownedBy v) w = (l, w1)" by fastforce
    have s1: "synced v w1" using s callD l by (simp add: synced_def)
    show "case waitForRouteStep E v w of (Inr x, w1) \<Rightarrow> R x w1 | (Inl e, w1) \<Rightarrow> F w1"
    proof (cases l)
      case (Inr ss)
      then show ?thesis unfolding waitForRouteStep_def l using err [OF s] err [OF s1] serving [OF s1] by (cases ss) auto
    qed (use err [OF s] err [OF s1] in \<open>simp add: waitForRouteStep_def l\<close>)
  qed
qed

lemma step_waitRestores: "on SWaitingForRestores v \<Longrightarrow> triple (synced v) (waitForRestoresStep E v) (\<lambda>_. Inv) Inv"
proof (rule wait_rule)
  fix b m
  assume "on SWaitingForRestores v" and "lifeOf b = lifeOf v"
  then have f: "on SWaitingForRestores b" using on_cong by blast
  show "triple (synced b) (settleRestores E m b) (\<lambda>_. Inv) Inv"
  proof (rule settle_rule)
    show "triple (synced b) (failValidation V b r msg) (\<lambda>_. Inv) Inv" for r msg
      by (rule fail_Inv [OF f]) (simp add: stage_step.invalid)
  qed (rule step_finish [OF f], rule Inv_on [OF f])
qed (rule Inv_on)

lemma step_credentials: "on SRestoresCompleted v \<Longrightarrow> triple (synced v) (prepareCredentialsStep E v) (\<lambda>_. Inv) Inv"
  unfolding prepareCredentialsStep_def [abs_def] credentialsReady_def
  by (intro quiet_first quiet_credentials fail_Inv [of SRestoresCompleted]
      then_return patch_Inv [of SRestoresCompleted _ SCredentialsReady] movesI) (simp_all add: moving)

text \<open>The patches that also store the access information.\<close>

lemma patchServing_moves:
  assumes "lifeOf v1 = lifeOf v" and f: "on s v" and "moves s t ph cs"
  shows "triple (synced v) (patchServing V v v1 ph cs) (\<lambda>x w. synced x w \<and> reached t x) (synced v)"
  unfolding triple_def
proof (intro allI impI)
  fix w
  assume s: "synced v w"
  obtain p a d r where cs: "cs = fourConditions p a d r" "ph = stagePhase t" "[fst p, fst a, fst d, fst r] = stageStatuses t"
    "fst (snd p) = stageReason t" and st: "stage_step s t"
    using assms(3) unfolding moves_def by blast
  obtain ds w1 where ds: "stamped V (fourConditions p a d r) w = (ds, w1)" by fastforce
  let ?m = "v1 \<lparr>vmfr_status := (vmfr_status v1) \<lparr>fs_phase := ph,
     fs_conditions := foldl (fe_setCondition V) (fs_conditions (vmfr_status v1)) ds\<rparr>\<rparr>"
  have "synced v w1" using s quietD [OF quiet_stamped ds] by (simp add: synced_def)
  moreover have "triple (synced v) (fe_patchStatus V v ?m)
      (\<lambda>x w. synced x w \<and> shows_status ph [fst p, fst a, fst d, fst r] (fst (snd p)) x) (synced v)"
    by (rule patch_four [OF stamped_specs [OF ds], where cs = "fs_conditions (vmfr_status v1)"]) (simp add: lifeOf_def)
  then have "triple (synced v) (fe_patchStatus V v ?m) (\<lambda>x w. synced x w \<and> reached t x) (synced v)"
    by (rule triple_conseq) (use shows_on [OF _ f st] cs in auto)
  ultimately show "case patchServing V v v1 ph cs w of (Inr x, w1) \<Rightarrow> synced x w1 \<and> reached t x | (Inl e, w1) \<Rightarrow> synced v w1"
    by (simp add: patchServing_def cs(1) ds triple_def)
qed

lemma patchServing_Inv:
  "lifeOf v1 = lifeOf v \<Longrightarrow> on s v \<Longrightarrow> moves s t ph cs \<Longrightarrow> triple (synced v) (patchServing V v v1 ph cs) (\<lambda>_. Inv) Inv"
  by (rule triple_conseq [OF patchServing_moves]) (auto intro: Inv_reached Inv_on)

lemma moves_complete: "s \<in> {SCredentialsReady, SWaitingForRoute} \<Longrightarrow> moves s SCompleted VMFRPhaseCompleted (completedConditions m1 m2)"
  unfolding completedConditions_def by (rule movesI) (simp_all add: moving)

lemma moves_route: "moves SCredentialsReady SWaitingForRoute VMFRPhaseInProgress waitingForRoute"
  unfolding waitingForRoute_def by (rule movesI) (simp_all add: moving)

lemma step_fileServer: "on SCredentialsReady v \<Longrightarrow> triple (synced v) (createFileServerStep E createServer v) (\<lambda>_. Inv) Inv"
  by (intro server_rule then_return patchServing_Inv [OF _ _ moves_route] patchServing_Inv [OF _ _ moves_complete] fail_Inv)
     (auto simp: moving)

lemma step_waitRoute: "on SWaitingForRoute v \<Longrightarrow> triple (synced v) (waitForRouteStep E v) (\<lambda>_. Inv) Inv"
  by (intro route_rule then_return patchServing_Inv [OF _ _ moves_complete]) (auto intro: Inv_on)

section \<open>Validation\<close>

text \<open>The stages in which the controller still validates.\<close>

abbreviation validating :: "stage set" where "validating \<equiv> {SValidating, SWaitingForDiscovery}"

lemma specAt_specs: "map (\<lambda>c. (cond_type c, payload c)) (map (specAt t) cs)
    = map (\<lambda>c. (cs_type c, (cs_status c, cs_reason c, cs_message c))) cs"
  by (simp add: specAt_def payload_def)

lemma patchAt_four:
  "triple (synced v) (patchVmfrStatusPhaseConditions V v ph (map (specAt t) (fourConditions p a d r)) g)
    (\<lambda>x w. synced x w \<and> shows_status ph [fst p, fst a, fst d, fst r] (fst (snd p)) x) (synced v)"
  unfolding patchVmfrStatusPhaseConditions_def Let_def
  by (rule patch_four [OF specAt_specs, where cs = "fs_conditions (vmfr_status v)"]) (simp add: lifeOf_def)

lemma start_from_new: "on SInitialized v \<Longrightarrow> triple (synced v) (startValidation V v) (\<lambda>a w. synced a w \<and> on SValidating a) Inv"
proof -
  assume f: "on SInitialized v"
  have "fs_phase (vmfr_status v) = VMFRPhaseNew" using on_at [OF f] by (simp add: at_stage_def lifeOf_def)
  then have "startValidation V v = patchVmfrStatusPhaseConditions V v VMFRPhaseInProgress
      (map (specAt (instant zeroTime)) validatingConditions) True" by (simp add: startValidation_def)
  then show ?thesis
    unfolding validatingConditions_def
    by (simp only:, intro triple_conseq [OF patchAt_four]) (use shows_on [OF _ f] Inv_on [OF f] in \<open>auto simp: moving intro: on_validating\<close>)
qed

lemma start_validating: "on s v \<Longrightarrow> s \<in> validating
  \<Longrightarrow> triple (synced v) (startValidation V v) (\<lambda>a w. synced a w \<and> on s a) Inv"
  using on_at [of s v] by (auto simp: at_stage_def lifeOf_def startValidation_def intro!: triple_return)

lemma discovery_wait:
  assumes f: "on s v" and s: "s \<in> validating"
  shows "triple (synced v) (validateReferencedDiscovery V v) (\<lambda>od w. Inv w \<and> (od \<noteq> None \<longrightarrow> synced v w)) Inv"
proof -
  have wait: "triple (synced v) (bindR (patchWith V v VMFRPhaseInProgress waitingForDiscovery False) (\<lambda>_. returnR None))
      (\<lambda>od w. Inv w \<and> (od \<noteq> None \<longrightarrow> synced v w)) Inv"
    unfolding waitingForDiscovery_def
    by (rule triple_bind, rule patch_Inv [OF f, of SWaitingForDiscovery], rule movesI) (use s in \<open>auto simp: moving intro: triple_return\<close>)
  have "triple (synced v) (\<lambda>w. if b then bindR (patchWith V v VMFRPhaseInProgress waitingForDiscovery False) (\<lambda>_. returnR None) w
      else (Inr (Some d), w)) (\<lambda>od w. Inv w \<and> (od \<noteq> None \<longrightarrow> synced v w)) Inv" for b d
    using wait Inv_on [OF f] by (cases b) (simp_all add: triple_def)
  moreover have "stage_step s SInvalid" using s by (auto simp: moving)
  then have "triple (synced v) (\<lambda>w. if b then failValidation V v r1 m1 w else failValidation V v r2 m2 w)
      (\<lambda>od w. Inv w \<and> (od \<noteq> None \<longrightarrow> synced v w)) Inv" for b r1 m1 r2 m2
    using fail_Inv [OF f] by (cases b) simp_all
  ultimately show ?thesis
    unfolding validateReferencedDiscovery_def [abs_def] Let_def by (intro quiet_first calls)
qed

lemma backups_checked: "on s v \<Longrightarrow> s \<in> validating \<Longrightarrow> triple (synced v) (validateDiscoveryBackups V v d) (\<lambda>_. synced v) Inv"
  unfolding validateDiscoveryBackups_def Let_def
  by (auto intro!: fail_Inv triple_return stage_step.invalid split: sum.splits)

text \<open>The patch that announces the discovery sets the Progressing condition only.\<close>

lemma discovering_patch:
  assumes f: "on s v" and s: "s \<in> validating"
  shows "triple (synced v) (patchWith V v VMFRPhaseInProgress (discoveringConditions n) False)
    (\<lambda>a w. synced a w \<and> on SDiscoveringPVCs a) Inv"
proof -
  let ?cs = "fs_conditions (vmfr_status v)" and ?fnd = "fe_findCondition V"
  have kept: "\<And>t. t \<noteq> ConditionTypeProgressing \<Longrightarrow> view ?fnd (fe_setCondition V ?cs c) t = view ?fnd ?cs t"
    and new: "view ?fnd (fe_setCondition V ?cs c) ConditionTypeProgressing = Some (payload c)"
    if "cond_type c = ConditionTypeProgressing" for c
    using that by (simp_all add: view_set)
  have obs: "observed ?fnd ?cs = map Some [ConditionTrue, ConditionFalse, ConditionFalse, ConditionFalse]"
    using on_at [OF f] s by (auto simp: at_stage_def lifeOf_def stageStatuses_def)
  have st: "(step_outside stop)\<^sup>*\<^sup>* start SDiscoveringPVCs"
    using s by (intro reached_step [OF f]) (auto simp: moving)
  have "on SDiscoveringPVCs x"
    if "lifeOf x = (VMFRPhaseInProgress, fe_setCondition V ?cs (specAt t (hd (discoveringConditions n))))" for x t
    using that st obs kept [of "specAt t (hd (discoveringConditions n))"] new [of "specAt t (hd (discoveringConditions n))"]
    by (intro on_validating) (simp_all add: reached_def at_stage_def stageStatuses_def observed_def conditionTypes_def progressReason_def discoveringConditions_def
        specAt_def payload_def condition_type_defs)
  then have "case patchWith V v VMFRPhaseInProgress (discoveringConditions n) False w of
      (Inr a, w1) \<Rightarrow> synced a w1 \<and> on SDiscoveringPVCs a | (Inl e, w1) \<Rightarrow> Inv w1" if sy: "synced v w" for w
    using sy patch_ok patch_err quietD [OF pvc_calls(2)] Inv_on [OF f]
    unfolding patchWith_def patchVmfrStatusPhaseConditions_def Let_def discoveringConditions_def
    by (auto simp: synced_def lifeOf_def split: prod.splits sum.splits)
  then show ?thesis by (simp add: triple_def)
qed

lemma decide_moves: "on SDiscoveringPVCs v \<Longrightarrow> triple (synced v) (decideAvailability V v n) (\<lambda>_. Inv) Inv"
proof -
  assume f: "on SDiscoveringPVCs v"
  have "triple (synced v) (bindR (patchWith V v VMFRPhaseInProgress (validatedConditions n) False) (\<lambda>_. returnR True)) (\<lambda>_. Inv) Inv"
    unfolding validatedConditions_def
    by (rule then_return, rule patch_Inv [OF f, of SValidationCompleted], rule movesI) (simp_all add: moving)
  moreover have "triple (synced v) (failPartialValidation V v r m) (\<lambda>_. Inv) Inv" for r m
    unfolding failPartialValidation_def partialConditions_def
    by (rule then_fail, rule patch_Inv [OF f, of SPartlyInvalid], rule movesI) (simp_all add: moving)
  ultimately show ?thesis
    unfolding decideAvailability_def Let_def
    by (cases "judge (availabilityOf (fs_pvcRestores (vmfr_status v)))") (auto intro!: fail_Inv [OF f] simp: moving)
qed

lemma discover_moves:
  assumes f: "on SDiscoveringPVCs v"
  shows "triple (synced v) (discoverPVCs V v d bs) (\<lambda>_. Inv) Inv"
proof -
  have decide: "triple (\<lambda>w. synced a w \<and> lifeOf a = lifeOf v) (decideAvailability V a (length bs)) (\<lambda>_. Inv) Inv" for a
    by (rule triple_pure, rule decide_moves) (use on_cong f in blast)
  have fail: "triple (synced v) (failValidation V v r m) (\<lambda>_. Inv) Inv" for r m
    by (rule fail_Inv [OF f]) (simp add: moving)
  have "triple (synced v) (\<lambda>w. case processDiscoveryResults V v rs w of
      (Inl e, w2) \<Rightarrow> failValidation V v ''ProcessDiscoveryFailed'' (err_msg e) w2
    | (Inr v1, w2) \<Rightarrow> decideAvailability V v1 (length bs) w2) (\<lambda>_. Inv) Inv" for rs
    by (rule triple_try [OF keeps_processResults [unfolded keeps_def] decide fail])
  note run = this
  show ?thesis
    unfolding triple_def
  proof (intro allI impI)
    fix w
    assume s: "synced v w"
    obtain rs w1 where rs: "runConcurrentPVCDiscovery (fe_pvc V) (vmbd_spec d) bs w = (rs, w1)" by fastforce
    have "synced v w1" using s quietD [OF quiet_runDiscovery rs] by (simp add: synced_def)
    then show "case discoverPVCs V v d bs w of (Inr x, w1) \<Rightarrow> Inv w1 | (Inl e, w1) \<Rightarrow> Inv w1"
      using run [of rs] by (simp add: triple_def discoverPVCs_def rs)
  qed
qed

text \<open>Validation from the point where the object is in progress.\<close>

lemma validate_rest:
  assumes f: "on s v" and s: "s \<in> validating"
  shows "triple (synced v) (bindR (validateReferencedDiscovery V v) (\<lambda>od. case od of None \<Rightarrow> returnR True
      | Some d \<Rightarrow> bindR (validateDiscoveryBackups V v d) (\<lambda>bs.
          bindR (patchWith V v VMFRPhaseInProgress (discoveringConditions (length bs)) False) (\<lambda>v2. discoverPVCs V v2 d bs))))
      (\<lambda>_. Inv) Inv"
proof (rule triple_bind [OF discovery_wait [OF f s]])
  have disc: "triple (\<lambda>w. synced a w \<and> on SDiscoveringPVCs a) (discoverPVCs V a d bs) (\<lambda>_. Inv) Inv" for a d bs
    by (rule triple_pure) (rule discover_moves)
  fix od
  show "triple (\<lambda>w. Inv w \<and> (od \<noteq> None \<longrightarrow> synced v w)) (case od of None \<Rightarrow> returnR True
      | Some d \<Rightarrow> bindR (validateDiscoveryBackups V v d) (\<lambda>bs.
          bindR (patchWith V v VMFRPhaseInProgress (discoveringConditions (length bs)) False) (\<lambda>v2. discoverPVCs V v2 d bs)))
      (\<lambda>_. Inv) Inv"
  proof (cases od)
    case (Some d)
    have "triple (synced v) (bindR (validateDiscoveryBackups V v d) (\<lambda>bs.
        bindR (patchWith V v VMFRPhaseInProgress (discoveringConditions (length bs)) False) (\<lambda>v2. discoverPVCs V v2 d bs)))
        (\<lambda>_. Inv) Inv"
      by (rule triple_bind [OF backups_checked [OF f s] triple_bind [OF discovering_patch [OF f s] disc]])
    then show ?thesis using Some by (auto simp: triple_def)
  qed (auto intro: triple_return)
qed

lemma step_validate:
  assumes f: "on s v" and s: "s \<in> {SInitialized, SValidating, SWaitingForDiscovery}"
  shows "triple (synced v) (validateAndDiscoverPVCs V v) (\<lambda>_. Inv) Inv"
proof -
  obtain s1 where s1: "s1 \<in> validating" "triple (synced v) (startValidation V v) (\<lambda>a w. synced a w \<and> on s1 a) Inv"
    using start_from_new start_validating f s by fastforce
  show ?thesis
    unfolding validateAndDiscoverPVCs_def
    by (rule triple_bind [OF s1(2)], rule triple_pure, rule validate_rest [OF _ s1(1)])
qed

section \<open>Deletion\<close>

text \<open>A call after which phase and conditions are as before, or the object is gone.\<close>

definition settles :: "('w, 'a) io \<Rightarrow> bool" where
  "settles m \<longleftrightarrow> (\<forall>w r w1. m w = (r, w1) \<longrightarrow> life w1 = life w \<or> life w1 = None)"

lemma settles_quiet: "quiet life m \<Longrightarrow> settles m"
  by (simp add: settles_def quiet_def)

lemma settles_try:
  "settles m \<Longrightarrow> (\<And>x. settles (g x)) \<Longrightarrow> (\<And>e. settles (h e))
   \<Longrightarrow> settles (\<lambda>w. case m w of (Inl e, w1) \<Rightarrow> h e w1 | (Inr x, w1) \<Rightarrow> g x w1)"
  unfolding settles_def by (fastforce split: prod.splits sum.splits)

lemma settles_bind: "settles m \<Longrightarrow> (\<And>x. settles (g x)) \<Longrightarrow> settles (bindR m g)"
  unfolding bindR_def [abs_def] by (rule settles_try) (auto simp: settles_def)

lemma settles_Inv: "settles m \<Longrightarrow> triple Inv m (\<lambda>_. Inv) Inv"
  by (rule tripleI) (auto simp: settles_def Inv_def dest!: spec split: option.splits)

lemma settles_if: "(b \<Longrightarrow> settles m) \<Longrightarrow> (\<not> b \<Longrightarrow> settles n) \<Longrightarrow> settles (if b then m else n)"
  by simp

lemma quiet_deleteEach: "quiet life (deleteEach (re_objects E) k what ms)"
proof (induction ms)
  case (Cons m ms)
  have "life w1 = life w" if run: "deleteEach (re_objects E) k what (m # ms) w = (r, w1)" for w r w1
  proof -
    obtain d w2 where d: "oe_delete (re_objects E) k m w = (d, w2)" by fastforce
    show ?thesis
      using run d quietD [OF object_calls(3) d] quietD [OF Cons] by (auto split: sum_cases)
  qed
  then show ?case by (auto simp: quiet_def)
qed (simp add: quiet_def)

lemma quiet_deleteListed: "quiet life (deleteListed (re_objects E) k what lst ns sel)"
  unfolding deleteListed_def [abs_def] by (intro quiet_try calls quiet_deleteEach quiet_value)

lemma quiet_deleteManaged: "quiet life (deleteManaged (re_objects E) k what n ns)"
  by (rule quietI) (auto simp: deleteManaged_def split: sum_cases dest!: callD)

lemma quiet_deleteOwned: "quiet life (deleteOwnedResources (re_objects E) v ns)"
proof -
  have routes: "quiet life (deleteFileServerRoutes (re_objects E) v ns)"
    unfolding deleteFileServerRoutes_def [abs_def] by (intro quiet_try calls quiet_deleteListed quiet_value)
  have access: "quiet life (deleteFileServerAccess (re_objects E) v ns)"
  proof -
    have "quiet life (\<lambda>w. if b then (Inr (), w) else bindR (deleteManaged (re_objects E) k1 t1 n1 ns)
        (\<lambda>_. deleteManaged (re_objects E) k2 t2 n2 ns) w)" for b k1 t1 n1 k2 t2 n2
      by (cases b) (simp_all add: quiet_bind quiet_deleteManaged)
    then show ?thesis unfolding deleteFileServerAccess_def [abs_def] by (intro quiet_try calls quiet_value)
  qed
  show ?thesis
    unfolding deleteOwnedResources_def deleteFileServerPods_def deleteFileServerServices_def deleteControllerSecrets_def deleteRestoredPVCs_def
    by (auto intro!: quiet_bind quiet_deleteListed routes access quiet_foldR)
qed

lemma settles_restoreCleanup: "settles (handleVeleroRestoreCleanup (re_objects E) oadp v)"
  unfolding handleVeleroRestoreCleanup_def
  by (intro settles_if settles_bind settles_try settles_quiet [OF quiet_deleteListed])
     (auto simp: settles_def dest: meta_patch(2))

lemma settles_resourceCleanup: "settles (handleResourceCleanup (re_objects E) v)"
proof -
  have drop: "settles (dropMainFinalizer (re_objects E) v)" and fin: "settles (finishCleanup (re_objects E) v)"
    by (auto simp: settles_def dropMainFinalizer_def finishCleanup_def split: sum_cases dest!: meta_patch(2))
  have del: "settles (bindR (if t then deleteNamespace (re_objects E) m else deleteOwnedResources (re_objects E) v ns)
      (\<lambda>_. finishCleanup (re_objects E) v))" for t m ns
    by (intro settles_bind fin settles_quiet quiet_if quiet_deleteOwned quietI)
       (auto simp: deleteNamespace_def split: sum_cases dest!: callD)
  have ge: "settles (\<lambda>w1. if IsNotFound e then dropMainFinalizer (re_objects E) v w1 else (Inl (g e), w1))" for e g
    using drop by (auto simp: settles_def)
  show ?thesis
    unfolding settles_def
  proof (intro allI impI)
    fix w r w1
    assume run: "handleResourceCleanup (re_objects E) v w = (r, w1)"
    let ?main = "\<lambda>w. case oe_get (re_objects E) KNamespace \<lparr>nn_namespace = [], nn_name = restoreNs v\<rparr> w of
          (Inl e, w1) \<Rightarrow> if IsNotFound e then dropMainFinalizer (re_objects E) v w1
                         else (Inl (errorf_w ''failed to get restore namespace: '' e), w1)
        | (Inr m, w1) \<Rightarrow> bindR (if isTempNamespace m then deleteNamespace (re_objects E) m
              else deleteOwnedResources (re_objects E) v (restoreNs v)) (\<lambda>_. finishCleanup (re_objects E) v) w1"
    have "settles ?main" by (intro settles_try settles_quiet [OF object_calls(1)] del ge)
    then show "life w1 = life w \<or> life w1 = None"
      using run drop unfolding handleResourceCleanup_def Let_def settles_def by (auto split: if_splits)
  qed
qed

section \<open>Reconciliation\<close>

lemma reason_at: "on s v \<Longrightarrow> s \<noteq> SUnset
  \<Longrightarrow> \<exists>c. fe_findCondition V (fs_conditions (vmfr_status v)) ConditionTypeProgressing = Some c \<and> cond_reason c = stageReason s"
  using on_at [of s v] by (auto simp: at_stage_def lifeOf_def progressReason_def view_def payload_def split: option.splits)

lemma step_workflow:
  assumes f: "on s v" and s: "s \<noteq> SUnset"
  shows "triple (synced v) (executeFileRestoreWorkflow E createServer v) (\<lambda>_. Inv) Inv"
proof -
  obtain c where c: "fe_findCondition V (fs_conditions (vmfr_status v)) ConditionTypeProgressing = Some c"
    "cond_reason c = stageReason s" using reason_at [OF f s] by blast
  show ?thesis
    unfolding executeFileRestoreWorkflow_def c(1) option.case c(2) using f
    by (cases s) (simp_all add: step_namespace step_createRestores step_waitRestores step_credentials step_fileServer
        step_waitRoute Inv_while [OF f] del: returnR_def)
qed

lemma single_step: "triple (synced v) (s v) (\<lambda>_. Inv) Inv \<Longrightarrow> triple (synced v) (runSteps [s] v) (\<lambda>_. Inv) Inv"
  unfolding runSteps.simps by (rule triple_bind) (auto intro: triple_return)

lemma first_steps:
  assumes f: "on SUnset v"
  shows "triple (synced v) (runSteps [ensureFinalizer V, initializePhaseForFileRestore V] v) (\<lambda>_. Inv) Inv"
proof -
  have init: "triple (synced v) (initializePhaseForFileRestore V v) (\<lambda>_. Inv) Inv"
  proof -
    have "triple (synced v) (bindR (patchVmfrStatusPhaseConditions V v VMFRPhaseNew (map (specAt t) newConditions) True) (\<lambda>_. returnR True))
        (\<lambda>_. Inv) Inv" for t
      unfolding newConditions_def
      by (intro then_return triple_conseq [OF patchAt_four])
         (use Inv_on [OF f] Inv_reached [OF shows_on [OF _ f, of SInitialized]] in \<open>auto simp: moving\<close>)
    then show ?thesis
      using quietD [OF pvc_calls(2)]
      by (fastforce simp: triple_def initializePhaseForFileRestore_def synced_def split: prod.splits)
  qed
  let ?fs = "fe_addFinalizer V (fe_addFinalizer V (om_finalizers (vmfr_meta v)) VeleroRestoreCleanupFinalizer) VMFileRestoreFinalizer"
  let ?rest = "\<lambda>requeue. if requeue then returnR True else runSteps [initializePhaseForFileRestore V] v"
  have tail: "triple (synced v) (runSteps [initializePhaseForFileRestore V] v) (\<lambda>_. Inv) Inv"
    by (rule single_step) (rule init)
  show ?thesis
  proof (cases "?fs = om_finalizers (vmfr_meta v)")
    case True
    then show ?thesis using tail by (simp add: ensureFinalizer_def)
  next
    case False
    have "settles (bindR (fe_patch V v m) (\<lambda>_. returnR True))" for m
      by (rule settles_bind) (auto simp: settles_def dest: meta_patch(1))
    then have pre: "triple (synced v) (bindR (fe_patch V v m) (\<lambda>_. returnR True)) (\<lambda>_. Inv) Inv" for m
      by (rule triple_conseq [OF settles_Inv]) (use Inv_on [OF f] in auto)
    have "triple (synced v) (bindR (fe_patch V v m) (\<lambda>_. returnR True)) (\<lambda>q w. Inv w \<and> q) Inv" for m
    proof (rule tripleI)
      fix w q w1
      assume "synced v w" and run: "bindR (fe_patch V v m) (\<lambda>_. returnR True) w = (Inr q, w1)"
      then have "Inv w1" by (rule triple_Inr [OF pre])
      moreover have q using run by (auto elim: bindR_InrE)
      ultimately show "Inv w1 \<and> q" by simp
    qed (rule triple_Inl [OF pre])
    then have "triple (synced v) (ensureFinalizer V v) (\<lambda>q w. Inv w \<and> q) Inv"
      using False by (simp add: ensureFinalizer_def Let_def)
    then have "triple (synced v) (bindR (ensureFinalizer V v) ?rest) (\<lambda>_. Inv) Inv"
      by (rule triple_bind) (auto simp: triple_def)
    then show ?thesis by simp
  qed
qed

lemma settles_deletion:
  "settles (runSteps [handleVeleroRestoreCleanup (re_objects E) oadp, handleResourceCleanup (re_objects E)] v)"
  unfolding runSteps.simps
  by (intro settles_bind settles_restoreCleanup settles_resourceCleanup settles_if settles_quiet quiet_return)

lemma deletion_steps:
  "triple Inv (runSteps [handleVeleroRestoreCleanup (re_objects E) oadp, handleResourceCleanup (re_objects E)] v) (\<lambda>_. Inv) Inv"
  by (rule settles_Inv [OF settles_deletion])

lemma steps_at:
  assumes f: "on s v" and "om_deletion (vmfr_meta v) = None"
  shows "reconcileSteps E createServer v = (if s = SUnset then [ensureFinalizer V, initializePhaseForFileRestore V]
    else if s \<in> {SInitialized, SValidating, SWaitingForDiscovery} then [validateAndDiscoverPVCs V]
    else if stagePhase s = VMFRPhaseInProgress then [executeFileRestoreWorkflow E createServer] else [])"
proof (cases "s = SUnset")
  case True
  then show ?thesis using on_at [OF f] assms(2) by (simp add: reconcileSteps_def Let_def at_stage_def lifeOf_def)
next
  case False
  then obtain c where c: "fe_findCondition V (fs_conditions (vmfr_status v)) ConditionTypeProgressing = Some c"
    "cond_reason c = stageReason s" using reason_at [OF f] by blast
  have "fs_phase (vmfr_status v) = stagePhase s" using on_at [OF f] by (simp add: at_stage_def lifeOf_def)
  then show ?thesis
    using c False assms(2)
    by (cases s) (simp_all add: reconcileSteps_def Let_def isInWorkflowPhase_def workflowReasons_def)
qed

lemma steps_move:
  assumes f: "on s v"
  shows "triple (synced v) (runSteps (reconcileSteps E createServer v) v) (\<lambda>_. Inv) Inv"
proof (cases "om_deletion (vmfr_meta v) = None")
  case True
  show ?thesis
    unfolding steps_at [OF f True]
    using first_steps single_step [of v "validateAndDiscoverPVCs V"] step_validate [OF f]
      single_step [of v "executeFileRestoreWorkflow E createServer"] step_workflow [OF f] Inv_while [OF f] f
    by (auto simp del: runSteps.simps(2) returnR_def)
next
  case False
  have "triple (synced v) (runSteps [handleVeleroRestoreCleanup (re_objects E) (fe_oadpNamespace V), handleResourceCleanup (re_objects E)] v)
      (\<lambda>_. Inv) Inv"
    by (rule triple_conseq [OF deletion_steps]) (use Inv_on [OF f] in auto)
  then show ?thesis using False by (simp add: reconcileSteps_def Let_def del: runSteps.simps(2))
qed

text \<open>A reconciliation that finds the object in a stage outside \<open>stop\<close>.\<close>

definition Live :: "'w \<Rightarrow> bool" where
  "Live w \<longleftrightarrow> (\<forall>l. life w = Some l \<longrightarrow> (\<exists>s. (step_outside stop)\<^sup>*\<^sup>* start s \<and> s \<notin> stop \<and> at_stage (fe_findCondition V) s l))"

lemma Live_start: "life w = Some l \<Longrightarrow> at_stage (fe_findCondition V) start l \<Longrightarrow> start \<notin> stop \<Longrightarrow> Live w"
  by (auto simp: Live_def)

lemma Live_Inv: "Live w \<Longrightarrow> Inv w"
  by (auto simp: Live_def Inv_def split: option.splits)

lemma Live_on: "Live w \<Longrightarrow> synced v w \<Longrightarrow> \<exists>s. on s v"
  unfolding Live_def on_def reached_def synced_def by blast

lemma reconcile_runs: "triple Live (ReconcileVMFR E createServer key) (\<lambda>_. Inv) Inv"
proof -
  have live: "Live w1 = Live w" if "life w1 = life w" for w w1 using that by (simp add: Live_def)
  have get: "triple Live (fe_get V key) (\<lambda>v w. Live w \<and> synced v w) Inv"
  proof (rule tripleI)
    fix w v w1
    assume l: "Live w" and g: "fe_get V key w = (Inr v, w1)"
    show "Live w1 \<and> synced v w1" using l live [OF quietD [OF get_life g]] get_value [OF g] by (simp add: synced_def)
  next
    fix w e w1
    assume l: "Live w" and g: "fe_get V key w = (Inl e, w1)"
    show "Inv w1" using l live [OF quietD [OF get_life g]] by (intro Live_Inv) simp
  qed
  have steps: "triple (\<lambda>w. Live w \<and> synced v w) (runSteps (reconcileSteps E createServer v) v) (\<lambda>_. Inv) Inv" for v
  proof (cases "\<exists>s. on s v")
    case True
    then obtain s where "on s v" by blast
    then show ?thesis by (rule triple_conseq [OF steps_move]) simp_all
  next
    case False
    then show ?thesis using Live_on by (auto simp: triple_def)
  qed
  have "ReconcileVMFR E createServer key = (\<lambda>w. case fe_get V key w of
      (Inl e, w1) \<Rightarrow> (if IsNotFound e then returnR False else failR e) w1
    | (Inr v, w1) \<Rightarrow> runSteps (reconcileSteps E createServer v) v w1)"
    by (rule ext) (simp add: ReconcileVMFR_def split: prod.splits sum.splits)
  moreover have "triple Inv (if IsNotFound e then returnR False else failR e) (\<lambda>_. Inv) Inv" for e
    by (auto intro: triple_return triple_fail)
  ultimately show ?thesis using triple_try [OF get steps] by simp
qed

text \<open>Where a reconciliation can lead.\<close>

lemma reconcile_reaches:
  assumes "life w = Some l" and "at_stage (fe_findCondition V) start l" and "start \<notin> stop" and "ReconcileVMFR E createServer key w = (r, w1)"
  shows "life w1 = None \<or> (\<exists>s' l'. life w1 = Some l' \<and> at_stage (fe_findCondition V) s' l' \<and> (step_outside stop)\<^sup>*\<^sup>* start s')"
proof -
  have "Inv w1"
    using reconcile_runs Live_start [OF assms(1-3)] assms(4) by (cases r) (fastforce simp: triple_def)+
  then show ?thesis by (auto simp: Inv_def split: option.splits)
qed

text \<open>An object under deletion keeps its phase and conditions until it is gone.\<close>

lemma reconcile_deleted:
  assumes "fe_get V key w = (Inr v, w0)" and "om_deletion (vmfr_meta v) \<noteq> None" and "ReconcileVMFR E createServer key w = (r, w1)"
  shows "life w1 = life w \<or> life w1 = None"
proof -
  have "runSteps (reconcileSteps E createServer v) v w0 = (r, w1)" using assms(1,3) by (simp add: ReconcileVMFR_def)
  then have "life w1 = life w0 \<or> life w1 = None"
    using assms(2) settles_deletion [of "fe_oadpNamespace V" v] unfolding settles_def
    by (simp add: reconcileSteps_def Let_def del: runSteps.simps(2))
  then show ?thesis using quietD [OF get_life assms(1)] by simp
qed

end

end
