(* ===== verification/File_Server_Lifecycle.thy ===== *)
theory File_Server_Lifecycle
  imports File_Server_Create Workflow_Lifecycle
begin

text \<open>
  The creation of the file server meets the contract the workflow relies on, so that every fact of the workflow
  holds for the controller as a whole. \<open>file_server\<close> adds the calls of \<open>createFileServerResources\<close> to the contract of
  the API server.
\<close>

locale file_server = vmfr_api "se_restore S" life key
  for S :: "'w server_env" and life :: "'w \<Rightarrow> life option" and key :: namespaced_name +
  assumes create_calls: "quiet life (se_createPod S p)" "quiet life (se_createService S s)" "quiet life (se_createRoute S r)"
begin

lemma quiet_createUnlessExists: "quiet life m \<Longrightarrow> quiet life (createUnlessExists msg obj m)"
  unfolding quiet_def createUnlessExists_def by (fastforce split: prod.splits sum.splits if_splits)

lemma quiet_ofResult: "quiet life (ofResult msg r)"
  by (simp add: ofResult_def split: sum.splits)

lemma quiet_resolveMount: "quiet life (resolveMount (se_restore S) ns m acc)"
proof (rule quietI)
  fix w r w1
  assume run: "resolveMount (se_restore S) ns m acc w = (r, w1)"
  obtain c w2 where c: "findRestoredPVCName (se_restore S) ns (mt_restoreName m) (mt_pvcName m) w = (c, w2)" by fastforce
  show "life w1 = life w"
    using run c quietD [OF quiet_findRestored c] by (auto simp: resolveMount_def split: sum_cases dest!: callD)
qed

lemma quiet_configs: "quiet life (sshConfig (se_restore S) v)" "quiet life (fileBrowserConfig (se_restore S) v)"
  using quietD [OF quiet_findSecret]
  by (auto simp: quiet_def sshConfig_def fileBrowserConfig_def split: sum_cases)

lemma quiet_routes: "quiet life (createRoutesIfRequested S v svc ns)"
  unfolding createRoutesIfRequested_def
  by (auto intro!: quiet_bind quiet_createUnlessExists quiet_ofResult create_calls split: option.splits)

lemma serving_value: "updateFileServingInfo E v s w = ((e, v1), w1) \<Longrightarrow> lifeOf v1 = lifeOf v"
  unfolding updateFileServingInfo_def Let_def by (auto simp: setServingInfo_def lifeOf_def split: if_splits prod.splits)

lemma publish_quiet: "quiet life (publishServer S v s)"
proof (rule quietI)
  fix w r w1
  assume run: "publishServer S v s w = (r, w1)"
  obtain x w2 where x: "createRoutesIfRequested S v (om_name (fv_meta s)) (restoreNs v) w = (x, w2)" by fastforce
  obtain y w3 where y: "updateFileServingInfo (se_restore S) v (serviceOf s) w2 = (y, w3)" by fastforce
  show "life w1 = life w"
    using run quietD [OF quiet_routes x] quietD [OF quiet_updateServing y]
    by (auto simp: publishServer_def x y split: prod.splits)
qed

lemma publish_value: "publishServer S v s w = (Inr v1, w1) \<Longrightarrow> lifeOf v1 = lifeOf v"
  unfolding publishServer_def Let_def by (auto split: prod.splits dest: serving_value)

lemma createServer_quiet: "quiet life (createFileServerResources S v)"
  unfolding createFileServerResources_def Let_def
  by (auto intro!: quiet_bind quiet_foldR quiet_resolveMount quiet_configs quiet_ofResult quiet_createUnlessExists create_calls
      publish_quiet)

lemma createServer_value: "createFileServerResources S v w = (Inr v1, w1) \<Longrightarrow> lifeOf v1 = lifeOf v"
  unfolding createFileServerResources_def Let_def
  by (auto split: if_splits elim!: bindR_InrE dest: publish_value)

end

sublocale file_server \<subseteq> server: vmfr_server "se_restore S" "createFileServerResources S" life key
  by unfold_locales (rule createServer_quiet, rule createServer_value)

text \<open>Reconciliations without a cut, and cut at the two stages no reconciliation jumps over.\<close>

sublocale file_server \<subseteq> run: vmfr_run "se_restore S" "createFileServerResources S" life key start "{}" for start
  by unfold_locales simp

sublocale file_server \<subseteq> toRestores: vmfr_run "se_restore S" "createFileServerResources S" life key start "{SWaitingForRestores}" for start
  by unfold_locales simp

sublocale file_server \<subseteq> toServer: vmfr_run "se_restore S" "createFileServerResources S" life key start "{SCredentialsReady}" for start
  by unfold_locales simp

end
