(* ===== verification/Reference_Cluster.thy ===== *)
theory Reference_Cluster
  imports File_Server_Lifecycle Cleanup_Facts Backup_Reader_Facts
begin

text \<open>
  A reference cluster on which the whole file restore controller runs: one file restore and one discovery, the
  objects the controller reads and writes, and a Velero that completes every restore at once. It meets the contract
  \<open>file_server\<close> and serves the witnesses.
\<close>

record cluster =
  kc_vmfr :: "vmfr option"
  kc_discovery :: "vmbd option"
  kc_restores :: "velero_restore list"
  kc_plain :: "(object_kind \<times> object_meta) list"
  kc_bindings :: "role_binding list"
  kc_claims :: "claim list"
  kc_secrets :: "secret list"
  kc_services :: "file_service list"
  kc_routes :: "file_route list"
  kc_pods :: "pod list"
  kc_clock :: time
  kc_restorePhase :: string

section \<open>Objects by kind\<close>

definition metasOf :: "object_kind \<Rightarrow> cluster \<Rightarrow> object_meta list" where
  "metasOf k w = (case k of
     KPod \<Rightarrow> map pod_meta (kc_pods w) | KService \<Rightarrow> map fv_meta (kc_services w) | KRoute \<Rightarrow> map fr_meta (kc_routes w)
   | KPVC \<Rightarrow> map cl_meta (kc_claims w) | KSecret \<Rightarrow> map sec_meta (kc_secrets w) | KRoleBinding \<Rightarrow> map rb_meta (kc_bindings w)
   | KRestore \<Rightarrow> map vr_meta (kc_restores w) | _ \<Rightarrow> map snd (filter (\<lambda>x. fst x = k) (kc_plain w)))"

definition dropKind :: "object_kind \<Rightarrow> (object_meta \<Rightarrow> bool) \<Rightarrow> cluster \<Rightarrow> cluster" where
  "dropKind k P w = (case k of
     KPod \<Rightarrow> w \<lparr>kc_pods := filter (\<lambda>x. \<not> P (pod_meta x)) (kc_pods w)\<rparr>
   | KService \<Rightarrow> w \<lparr>kc_services := filter (\<lambda>x. \<not> P (fv_meta x)) (kc_services w)\<rparr>
   | KRoute \<Rightarrow> w \<lparr>kc_routes := filter (\<lambda>x. \<not> P (fr_meta x)) (kc_routes w)\<rparr>
   | KPVC \<Rightarrow> w \<lparr>kc_claims := filter (\<lambda>x. \<not> P (cl_meta x)) (kc_claims w)\<rparr>
   | KSecret \<Rightarrow> w \<lparr>kc_secrets := filter (\<lambda>x. \<not> P (sec_meta x)) (kc_secrets w)\<rparr>
   | KRoleBinding \<Rightarrow> w \<lparr>kc_bindings := filter (\<lambda>x. \<not> P (rb_meta x)) (kc_bindings w)\<rparr>
   | KRestore \<Rightarrow> w \<lparr>kc_restores := filter (\<lambda>x. \<not> P (vr_meta x)) (kc_restores w)\<rparr>
   | _ \<Rightarrow> w \<lparr>kc_plain := filter (\<lambda>x. \<not> (fst x = k \<and> P (snd x))) (kc_plain w)\<rparr>)"

definition kc_get :: "object_kind \<Rightarrow> namespaced_name \<Rightarrow> (cluster, object_meta) io" where
  "kc_get k key w = (case find (\<lambda>m. key_of m = key) (metasOf k w) of None \<Rightarrow> (Inl absent, w) | Some m \<Rightarrow> (Inr m, w))"

definition kc_list :: "object_kind \<Rightarrow> string \<Rightarrow> strmap \<Rightarrow> (cluster, object_meta list) io" where
  "kc_list k ns sel w = (Inr (filter (\<lambda>m. om_namespace m = ns \<and> selected sel m) (metasOf k w)), w)"

definition kc_delete :: "object_kind \<Rightarrow> object_meta \<Rightarrow> (cluster, unit) io" where
  "kc_delete k m w = (if find (\<lambda>x. key_of x = key_of m) (metasOf k w) = None then (Inl absent, w)
     else (Inr (), dropKind k (\<lambda>x. key_of x = key_of m) w))"

text \<open>Typed reads, listings and creations; a generated name ends in the number of objects of the kind.\<close>

definition readOf :: "('o \<Rightarrow> object_meta) \<Rightarrow> (cluster \<Rightarrow> 'o list) \<Rightarrow> namespaced_name \<Rightarrow> (cluster, 'o) io" where
  "readOf meta objs key w = (case find (\<lambda>x. key_of (meta x) = key) (objs w) of None \<Rightarrow> (Inl absent, w) | Some x \<Rightarrow> (Inr x, w))"

definition listOf :: "('o \<Rightarrow> object_meta) \<Rightarrow> (cluster \<Rightarrow> 'o list) \<Rightarrow> string \<Rightarrow> strmap \<Rightarrow> (cluster, 'o list) io" where
  "listOf meta objs ns sel w = (Inr (filter (\<lambda>x. om_namespace (meta x) = ns \<and> selected sel (meta x)) (objs w)), w)"

definition present :: go_error where
  "present = \<lparr>err_msg = ''already exists'', err_reason = ReasonAlreadyExists\<rparr>"

definition finalName :: "nat \<Rightarrow> object_meta \<Rightarrow> object_meta" where
  "finalName n m = (if om_name m = [] then m \<lparr>om_name := om_generateName m @ decimal n\<rparr> else m)"

definition addTo :: "('o \<Rightarrow> object_meta) \<Rightarrow> (cluster \<Rightarrow> 'o list) \<Rightarrow> ('o list \<Rightarrow> cluster \<Rightarrow> cluster) \<Rightarrow> 'o \<Rightarrow> (cluster, 'o) io" where
  "addTo meta objs store x w = (if find (\<lambda>y. key_of (meta y) = key_of (meta x)) (objs w) \<noteq> None then (Inl present, w)
     else (Inr x, store (objs w @ [x]) w))"

definition addPlain :: "object_kind \<Rightarrow> object_meta \<Rightarrow> (cluster, object_meta) io" where
  "addPlain k m w = (if find (\<lambda>x. key_of x = key_of m) (metasOf k w) \<noteq> None then (Inl present, w)
     else (Inr m, w \<lparr>kc_plain := kc_plain w @ [(k, m)]\<rparr>))"

section \<open>The file restore\<close>

text \<open>A merge patch stores the fields in which the modified object differs from the baseline.\<close>

definition patchField :: "('s \<Rightarrow> 'f) \<Rightarrow> 's \<Rightarrow> 's \<Rightarrow> 's \<Rightarrow> 'f" where
  "patchField f b m s = (if f m = f b then f s else f m)"

definition patchStatusOf :: "vmfr_status \<Rightarrow> vmfr_status \<Rightarrow> vmfr_status \<Rightarrow> vmfr_status" where
  "patchStatusOf b m s = \<lparr>fs_phase = patchField fs_phase b m s, fs_observedGeneration = patchField fs_observedGeneration b m s,
     fs_conditions = patchField fs_conditions b m s, fs_fileServingInfo = patchField fs_fileServingInfo b m s,
     fs_pvcRestores = patchField fs_pvcRestores b m s, fs_createdNamespace = patchField fs_createdNamespace b m s\<rparr>"

definition withVMFR :: "vmfr \<Rightarrow> (vmfr \<Rightarrow> vmfr) \<Rightarrow> (cluster, vmfr) io" where
  "withVMFR m f w = (case kc_vmfr w of
     Some v \<Rightarrow> if key_of (vmfr_meta v) = key_of (vmfr_meta m) then (Inr (f v), w \<lparr>kc_vmfr := Some (f v)\<rparr>) else (Inl absent, w)
   | None \<Rightarrow> (Inl absent, w))"

definition kc_patchMeta :: "vmfr \<Rightarrow> vmfr \<Rightarrow> (cluster, vmfr) io" where
  "kc_patchMeta b m w = (let (r, w1) = withVMFR m (\<lambda>v. v \<lparr>vmfr_meta := (vmfr_meta v) \<lparr>om_finalizers := om_finalizers (vmfr_meta m)\<rparr>\<rparr>) w
     in case r of Inl e \<Rightarrow> (Inl e, w1)
        | Inr v \<Rightarrow> (Inr v, if om_deletion (vmfr_meta v) \<noteq> None \<and> om_finalizers (vmfr_meta v) = [] then w1 \<lparr>kc_vmfr := None\<rparr> else w1))"

definition kc_getVMFR :: "namespaced_name \<Rightarrow> (cluster, vmfr) io" where
  "kc_getVMFR key w = (case kc_vmfr w of
     Some v \<Rightarrow> if key_of (vmfr_meta v) = key then (Inr v, w) else (Inl absent, w) | None \<Rightarrow> (Inl absent, w))"

section \<open>Velero\<close>

text \<open>A new restore has the phase the cluster is set to; it brings a claim for each UID it selects.\<close>

definition restoredClaim :: "velero_restore \<Rightarrow> string \<Rightarrow> claim" where
  "restoredClaim r uid = \<lparr>cl_meta = empty_meta \<lparr>om_name := ''restored-'' @ uid, om_namespace := snd (hd (vr_namespaceMapping r)),
       om_uid := ''new-'' @ uid, om_labels := restoreSelector (vr_name r) @ [(VMFROriginalPVCNameAnnotation, ''disk'')]\<rparr>,
     cl_phase = ''Bound'', cl_volumeMode = Some ''Block''\<rparr>"

definition kc_createRestore :: "velero_restore \<Rightarrow> (cluster, velero_restore) io" where
  "kc_createRestore r w = (let c = r \<lparr>vr_meta := finalName (length (kc_restores w)) (vr_meta r), vr_phase := kc_restorePhase w\<rparr>
     in (Inr c, w \<lparr>kc_restores := kc_restores w @ [c], kc_claims := kc_claims w @ map (restoredClaim c) (vr_pvcUIDs c)\<rparr>))"

definition kc_now :: "cluster \<Rightarrow> time \<times> cluster" where
  "kc_now w = (kc_clock w, w \<lparr>kc_clock := kc_clock w + 1\<rparr>)"

section \<open>The environment\<close>

definition kc_vmfrEnv :: "cluster vmfr_env" where
  "kc_vmfrEnv = \<lparr>fe_oadpNamespace = ''adp'', fe_get = kc_getVMFR,
     fe_getDiscovery = (\<lambda>k w. (case kc_discovery w of None \<Rightarrow> (Inl absent, w) | Some d \<Rightarrow> (Inr d, w))),
     fe_patchStatus = (\<lambda>b m. withVMFR m (\<lambda>v. v \<lparr>vmfr_status := patchStatusOf (vmfr_status b) (vmfr_status m) (vmfr_status v)\<rparr>)),
     fe_updateStatus = (\<lambda>m. withVMFR m (\<lambda>v. v \<lparr>vmfr_status := vmfr_status m\<rparr>)), fe_patch = kc_patchMeta,
     fe_listRestores = listOf vr_meta kc_restores, fe_createRestore = kc_createRestore,
     fe_setCondition = ref_set_condition, fe_findCondition = ref_find_condition,
     fe_addFinalizer = (\<lambda>fs f. if f \<in> set fs then fs else fs @ [f]), fe_uidOrder = rev,
     fe_pvc = \<lparr>pe_getBackup = (\<lambda>k w. (Inr demo_backup, w)), pe_reader = Some (contentsReader demo_downloads), pe_now = kc_now,
       pe_formatSize = (\<lambda>n. decimal (nat n)), pe_nameOrder = rev, pe_finishOrder = rev, pe_mapOrder = rev\<rparr>\<rparr>"

definition kc_objectEnv :: "cluster object_env" where
  "kc_objectEnv = \<lparr>oe_get = kc_get, oe_list = kc_list, oe_delete = kc_delete,
     oe_listAllVMFRs = (\<lambda>w. (Inr (case kc_vmfr w of None \<Rightarrow> [] | Some v \<Rightarrow> [v]), w)), oe_probeRoutes = (\<lambda>w. (Inr (), w)),
     oe_patchVMFR = kc_patchMeta, oe_containsFinalizer = (\<lambda>fs f. f \<in> set fs),
     oe_removeFinalizer = (\<lambda>fs f. filter (\<lambda>g. g \<noteq> f) fs), oe_nameOrder = rev\<rparr>"

definition kc_crypto :: "(string, string, string) crypto" where
  "kc_crypto = \<lparr>GenerateKey = Inr (''pub'', ''priv''), MarshalPKCS8 = Inr, PemEncode = (\<lambda>t s. t @ s), NewPublicKey = Inr,
     MarshalAuthorizedKey = (\<lambda>k. ''ssh-ed25519 '' @ k)\<rparr>"

definition kc_restoreEnv :: "cluster restore_env" where
  "kc_restoreEnv = \<lparr>re_vmfr = kc_vmfrEnv, re_objects = kc_objectEnv, re_createNamespace = addPlain KNamespace,
     re_createServiceAccount = addPlain KServiceAccount, re_readServiceAccount = kc_get KServiceAccount,
     re_getRoleBinding = readOf rb_meta kc_bindings, re_createRoleBinding = addTo rb_meta kc_bindings (\<lambda>x. kc_bindings_update (\<lambda>_. x)),
     re_readRoleBinding = readOf rb_meta kc_bindings, re_listClaims = listOf cl_meta kc_claims, re_getClaim = readOf cl_meta kc_claims,
     re_getSecret = readOf sec_meta kc_secrets, re_listSecrets = listOf sec_meta kc_secrets,
     re_createSecret = (\<lambda>s w. addTo sec_meta kc_secrets (\<lambda>x. kc_secrets_update (\<lambda>_. x))
       (stored_secret (s \<lparr>sec_meta := finalName (length (kc_secrets w)) (sec_meta s)\<rparr>)) w),
     re_listServices = (\<lambda>ns sel w. (Inr (map serviceOf (filter (\<lambda>x. om_namespace (fv_meta x) = ns \<and> selected sel (fv_meta x)) (kc_services w))), w)),
     re_getRoute = (\<lambda>k w. (case find (\<lambda>x. key_of (fr_meta x) = k) (kc_routes w) of None \<Rightarrow> (Inl absent, w)
       | Some r \<Rightarrow> (Inr \<lparr>rt_meta = fr_meta r, rt_host = fr_subdomain r @ ''.apps'', rt_ingressHosts = []\<rparr>, w))),
     re_listDataDownloads = (\<lambda>ns sel w. (Inr [], w)), re_patchDataDownload = (\<lambda>d n w. (Inr (), w)),
     re_parseKey = (\<lambda>s. if hasPrefix s ''ssh-ed25519'' then Inr ''ssh-ed25519'' else Inl (errorf ''ssh: no key found'')),
     re_crypto = (\<lambda>w. (kc_crypto, w)), re_randomBytes = (\<lambda>w. (Inr (replicate 32 7), w))\<rparr>"

definition kc_env :: "cluster server_env" where
  "kc_env = \<lparr>se_restore = kc_restoreEnv, se_createPod = addTo pod_meta kc_pods (\<lambda>x. kc_pods_update (\<lambda>_. x)),
     se_createService = addTo fv_meta kc_services (\<lambda>x. kc_services_update (\<lambda>_. x)),
     se_createRoute = addTo fr_meta kc_routes (\<lambda>x. kc_routes_update (\<lambda>_. x)), se_zone = (\<lambda>_. 0)\<rparr>"

definition kc_life :: "namespaced_name \<Rightarrow> cluster \<Rightarrow> life option" where
  "kc_life key w = (case kc_vmfr w of Some v \<Rightarrow> if key_of (vmfr_meta v) = key then Some (lifeOf v) else None | None \<Rightarrow> None)"

section \<open>The contract\<close>

lemmas kc_envs = kc_env_def kc_restoreEnv_def kc_objectEnv_def kc_vmfrEnv_def
lemmas kc_ops = kc_life_def kc_getVMFR_def withVMFR_def kc_patchMeta_def kc_get_def kc_list_def kc_delete_def dropKind_def readOf_def listOf_def
  addTo_def addPlain_def kc_createRestore_def kc_now_def

lemma kc_quiet: "kc_vmfr w1 = kc_vmfr w \<Longrightarrow> kc_life key w1 = kc_life key w"
  by (simp add: kc_life_def)

lemma kc_reader_quiet: "quiet f (readerExtractVM demo_downloads b n ns)" "quiet f (readerFetchPVC demo_downloads b n ns)"
  by (auto simp: quiet_def readerExtractVM_def readerFetchPVC_def downloadVMResource_def FetchBackupMetadata_def demo_downloads_def
      split: sum.splits option.splits if_splits)

lemma kc_fields [simp]:
  "fe_setCondition (re_vmfr (se_restore kc_env)) = ref_set_condition" "fe_findCondition (re_vmfr (se_restore kc_env)) = ref_find_condition"
  "pe_reader (fe_pvc (re_vmfr (se_restore kc_env))) = Some (contentsReader demo_downloads)"
  by (simp_all add: kc_envs)

lemma kc_withVMFR:
  assumes "withVMFR m f w = (r, w1)"
  shows "(\<exists>e. r = Inl e \<and> w1 = w) \<or> (\<exists>v. kc_vmfr w = Some v \<and> key_of (vmfr_meta v) = key_of (vmfr_meta m) \<and> r = Inr (f v)
    \<and> w1 = w \<lparr>kc_vmfr := Some (f v)\<rparr>)"
  using assms by (auto simp: withVMFR_def split: option.splits if_splits)

lemma kc_status_stored:
  assumes "withVMFR m (\<lambda>v. v \<lparr>vmfr_status := g v\<rparr>) w = (Inr a, w1)" and "kc_life key w = Some l"
  shows "\<exists>v. l = lifeOf v \<and> lifeOf a = lifeOf (v \<lparr>vmfr_status := g v\<rparr>) \<and> kc_life key w1 = Some (lifeOf a)"
  using kc_withVMFR [OF assms(1)] assms(2) by (auto simp: kc_life_def split: if_splits)

lemma kc_patch_ok:
  assumes "withVMFR m (\<lambda>v. v \<lparr>vmfr_status := patchStatusOf (vmfr_status b) (vmfr_status m) (vmfr_status v)\<rparr>) w = (Inr a, w1)"
    and "kc_life key w = Some (lifeOf b)"
  shows "kc_life key w1 = Some (lifeOf m) \<and> lifeOf a = lifeOf m"
  using kc_status_stored [OF assms] by (auto simp: lifeOf_def patchStatusOf_def patchField_def split: if_splits)

lemma kc_patchMeta_life: "kc_patchMeta b m w = (r, w1) \<Longrightarrow> kc_life key w1 = kc_life key w \<or> kc_life key w1 = None"
  by (auto simp: kc_patchMeta_def withVMFR_def kc_life_def lifeOf_def Let_def key_of_def split: option.splits if_splits)

lemma kc_addTo_quiet: "(\<And>x w. kc_vmfr (store x w) = kc_vmfr w) \<Longrightarrow> quiet (kc_life key) (addTo meta objs store x)"
  by (auto simp: quiet_def addTo_def intro!: kc_quiet split: if_splits)

lemma kc_reads_quiet: "quiet f (readOf meta objs k)" "quiet f (listOf meta objs ns sel)" "quiet f (kc_get kd k)" "quiet f (kc_list kd ns sel)"
  by (auto simp: quiet_def readOf_def listOf_def kc_get_def kc_list_def split: option.splits)

lemma kc_writes_quiet: "quiet (kc_life key) (addPlain kd m)" "quiet (kc_life key) (kc_delete kd m)" "quiet (kc_life key) (kc_createRestore r)"
  "quiet (kc_life key) kc_now"
  by (auto simp: quiet_def addPlain_def kc_delete_def dropKind_def kc_createRestore_def kc_now_def Let_def
      intro!: kc_quiet split: if_splits object_kind.splits)

lemma quiet_observe: "quiet f (\<lambda>w. (g w, w))"
  by (simp add: quiet_def)

lemma kc_other_quiet: "quiet (kc_life key) (kc_getVMFR k)"
  "quiet (kc_life key) (fe_getDiscovery (re_vmfr (se_restore kc_env)) k)" "quiet (kc_life key) (re_listServices (se_restore kc_env) ns sel)"
  "quiet (kc_life key) (re_getRoute (se_restore kc_env) k)" "quiet (kc_life key) (re_createSecret (se_restore kc_env) s)"
  by (auto simp: quiet_def kc_getVMFR_def kc_envs addTo_def intro!: kc_quiet split: option.splits if_splits)

interpretation cluster: file_server kc_env "kc_life key" key for key
proof unfold_locales
  fix v w w1
  assume "fe_get (re_vmfr (se_restore kc_env)) key w = (Inr v, w1)"
  then show "kc_life key w1 = Some (lifeOf v)" by (auto simp: kc_envs kc_getVMFR_def kc_life_def split: option.splits if_splits)
next
  fix b m w a w1
  assume "fe_patchStatus (re_vmfr (se_restore kc_env)) b m w = (Inr a, w1)" "kc_life key w = Some (lifeOf b)"
  then show "kc_life key w1 = Some (lifeOf m) \<and> lifeOf a = lifeOf m" by (intro kc_patch_ok) (simp_all add: kc_envs)
next
  fix v w a w1
  assume r: "fe_updateStatus (re_vmfr (se_restore kc_env)) v w = (Inr a, w1)" "kc_life key w = Some (lifeOf v)"
  then have "withVMFR v (\<lambda>u. u \<lparr>vmfr_status := vmfr_status v\<rparr>) w = (Inr a, w1)" by (simp add: kc_envs)
  from kc_status_stored [OF this r(2)] show "kc_life key w1 = Some (lifeOf v) \<and> lifeOf a = lifeOf v" by (auto simp: lifeOf_def)
next
  fix b m w w1 and rp :: "vmfr result"
  show "fe_patch (re_vmfr (se_restore kc_env)) b m w = (rp, w1) \<Longrightarrow> kc_life key w1 = kc_life key w \<or> kc_life key w1 = None"
    "oe_patchVMFR (re_objects (se_restore kc_env)) b m w = (rp, w1) \<Longrightarrow> kc_life key w1 = kc_life key w \<or> kc_life key w1 = None"
    by (simp_all add: kc_envs kc_patchMeta_life)
next
  fix k ns r sel n1 n2 kd om rb s dd pn p
  let ?E = "se_restore kc_env"
  show "quiet (kc_life key) (fe_getDiscovery (re_vmfr ?E) k)" "quiet (kc_life key) (re_listServices ?E ns sel)"
    "quiet (kc_life key) (re_getRoute ?E k)" "quiet (kc_life key) (re_createSecret ?E s)"
    by (rule kc_other_quiet)+
qed (auto simp: kc_envs refcond.find_nil refcond.view_set contentsReader_def quiet_observe
      intro: kc_reads_quiet kc_writes_quiet kc_reader_quiet kc_addTo_quiet kc_other_quiet dest: kc_withVMFR)

section \<open>Example clusters\<close>

definition demo_file_restore :: "file_access_spec \<Rightarrow> vmfr" where
  "demo_file_restore access = \<lparr>vmfr_apiVersion = ''oadp.openshift.io/v1alpha1'', vmfr_kind = ''VirtualMachineFileRestore'',
     vmfr_meta = empty_meta \<lparr>om_name := ''fr'', om_namespace := ''adp'', om_uid := ''1a2b''\<rparr>,
     vmfr_spec = \<lparr>BackupsDiscoveryRef = ''d'', SelectedBackups = [], RestoreNamespace = [], NamespacePrefix = [], FileAccess = Some access\<rparr>,
     vmfr_status = \<lparr>fs_phase = VMFRPhaseUnset, fs_observedGeneration = 0, fs_conditions = [], fs_fileServingInfo = None,
       fs_pvcRestores = [], fs_createdNamespace = []\<rparr>\<rparr>"

definition fresh_cluster :: "string \<Rightarrow> file_access_spec \<Rightarrow> cluster" where
  "fresh_cluster phase access = \<lparr>kc_vmfr = Some (demo_file_restore access),
     kc_discovery = Some \<lparr>vmbd_meta = empty_meta \<lparr>om_name := ''d'', om_namespace := ''adp''\<rparr>,
       vmbd_spec = \<lparr>VirtualMachineName = ''vm'', VirtualMachineNamespace = ''vms'', StartTime = None, EndTime = None, RequestedBackups = []\<rparr>,
       vmbd_status = empty_status \<lparr>vs_phase := VMBDPhaseCompleted, vs_validBackups := [plain_info ''b1'' ''adp'' (Some 1761264000000000000)]\<rparr>\<rparr>,
     kc_restores = [], kc_plain = [], kc_bindings = [], kc_claims = [], kc_secrets = [], kc_services = [], kc_routes = [], kc_pods = [],
     kc_clock = 1761300000000000000, kc_restorePhase = phase\<rparr>"

definition demo_request :: namespaced_name where
  "demo_request = \<lparr>nn_namespace = ''adp'', nn_name = ''fr''\<rparr>"

definition browser_access :: "bool \<Rightarrow> file_access_spec" where
  "browser_access expose = \<lparr>fa_ssh = Some \<lparr>ssh_username = [], ssh_publicKey = [], ssh_secretRef = None\<rparr>,
     fa_fileBrowser = Some \<lparr>fb_secretRef = None, fb_exposeExternally = expose\<rparr>\<rparr>"

end
