(* ===== verification/Workflow_Progress.thy ===== *)
theory Workflow_Progress
  imports File_Server_Lifecycle
begin

text \<open>
  When the controller lets go of a file restore. A reconciliation ends with an error or a request to requeue, and is
  then repeated, or with neither. The lemmas of this theory say that it ends with neither only when the server
  stores a final stage.
\<close>

definition finalStages :: "stage set" where
  "finalStages = {SCompleted, SSomeFailed, SPartlyInvalid, SInvalid, SAllFailed}"

context vmfr_run
begin

text \<open>The result of a step: a requeue, or a final stage on the server.\<close>

definition rests :: "bool \<Rightarrow> 'w \<Rightarrow> bool" where
  "rests q w \<longleftrightarrow> q \<or> (\<exists>v s. synced v w \<and> reached s v \<and> s \<in> finalStages)"

abbreviation anyway :: "'w \<Rightarrow> bool" where "anyway \<equiv> \<lambda>_. True"

text \<open>Steps that never end without a requeue or an error.\<close>

definition requeues :: "('w, bool) io \<Rightarrow> bool" where
  "requeues m \<longleftrightarrow> (\<forall>w q w1. m w = (Inr q, w1) \<longrightarrow> q)"

lemma requeues_rests: "requeues m \<Longrightarrow> triple P m rests anyway"
  by (rule tripleI) (auto simp: requeues_def rests_def)

lemma requeues_try: "(\<And>x. requeues (g x)) \<Longrightarrow> (\<And>e. requeues (h e))
  \<Longrightarrow> requeues (\<lambda>w. case m w of (Inl e, w1) \<Rightarrow> h e w1 | (Inr x, w1) \<Rightarrow> g x w1)"
  unfolding requeues_def by (fastforce split: prod.splits sum.splits)

lemma requeues_bind: "(\<And>x. requeues (g x)) \<Longrightarrow> requeues (bindR m g)"
  unfolding bindR_def [abs_def] by (rule requeues_try) (auto simp: requeues_def)

lemma requeues_let: "(\<And>x. requeues (g x)) \<Longrightarrow> requeues (\<lambda>w. let (x, w1) = m w in g x w1)"
  unfolding requeues_def by (fastforce split: prod.splits)

lemma requeues_True: "requeues (returnR True)" and requeues_fail: "requeues (failR e)"
  by (simp_all add: requeues_def)

lemma requeues_failValidation: "requeues (failValidation V v r m)" "requeues (failPartialValidation V v r m)"
  by (simp_all add: failValidation_def failPartialValidation_def requeues_bind requeues_fail del: failR_def)

lemmas requeue_rules = requeues_bind requeues_try requeues_True requeues_fail requeues_failValidation

lemma requeues_namespace: "requeues (prepareNamespaceStep E v)"
proof -
  have "prepareNamespaceStep E v = (\<lambda>w. case ensureRestoreNamespace E v w of
      (Inl e, w1) \<Rightarrow> failValidation V v ''NamespaceCreationFailed'' (''Failed to create/validate restore namespace: '' @ err_msg e) w1
    | (Inr x, w1) \<Rightarrow> (case x of (ns, a) \<Rightarrow> bindR (patchWith V a VMFRPhaseInProgress (namespaceReady ns) False) (\<lambda>_. returnR True)) w1)"
    by (rule ext) (simp add: prepareNamespaceStep_def split: prod.splits sum.splits)
  then show ?thesis by (auto intro!: requeue_rules split: prod.splits simp del: returnR_def)
qed

lemma requeues_createRestores: "requeues (createRestoresStep E v)"
proof -
  have "requeues (bindR (patchWith V a VMFRPhaseInProgress waitingForRestores False) (\<lambda>_. returnR True))" for a
    by (intro requeue_rules)
  moreover have "requeues (\<lambda>w. case createVeleroRestores V v w of
      (Inl e, w1) \<Rightarrow> failValidation V v ''RestoreCreationFailed'' (''Failed to create Velero Restores: '' @ err_msg e) w1
    | (Inr v1, w1) \<Rightarrow> bindR (patchWith V v1 VMFRPhaseInProgress waitingForRestores False) (\<lambda>_. returnR True) w1)"
    by (intro requeue_rules)
  ultimately show ?thesis
    unfolding createRestoresStep_def [abs_def] Let_def
    by (cases "checkVeleroRestoresAlreadyCreated (fs_pvcRestores (vmfr_status v))") simp_all
qed

lemma requeues_credentials: "requeues (prepareCredentialsStep E v)"
  unfolding prepareCredentialsStep_def [abs_def] by (intro requeue_rules)

lemma requeues_discover: "requeues (discoverPVCs V v d bs)"
proof -
  have "requeues (decideAvailability V a n)" for a n
    unfolding decideAvailability_def Let_def
    by (cases "judge (availabilityOf (fs_pvcRestores (vmfr_status a)))") (auto intro!: requeue_rules simp del: returnR_def)
  then have "requeues (\<lambda>w. case processDiscoveryResults V v rs w of
      (Inl e, w2) \<Rightarrow> failValidation V v ''ProcessDiscoveryFailed'' (err_msg e) w2
    | (Inr v1, w2) \<Rightarrow> decideAvailability V v1 (length bs) w2)" for rs
    by (intro requeue_rules)
  then show ?thesis unfolding discoverPVCs_def [abs_def] by (rule requeues_let)
qed

lemma requeues_validate: "requeues (validateAndDiscoverPVCs V v)"
  unfolding validateAndDiscoverPVCs_def
  by (auto intro!: requeue_rules requeues_discover split: option.splits simp del: returnR_def)

lemma requeues_first: "requeues (runSteps [ensureFinalizer V, initializePhaseForFileRestore V] v)"
proof -
  have init: "requeues (initializePhaseForFileRestore V v)"
    unfolding initializePhaseForFileRestore_def [abs_def] by (intro requeues_let requeue_rules)
  have "requeues (bindR (initializePhaseForFileRestore V v) (\<lambda>q. if q then returnR True else returnR False))"
    using init unfolding requeues_def by (fastforce elim: bindR_InrE split: if_splits)
  then show ?thesis
    unfolding runSteps.simps by (intro requeues_bind) (auto simp: requeues_True simp del: returnR_def)
qed

section \<open>Steps that may let go\<close>

lemma rests_final: "reached s v \<Longrightarrow> s \<in> finalStages \<Longrightarrow> synced v w \<Longrightarrow> rests q w"
  by (auto simp: rests_def)

text \<open>A patch after which the step requeues or the stage is final.\<close>

lemma bind_rests:
  assumes "triple (synced v) m (\<lambda>x w. synced x w \<and> reached t x) F" and "q \<or> t \<in> finalStages"
  shows "triple (synced v) (bindR m (\<lambda>_. returnR q)) rests anyway"
proof (rule triple_bind)
  show "triple (synced v) m (\<lambda>x w. synced x w \<and> reached t x) anyway" by (rule triple_conseq [OF assms(1)]) simp_all
  show "triple (\<lambda>w. synced x w \<and> reached t x) (returnR q) rests anyway" for x
    using assms(2) by (intro triple_return) (auto simp: rests_def)
qed

lemma patch_rests: "on s v \<Longrightarrow> moves s t ph cs \<Longrightarrow> q \<or> t \<in> finalStages
  \<Longrightarrow> triple (synced v) (bindR (patchWith V v ph cs g) (\<lambda>_. returnR q)) rests anyway"
  by (rule bind_rests [OF patch_moves])

lemma rests_finish: "on SWaitingForRestores v \<Longrightarrow> triple (synced v) (finishRestores E v m) rests anyway"
proof -
  assume f: "on SWaitingForRestores v"
  obtain ph cs where o: "restoreOutcome (mo_completed m) (mo_failed m) (mo_completed m + mo_failed m + mo_inProgress m) = (ph, cs)" by fastforce
  then have "ph = VMFRPhaseInProgress \<or> outcomeStage (mo_completed m) (mo_failed m) \<in> finalStages"
    by (auto simp: restoreOutcome_def outcomeStage_def finalStages_def split: if_splits)
  then have "triple (synced v) (bindR (patchWith V v ph cs False) (\<lambda>_. returnR (ph = VMFRPhaseInProgress))) rests anyway"
    by (rule patch_rests [OF f outcome_moves [OF o]])
  then show ?thesis
    unfolding finishRestores_def Let_def o prod.case by (intro triple_if triple_fail) simp_all
qed

lemma rests_wait: "on SWaitingForRestores v \<Longrightarrow> triple (synced v) (waitForRestoresStep E v) rests anyway"
proof (rule wait_rule)
  fix b m
  assume "on SWaitingForRestores v" and "lifeOf b = lifeOf v"
  then have "on SWaitingForRestores b" using on_cong by blast
  then show "triple (synced b) (settleRestores E m b) rests anyway"
    by (intro settle_rule rests_finish requeues_rests requeues_failValidation) (simp_all add: rests_def)
qed simp

lemma patchServing_rests:
  assumes "lifeOf a = lifeOf v" and "on s v" and "moves s t ph cs" and "q \<or> t \<in> finalStages"
  shows "triple (synced v) (bindR (patchServing V v a ph cs) (\<lambda>_. returnR q)) rests anyway"
  by (rule bind_rests [OF patchServing_moves [OF assms(1-3)] assms(4)])

lemma rests_server: "on SCredentialsReady v \<Longrightarrow> triple (synced v) (createFileServerStep E createServer v) rests anyway"
  by (intro server_rule patchServing_rests [OF _ _ moves_route] patchServing_rests [OF _ _ moves_complete]
      requeues_rests requeues_failValidation) (auto simp: finalStages_def)

lemma rests_route: "on SWaitingForRoute v \<Longrightarrow> triple (synced v) (waitForRouteStep E v) rests anyway"
  by (intro route_rule patchServing_rests [OF _ _ moves_complete]) (auto simp: finalStages_def rests_def)

lemma rests_workflow:
  assumes f: "on s v" and s: "stagePhase s = VMFRPhaseInProgress" "s \<notin> {SValidating, SWaitingForDiscovery, SDiscoveringPVCs}"
  shows "triple (synced v) (executeFileRestoreWorkflow E createServer v) rests anyway"
proof -
  have "s \<noteq> SUnset" using s by auto
  then obtain c where c: "fe_findCondition V (fs_conditions (vmfr_status v)) ConditionTypeProgressing = Some c"
    "cond_reason c = stageReason s" using reason_at [OF f] by blast
  show ?thesis
    unfolding executeFileRestoreWorkflow_def c(1) option.case c(2) using f s
    by (cases s) (simp_all add: requeues_rests [OF requeues_namespace] requeues_rests [OF requeues_createRestores]
        rests_wait requeues_rests [OF requeues_credentials] rests_server rests_route)
qed

text \<open>A reconciliation of an object that is not being deleted.\<close>

lemma rests_single: "triple (synced v) (s v) rests anyway \<Longrightarrow> triple (synced v) (runSteps [s] v) rests anyway"
  unfolding runSteps.simps by (rule triple_bind) (auto simp: triple_def rests_def)

lemma rests_steps:
  assumes f: "on s v" and "om_deletion (vmfr_meta v) = None" and "s \<noteq> SDiscoveringPVCs"
  shows "triple (synced v) (runSteps (reconcileSteps E createServer v) v) rests anyway"
proof -
  have "triple (synced v) (returnR False) rests anyway" if "s \<in> finalStages"
    using that f by (intro triple_return) (auto simp: rests_def on_def)
  moreover have "s \<in> finalStages" if "s \<noteq> SUnset" "s \<noteq> SInitialized" "stagePhase s \<noteq> VMFRPhaseInProgress"
    using that by (cases s) (simp_all add: finalStages_def)
  ultimately show ?thesis
    unfolding steps_at [OF assms(1,2)]
    using requeues_rests [OF requeues_first] rests_single [of v "validateAndDiscoverPVCs V", OF requeues_rests [OF requeues_validate]]
      rests_single [of v "executeFileRestoreWorkflow E createServer"] rests_workflow [OF f] assms(3)
    by (auto simp del: runSteps.simps(2) returnR_def)
qed

lemma reconcile_rests:
  assumes "fe_get V key w = (Inr v, w0)" and "om_deletion (vmfr_meta v) = None" and "on s v" and "s \<noteq> SDiscoveringPVCs"
    and "ReconcileVMFR E createServer key w = (Inr False, w1)"
  shows "\<exists>t l. life w1 = Some l \<and> at_stage (fe_findCondition V) t l \<and> t \<in> finalStages"
proof -
  have "synced v w0" using get_value [OF assms(1)] by (simp add: synced_def)
  moreover have "runSteps (reconcileSteps E createServer v) v w0 = (Inr False, w1)"
    using assms(1,5) by (simp add: ReconcileVMFR_def)
  ultimately have "rests False w1" using triple_Inr [OF rests_steps [OF assms(3,2,4)]] by blast
  then obtain v1 t where "life w1 = Some (lifeOf v1)" "at_stage (fe_findCondition V) t (lifeOf v1)" "t \<in> finalStages"
    unfolding rests_def synced_def reached_def by blast
  then show ?thesis by blast
qed

end

end
