(* ===== verification/Workflow_Properties.thy ===== *)
theory Workflow_Properties
  imports Reference_Cluster Workflow_Progress
begin

text \<open>
  The properties of the file restore controller as a whole: reconciliation refines the machine of stages, runs settle,
  which stages are final, and that no file restore is let go before one of them.
\<close>

section \<open>Stages in runs\<close>

lemma at_stage_unique: "at_stage fnd s l \<Longrightarrow> at_stage fnd t l \<Longrightarrow> s = t"
  by (cases s; cases t) (auto simp: at_stage_def)

text \<open>The number of transitions that lead to a stage at most.\<close>

primrec stageRank :: "stage \<Rightarrow> nat" where
  "stageRank SUnset = 0"
| "stageRank SInitialized = 1"
| "stageRank SValidating = 2"
| "stageRank SWaitingForDiscovery = 3"
| "stageRank SDiscoveringPVCs = 4"
| "stageRank SValidationCompleted = 5"
| "stageRank SNamespaceReady = 6"
| "stageRank SWaitingForRestores = 7"
| "stageRank SRestoresCompleted = 8"
| "stageRank SCredentialsReady = 9"
| "stageRank SWaitingForRoute = 10"
| "stageRank SCompleted = 11"
| "stageRank SSomeFailed = 11"
| "stageRank SPartlyInvalid = 11"
| "stageRank SInvalid = 11"
| "stageRank SAllFailed = 11"

lemma stage_step_rank: "stage_step s t \<Longrightarrow> s = t \<or> stageRank s < stageRank t"
  by (induction rule: stage_step.induct) auto

lemma stage_steps_rank: "stage_step\<^sup>*\<^sup>* s t \<Longrightarrow> s = t \<or> stageRank s < stageRank t"
  by (induction rule: rtranclp_induct) (auto dest: stage_step_rank)

lemma stageRank_max: "stageRank s \<le> 11"
  by (cases s) simp_all

text \<open>A sequence of stages that moves along the machine is constant from some point on.\<close>

lemma stages_settle:
  assumes "\<And>n. stage_step\<^sup>*\<^sup>* (st n) (st (Suc n))"
  shows "\<exists>N. \<forall>n\<ge>N. st n = st N"
proof -
  define M where "M = Max (range (\<lambda>n. stageRank (st n)))"
  have fin: "finite (range (\<lambda>n. stageRank (st n)))" by (rule finite_subset [of _ "{..11}"]) (auto simp: stageRank_max)
  then have "M \<in> range (\<lambda>n. stageRank (st n))" unfolding M_def by (intro Max_in) auto
  then obtain N where N: "stageRank (st N) = M" by blast
  have le: "stageRank (st n) \<le> M" for n unfolding M_def using fin by (intro Max_ge) auto
  have "st n = st N" if "n \<ge> N" for n
    using that
  proof (induction rule: dec_induct)
    case (step n)
    then show ?case using stage_steps_rank [OF assms, of n] N le [of "Suc n"] by auto
  qed simp
  then show ?thesis by blast
qed

context file_server
begin

abbreviation atStage :: "stage \<Rightarrow> life \<Rightarrow> bool" where
  "atStage \<equiv> at_stage (fe_findCondition (re_vmfr (se_restore S)))"

abbreviation reconcile :: "'w \<Rightarrow> bool result \<times> 'w" where
  "reconcile \<equiv> ReconcileVMFR (se_restore S) (createFileServerResources S) key"

lemma reconcile_step:
  assumes "life w = Some l" and "atStage s l" and "reconcile w = (r, w1)"
  shows "life w1 = None \<or> (\<exists>s' l'. life w1 = Some l' \<and> atStage s' l' \<and> stage_step\<^sup>*\<^sup>* s s')"
  using run.reconcile_reaches [OF assms(1,2) _ assms(3)] by simp

lemma reconcile_settles:
  assumes "\<And>n. \<exists>r w. reconcile (f n) = (r, w) \<and> life (f (Suc n)) = life w" and "\<And>n. life (f n) \<noteq> None" and "life (f 0) = Some l" and "atStage s l"
  shows "\<exists>N t. \<forall>n\<ge>N. \<exists>l. life (f n) = Some l \<and> atStage t l"
proof -
  have at: "\<exists>s l. life (f n) = Some l \<and> atStage s l" for n
  proof (induction n)
    case (Suc n)
    then obtain s l where "life (f n) = Some l" "atStage s l" by blast
    moreover obtain r w where "reconcile (f n) = (r, w)" "life (f (Suc n)) = life w" using assms(1) by blast
    ultimately show ?case using reconcile_step assms(2) by metis
  qed (use assms(3,4) in blast)
  then obtain st where st: "\<And>n. \<exists>l. life (f n) = Some l \<and> atStage (st n) l" by metis
  have "stage_step\<^sup>*\<^sup>* (st n) (st (Suc n))" for n
  proof -
    obtain l where l: "life (f n) = Some l" "atStage (st n) l" using st by blast
    obtain r w where w: "reconcile (f n) = (r, w)" "life (f (Suc n)) = life w" using assms(1) by blast
    obtain s' l' where "life (f (Suc n)) = Some l'" "atStage s' l'" "stage_step\<^sup>*\<^sup>* (st n) s'"
      using reconcile_step [OF l w(1)] assms(2) [of "Suc n"] w(2) by auto
    moreover obtain l2 where "life (f (Suc n)) = Some l2" "atStage (st (Suc n)) l2" using st by blast
    ultimately show ?thesis using at_stage_unique by fastforce
  qed
  then obtain N where "\<forall>n\<ge>N. st n = st N" using stages_settle by blast
  then show ?thesis using st by metis
qed

lemma final_stage:
  assumes "fe_get V key w = (Inr v, w1)" and "om_deletion (vmfr_meta v) = None" and "atStage s (lifeOf v)"
    and "s \<in> {SDiscoveringPVCs, SCompleted, SSomeFailed, SPartlyInvalid, SInvalid, SAllFailed}"
  shows "reconcile w = (Inr False, w1)"
proof -
  have on: "run.on s s v" using assms(3) by (simp add: run.on_def run.reached_def)
  obtain c where c: "fe_findCondition V (fs_conditions (vmfr_status v)) ConditionTypeProgressing = Some c" "cond_reason c = stageReason s"
    using run.reason_at [OF on] assms(4) by auto
  show ?thesis
    using assms(1,4) c
    by (auto simp: ReconcileVMFR_def run.steps_at [OF on assms(2)] executeFileRestoreWorkflow_def)
qed

lemma reconcile_released:
  assumes "fe_get V key w = (Inr v, w0)" and "om_deletion (vmfr_meta v) = None" and "atStage s (lifeOf v)" and "s \<noteq> SDiscoveringPVCs"
    and "reconcile w = (Inr False, w1)"
  shows "\<exists>t l. life w1 = Some l \<and> atStage t l \<and> t \<in> finalStages"
proof -
  have "run.on s s v" using assms(3) by (simp add: run.on_def run.reached_def)
  then show ?thesis by (rule run.reconcile_rests [OF assms(1,2) _ assms(4,5)])
qed

lemma reconcile_waiting:
  assumes "fe_get V key w = (Inr v, w0)" and "om_deletion (vmfr_meta v) = None" and "atStage SWaitingForRestores (lifeOf v)"
  shows "reconcile w = bindR (waitForRestoresStep (se_restore S) v) returnR w0"
proof -
  have on: "run.on SWaitingForRestores SWaitingForRestores v" using assms(3) by (simp add: run.on_def run.reached_def)
  obtain c where "fe_findCondition V (fs_conditions (vmfr_status v)) ConditionTypeProgressing = Some c" "cond_reason c = ''WaitingForRestores''"
    using run.reason_at [OF on] by auto
  then have "executeFileRestoreWorkflow (se_restore S) (createFileServerResources S) v = waitForRestoresStep (se_restore S) v"
    by (simp add: executeFileRestoreWorkflow_def)
  then show ?thesis
    using assms(1) by (simp add: ReconcileVMFR_def run.steps_at [OF on assms(2)] bindR_def split: prod.splits sum.splits)
qed

end

section \<open>Properties\<close>

text \<open>C1. Reconciliation refines the machine of stages: a reconciliation that finds a file restore in a stage, that is
  with the phase, the statuses of the four conditions and the progress reason of that stage, leaves it in a stage
  the machine reaches from there, or the object is gone. It holds for every outcome of every call.\<close>

theorem reconcile_refines_stages:
  assumes "file_server S life key" and "life w = Some l" and "at_stage (fe_findCondition (re_vmfr (se_restore S))) s l"
    and "ReconcileVMFR (se_restore S) (createFileServerResources S) key w = (r, w1)"
  shows "life w1 = None \<or> (\<exists>s' l'. life w1 = Some l' \<and> at_stage (fe_findCondition (re_vmfr (se_restore S))) s' l' \<and> stage_step\<^sup>*\<^sup>* s s')"
  by (rule file_server.reconcile_step [OF assms])

lemma fresh_unset: "kc_life demo_request (fresh_cluster ph a) = Some (VMFRPhaseUnset, [])"
  by (simp add: kc_life_def fresh_cluster_def demo_file_restore_def demo_request_def key_of_def lifeOf_def)

theorem reconcile_refines_stages_witness:
  "\<exists>s' l'. kc_life demo_request (snd (ReconcileVMFR (se_restore kc_env) (createFileServerResources kc_env) demo_request
        (fresh_cluster ''Completed'' (browser_access True)))) = Some l'
      \<and> at_stage ref_find_condition s' l' \<and> stage_step\<^sup>*\<^sup>* SUnset s'"
proof -
  let ?w = "fresh_cluster ''Completed'' (browser_access True)"
  obtain r w1 where run: "ReconcileVMFR (se_restore kc_env) (createFileServerResources kc_env) demo_request ?w = (r, w1)" by fastforce
  have "kc_life demo_request (snd (ReconcileVMFR (se_restore kc_env) (createFileServerResources kc_env) demo_request ?w)) \<noteq> None"
    by code_simp
  moreover have "at_stage (fe_findCondition (re_vmfr (se_restore kc_env))) SUnset (VMFRPhaseUnset, [])" by (simp add: at_stage_def)
  ultimately show ?thesis
    using reconcile_refines_stages [OF cluster.file_server_axioms fresh_unset _ run, of SUnset] run unfolding kc_fields by auto
qed

text \<open>C7. Runs settle: in any sequence of reconciliations of a file restore that is not deleted, the stage changes finitely often,
  whatever else changes between two reconciliations.\<close>

theorem reconciliation_settles:
  assumes "file_server S life key" and "\<forall>n. \<exists>r w. ReconcileVMFR (se_restore S) (createFileServerResources S) key (f n) = (r, w) \<and> life (f (Suc n)) = life w"
    and "\<forall>n. life (f n) \<noteq> None" and "life (f 0) = Some l" and "at_stage (fe_findCondition (re_vmfr (se_restore S))) s l"
  shows "\<exists>N t. \<forall>n\<ge>N. \<exists>l. life (f n) = Some l \<and> at_stage (fe_findCondition (re_vmfr (se_restore S))) t l"
  by (rule file_server.reconcile_settles [OF assms(1)]) (use assms in blast)+

text \<open>A cluster whose file restore is in a final stage.\<close>

definition staged_cluster :: "restore_phase \<Rightarrow> cond_spec list \<Rightarrow> cluster" where
  "staged_cluster ph cs = (let w = fresh_cluster ''Completed'' (browser_access True); v = demo_file_restore (browser_access True)
     in w \<lparr>kc_vmfr := Some (v \<lparr>vmfr_status := (vmfr_status v) \<lparr>fs_phase := ph, fs_conditions := map (specAt 0) cs\<rparr>\<rparr>)\<rparr>)"

definition stagedLife :: "restore_phase \<Rightarrow> cond_spec list \<Rightarrow> life" where
  "stagedLife ph cs = (ph, map (specAt 0) cs)"

lemma staged_life: "kc_life demo_request (staged_cluster ph cs) = Some (stagedLife ph cs)"
  by (simp add: kc_life_def staged_cluster_def fresh_cluster_def demo_file_restore_def demo_request_def key_of_def lifeOf_def stagedLife_def Let_def)

lemma staged_at: "at_stage ref_find_condition SCompleted (stagedLife VMFRPhaseCompleted (completedConditions m1 m2))"
  "at_stage ref_find_condition SDiscoveringPVCs
     (stagedLife VMFRPhaseInProgress (fourConditions (ConditionTrue, ''DiscoveringPVCs'', m1) (ConditionFalse, r2, m2) (ConditionFalse, r2, m2) (ConditionFalse, r2, m2)))"
  by (simp_all add: at_stage_def stagedLife_def stageStatuses_def observed_def conditionTypes_def progressReason_def view_def payload_def
      ref_find_condition_def completedConditions_def fourConditions_def specAt_def condition_type_defs)

text \<open>C32. Final stages: a reconciliation of a file restore that is not being deleted and is in a terminal phase, or whose
  progress reason is DiscoveringPVCs, only reads it. It asks for no requeue and writes nothing, so a controller
  stopped between announcing the discovery of the claims and its result never takes the restore up again, and a
  restore with some failed Velero restores never gets a file server.\<close>

theorem final_stages_stay:
  assumes "file_server S life key" and "fe_get (re_vmfr (se_restore S)) key w = (Inr v, w1)" and "om_deletion (vmfr_meta v) = None"
    and "at_stage (fe_findCondition (re_vmfr (se_restore S))) s (lifeOf v)"
    and "s \<in> {SDiscoveringPVCs, SCompleted, SSomeFailed, SPartlyInvalid, SInvalid, SAllFailed}"
  shows "ReconcileVMFR (se_restore S) (createFileServerResources S) key w = (Inr False, w1)"
  by (rule file_server.final_stage [OF assms])

lemma staged_get: "\<exists>v. fe_get (re_vmfr (se_restore kc_env)) demo_request (staged_cluster ph cs) = (Inr v, staged_cluster ph cs)
    \<and> om_deletion (vmfr_meta v) = None \<and> lifeOf v = stagedLife ph cs"
  by (simp add: kc_envs kc_getVMFR_def staged_cluster_def fresh_cluster_def demo_file_restore_def demo_request_def key_of_def lifeOf_def
      stagedLife_def Let_def empty_meta_def)

theorem final_stages_stay_witness:
  "ReconcileVMFR (se_restore kc_env) (createFileServerResources kc_env) demo_request (staged_cluster VMFRPhaseInProgress
      (fourConditions (ConditionTrue, ''DiscoveringPVCs'', []) (ConditionFalse, [], []) (ConditionFalse, [], []) (ConditionFalse, [], [])))
    = (Inr False, staged_cluster VMFRPhaseInProgress
      (fourConditions (ConditionTrue, ''DiscoveringPVCs'', []) (ConditionFalse, [], []) (ConditionFalse, [], []) (ConditionFalse, [], [])))"
proof -
  let ?cs = "fourConditions (ConditionTrue, ''DiscoveringPVCs'', []) (ConditionFalse, [], []) (ConditionFalse, [], []) (ConditionFalse, [], [])"
  obtain v where v: "fe_get (re_vmfr (se_restore kc_env)) demo_request (staged_cluster VMFRPhaseInProgress ?cs)
      = (Inr v, staged_cluster VMFRPhaseInProgress ?cs)" "om_deletion (vmfr_meta v) = None" "lifeOf v = stagedLife VMFRPhaseInProgress ?cs"
    using staged_get by blast
  have "at_stage (fe_findCondition (re_vmfr (se_restore kc_env))) SDiscoveringPVCs (lifeOf v)"
    unfolding v(3) kc_fields by (rule staged_at(2))
  then show ?thesis by (rule final_stages_stay [OF cluster.file_server_axioms v(1,2)]) simp
qed

theorem reconciliation_settles_witness:
  "\<exists>N t. \<forall>n\<ge>(N::nat). \<exists>l. kc_life demo_request (staged_cluster VMFRPhaseCompleted (completedConditions [] [])) = Some l
     \<and> at_stage ref_find_condition t l"
proof -
  let ?w = "staged_cluster VMFRPhaseCompleted (completedConditions [] [])"
  have "\<exists>r. ReconcileVMFR (se_restore kc_env) (createFileServerResources kc_env) demo_request ?w = (r, ?w)"
    using staged_get cluster.final_stage staged_at(1) by (metis insertCI kc_fields(2))
  then have "\<exists>r w. ReconcileVMFR (se_restore kc_env) (createFileServerResources kc_env) demo_request ?w = (r, w)
      \<and> kc_life demo_request ?w = kc_life demo_request w" by auto
  then have "\<exists>N t. \<forall>n\<ge>(N::nat). \<exists>l. kc_life demo_request ?w = Some l \<and> at_stage (fe_findCondition (re_vmfr (se_restore kc_env))) t l"
    by (intro reconciliation_settles [OF cluster.file_server_axioms, where f = "\<lambda>_. ?w" and s = SCompleted])
       (auto simp: staged_life intro: staged_at(1))
  then show ?thesis unfolding kc_fields .
qed

text \<open>C8. No file restore is forgotten: a reconciliation that ends without an error and without a request to requeue, and so
  is not repeated by itself, leaves the file restore in a final stage: completed, failed or partially failed. The only
  exception is a file restore whose progress reason is DiscoveringPVCs.\<close>

theorem restore_not_forgotten:
  assumes "file_server S life key" and "fe_get (re_vmfr (se_restore S)) key w = (Inr v, w0)" and "om_deletion (vmfr_meta v) = None"
    and "at_stage (fe_findCondition (re_vmfr (se_restore S))) s (lifeOf v)" and "s \<noteq> SDiscoveringPVCs"
    and "ReconcileVMFR (se_restore S) (createFileServerResources S) key w = (Inr False, w1)"
  shows "\<exists>t l. life w1 = Some l \<and> at_stage (fe_findCondition (re_vmfr (se_restore S))) t l \<and> t \<in> finalStages"
  by (rule file_server.reconcile_released [OF assms])

text \<open>A cluster whose file restore waits for a Velero restore that has failed.\<close>

definition failed_restore_cluster :: cluster where
  "failed_restore_cluster = (staged_cluster VMFRPhaseInProgress waitingForRestores) \<lparr>kc_restores :=
     [(restoreObject (re_vmfr (se_restore kc_env)) (demo_file_restore (browser_access True))
        \<lparr>VirtualMachineName = ''vm'', VirtualMachineNamespace = ''vms'', StartTime = None, EndTime = None, RequestedBackups = []\<rparr>
        ''user'' ''b1'' [''u1'']) \<lparr>vr_phase := ''Failed''\<rparr>]\<rparr>"
definition failed_vmfr :: vmfr where
  "failed_vmfr = the (kc_vmfr (staged_cluster VMFRPhaseInProgress waitingForRestores))"

lemma failed_status: "restoreNs failed_vmfr = []" "fs_pvcRestores (vmfr_status failed_vmfr) = []" "vmfr_uid failed_vmfr = ''1a2b''"
  by (simp_all add: failed_vmfr_def staged_cluster_def fresh_cluster_def demo_file_restore_def Let_def empty_meta_def)

lemma kc_calls: "pe_now (fe_pvc kc_vmfrEnv) = kc_now"
  "fe_patchStatus kc_vmfrEnv b m = withVMFR m (\<lambda>v. v \<lparr>vmfr_status := patchStatusOf (vmfr_status b) (vmfr_status m) (vmfr_status v)\<rparr>)"
  by (simp_all add: kc_vmfrEnv_def)

lemma kc_stamped: "stamped kc_vmfrEnv cs w = (ds, w1) \<Longrightarrow> kc_vmfr w1 = kc_vmfr w"
  by (induction cs arbitrary: w ds) (auto simp: kc_calls kc_now_def Let_def split: prod.splits)

lemma kc_patchWith:
  assumes "kc_vmfr w = Some u" and "key_of (vmfr_meta u) = key_of (vmfr_meta v)"
  shows "\<exists>v1 w1. patchWith kc_vmfrEnv v ph cs g w = (Inr v1, w1)"
  using assms by (auto simp: patchWith_def patchVmfrStatusPhaseConditions_def Let_def kc_calls withVMFR_def split: prod.splits
      dest!: kc_stamped)

lemma failed_monitor: "case monitorVeleroRestores kc_vmfrEnv failed_vmfr failed_restore_cluster of
    (Inr (m, a), w1) \<Rightarrow> mo_completed m = 0 \<and> mo_failed m = 1 \<and> mo_inProgress m = 0 \<and> \<not> mo_updated m
      \<and> vmfr_meta a = vmfr_meta failed_vmfr \<and> restoreNs a = [] \<and> w1 = failed_restore_cluster
  | _ \<Rightarrow> False"
  by (simp add: monitorVeleroRestores_def listOf_def failed_restore_cluster_def restoreObject_def ownedBy_def failed_status
      demo_file_restore_def selected_def monitorAll_def monitorOne_def classifyPhase_def empty_meta_def onRealRestores_def kc_envs Let_def)

lemma failed_step: "\<exists>w1. waitForRestoresStep kc_restoreEnv failed_vmfr failed_restore_cluster = (Inr False, w1)"
proof -
  let ?w = failed_restore_cluster
  obtain m a where m: "monitorVeleroRestores kc_vmfrEnv failed_vmfr ?w = (Inr (m, a), ?w)" "mo_completed m = 0" "mo_failed m = 1"
      "mo_inProgress m = 0" "\<not> mo_updated m" "vmfr_meta a = vmfr_meta failed_vmfr" "restoreNs a = []"
  proof -
    obtain r w1 where r: "monitorVeleroRestores kc_vmfrEnv failed_vmfr ?w = (r, w1)" by fastforce
    then show thesis using failed_monitor that by (cases r) auto
  qed
  have "kc_vmfr ?w = Some failed_vmfr"
    by (simp add: failed_restore_cluster_def failed_vmfr_def staged_cluster_def fresh_cluster_def Let_def)
  then have "\<exists>v1 w1. patchWith kc_vmfrEnv a ph cs False ?w = (Inr v1, w1)" for ph cs by (rule kc_patchWith) (simp add: m(6))
  then obtain v1 w1 where p: "patchWith kc_vmfrEnv a VMFRPhaseFailed (allRestoresFailed (Suc 0)) False ?w = (Inr v1, w1)" by blast
  have "re_vmfr kc_restoreEnv = kc_vmfrEnv" by (simp add: kc_restoreEnv_def)
  then show ?thesis
    using m p by (simp add: waitForRestoresStep_def settleRestores_def fixDataDownloadPVCNames_def finishRestores_def restoreOutcome_def bindR_def)
qed

lemma failed_get: "fe_get (re_vmfr (se_restore kc_env)) demo_request failed_restore_cluster = (Inr failed_vmfr, failed_restore_cluster)"
    "om_deletion (vmfr_meta failed_vmfr) = None" "lifeOf failed_vmfr = stagedLife VMFRPhaseInProgress waitingForRestores"
  by (simp_all add: kc_envs kc_getVMFR_def failed_vmfr_def failed_restore_cluster_def staged_cluster_def fresh_cluster_def demo_file_restore_def
      demo_request_def key_of_def lifeOf_def stagedLife_def Let_def empty_meta_def)

lemma waiting_at: "at_stage ref_find_condition SWaitingForRestores (stagedLife VMFRPhaseInProgress waitingForRestores)"
  by (simp add: at_stage_def stagedLife_def stageStatuses_def observed_def conditionTypes_def progressReason_def view_def payload_def
      ref_find_condition_def waitingForRestores_def fourConditions_def specAt_def condition_type_defs)

theorem restore_not_forgotten_witness:
  "\<exists>t l. kc_life demo_request (snd (ReconcileVMFR (se_restore kc_env) (createFileServerResources kc_env) demo_request failed_restore_cluster)) = Some l
     \<and> at_stage ref_find_condition t l \<and> t \<in> finalStages"
proof -
  let ?w = failed_restore_cluster
  have at: "at_stage (fe_findCondition (re_vmfr (se_restore kc_env))) SWaitingForRestores (lifeOf failed_vmfr)"
    unfolding failed_get(3) kc_fields by (rule waiting_at)
  obtain w1 where "waitForRestoresStep kc_restoreEnv failed_vmfr ?w = (Inr False, w1)" using failed_step by blast
  then have run: "ReconcileVMFR (se_restore kc_env) (createFileServerResources kc_env) demo_request ?w = (Inr False, w1)"
    using cluster.reconcile_waiting [OF failed_get(1,2) at] by (simp add: bindR_def kc_env_def)
  show ?thesis
    using restore_not_forgotten [OF cluster.file_server_axioms failed_get(1,2) at _ run] unfolding run kc_fields by simp
qed

end
