(* ===== verification/Credential_Facts.thy ===== *)
theory Credential_Facts
  imports Reference_Cluster
begin

text \<open>
  The secrets of the file server from their preparation (\<open>ensureCredentials\<close>) to their use (\<open>createFileServerResources\<close>,
  which finds them again by their labels). The contract on the API server is the locale \<open>secret_store\<close>; the reference
  cluster meets it.
\<close>

section \<open>The contract of the server\<close>

definition labelledSecret :: "string \<Rightarrow> string \<Rightarrow> string \<Rightarrow> secret \<Rightarrow> bool" where
  "labelledSecret ns uid ctype x \<longleftrightarrow> om_namespace (sec_meta x) = ns
     \<and> selected [(VMFROriginUUIDLabel, uid), (CredentialTypeLabel, ctype)] (sec_meta x)"

lemma labelledSecret_type: "labelledSecret ns uid ctype x \<Longrightarrow> labelledSecret ns' uid' ctype' x \<Longrightarrow> ctype' = ctype"
  by (simp add: labelledSecret_def selected_def)

text \<open>\<open>secrets w\<close> are the stored secrets. A listing shows those with the labels in the namespace, a creation adds one with
  the labels and the namespace it was given, a deletion adds none.\<close>

locale secret_store =
  fixes E :: "'w restore_env" and secrets :: "'w \<Rightarrow> secret set"
  assumes list_secrets: "re_listSecrets E ns sel w = (Inr ss, w1)
      \<Longrightarrow> set ss = {x \<in> secrets w. om_namespace (sec_meta x) = ns \<and> selected sel (sec_meta x)}"
    and create_secret: "re_createSecret E x w = (Inr c, w1) \<Longrightarrow> secrets w1 = insert c (secrets w)
      \<and> om_labels (sec_meta c) = om_labels (sec_meta x) \<and> om_namespace (sec_meta c) = om_namespace (sec_meta x)"
    and delete_secret: "oe_delete (re_objects E) KSecret m w = (rd, w1) \<Longrightarrow> secrets w1 \<subseteq> secrets w"
    and quiet_calls: "quiet secrets (re_getSecret E k)" "quiet secrets (re_listSecrets E ns sel)"
      "quiet secrets (re_listClaims E ns sel)" "quiet secrets (re_getClaim E k)" "quiet secrets (re_crypto E)"
      "quiet secrets (re_randomBytes E)"
begin

lemmas keeps = quiet_calls [THEN quietD]

lemma delete_subset: "deleteCredentials E ss w = (r, w1) \<Longrightarrow> secrets w1 \<subseteq> secrets w"
proof (induction ss arbitrary: w)
  case (Cons s ss)
  obtain d wd where d: "oe_delete (re_objects E) KSecret (sec_meta s) w = (d, wd)" by fastforce
  then show ?case
    using Cons delete_secret [OF d] by (cases d) (auto split: if_splits dest: subset_trans)
qed simp

lemma cleanup_subset: "cleanupAllCredentialSecrets E v w = (r, w1) \<Longrightarrow> secrets w1 \<subseteq> secrets w"
proof -
  assume run: "cleanupAllCredentialSecrets E v w = (r, w1)"
  obtain l wl where l: "re_listSecrets E (restoreNs v) (ownedBy v) w = (l, wl)" by fastforce
  show ?thesis using run l keeps(2) [OF l] by (cases l) (auto simp: cleanupAllCredentialSecrets_def dest: delete_subset)
qed

text \<open>A secret of the restore namespace is used in place; one of another namespace is copied.\<close>

lemma ensured_secret:
  assumes run: "ensureSecretInRestoreNamespace E n ns v val ctype w = (Inr x, w1)"
  shows "if ns = restoreNs v then secrets w1 = secrets w
    else (\<exists>c. secrets w1 = insert c (secrets w) \<and> labelledSecret (restoreNs v) (vmfr_uid v) ctype c)"
proof -
  obtain g wg where g: "re_getSecret E \<lparr>nn_namespace = ns, nn_name = n\<rparr> w = (g, wg)" by fastforce
  note same = keeps(1) [OF g]
  obtain src where src: "g = Inr src" using run g by (cases g) (auto simp: ensureSecretInRestoreNamespace_def Let_def split: if_splits)
  show ?thesis
  proof (cases "ns = restoreNs v")
    case True
    then show ?thesis
      using run g src same by (auto simp: ensureSecretInRestoreNamespace_def Let_def split: sum.splits)
  next
    case False
    let ?sel = "[(VMFROriginUUIDLabel, vmfr_uid v), (CredentialTypeLabel, ctype), (VMFRManagedCopyLabel, TrueString)]"
    obtain l wl where l: "re_listSecrets E (restoreNs v) ?sel wg = (l, wl)" by fastforce
    obtain ss where ss: "l = Inr ss"
      using run g src l False by (cases l) (auto simp: ensureSecretInRestoreNamespace_def Let_def split: sum.splits)
    note listed = list_secrets [OF l [unfolded ss]] keeps(2) [OF l]
    show ?thesis
    proof (cases "find (isCopyOf n ns) ss")
      case (Some c)
      then have c: "c \<in> set ss" using find_Some_in [OF Some] by blast
      then have "labelledSecret (restoreNs v) (vmfr_uid v) ctype c" "c \<in> secrets w"
        using listed same by (auto simp: labelledSecret_def selected_def)
      moreover have "secrets w1 = secrets w"
        using run g src l ss Some False listed(2) same
        by (auto simp: ensureSecretInRestoreNamespace_def Let_def split: sum.splits)
      ultimately show ?thesis using False by (auto simp: insert_absorb)
    next
      case None
      obtain c wc where cr: "re_createSecret E (copiedSecret v n ns ctype src) wl = (Inr c, wc)" "w1 = wc"
        using run g src l ss None False
        by (auto simp: ensureSecretInRestoreNamespace_def Let_def split: sum.splits prod.splits)
      have "VMFROriginUUIDLabel \<noteq> ManagedByLabel" "CredentialTypeLabel \<notin> {ManagedByLabel, VMFROriginUUIDLabel, VMFRManagedCopyLabel}"
        by (simp_all add: label_defs)
      then have "labelledSecret (restoreNs v) (vmfr_uid v) ctype c"
        using create_secret [OF cr(1)] by (simp add: labelledSecret_def selected_def copiedSecret_def)
      then show ?thesis using create_secret [OF cr(1)] cr(2) listed(2) same False by auto
    qed
  qed
qed

lemma ensured_browser:
  assumes run: "ensureFileBrowserCredentials E v f w = (Inr x, w1)"
  shows "secrets w1 = secrets w
    \<or> (\<exists>c. secrets w1 = insert c (secrets w) \<and> labelledSecret (restoreNs v) (vmfr_uid v) CredentialTypeFileBrowser c)"
proof (cases "fb_secretRef f")
  case (Some r)
  then obtain y where "ensureSecretInRestoreNamespace E (sr_name r) (secretNamespace E r) v ValidateFileBrowserSecret CredentialTypeFileBrowser w = (Inr y, w1)"
    using run by (auto simp: ensureFileBrowserCredentials_def wrapR_def split: prod.splits sum.splits)
  then show ?thesis using ensured_secret by (metis (no_types, lifting))
next
  case None
  obtain b wb where b: "re_randomBytes E w = (b, wb)" by fastforce
  obtain cred c wc where c: "re_createSecret E (CreateFileBrowserCredentialsSecret (vmfr_name v @ ''-filebrowser-'') (restoreNs v) cred
              (vmfr_name v) (om_namespace (vmfr_meta v)) (vmfr_uid v)) wb = (Inr c, wc)" "w1 = wc"
    using run None b
    by (auto simp: ensureFileBrowserCredentials_def wrapR_def generateFileBrowser_def bindR_def split: prod.splits sum.splits)
  have "''oadp.openshift.io/credential-type'' = CredentialTypeLabel" "''filebrowser'' = CredentialTypeFileBrowser"
    "VMFROriginUUIDLabel \<noteq> ManagedByLabel" "CredentialTypeLabel \<notin> {ManagedByLabel, VMFROriginUUIDLabel}"
    by (simp_all add: label_defs)
  then have "labelledSecret (restoreNs v) (vmfr_uid v) CredentialTypeFileBrowser c"
    using create_secret [OF c(1)]
    by (simp add: labelledSecret_def selected_def CreateFileBrowserCredentialsSecret_def credentialMeta_def)
  then show ?thesis using create_secret [OF c(1)] c(2) keeps(6) [OF b] by auto
qed

text \<open>What the preparation leaves: no secret to be found for a secret of the restore namespace, one for any other.\<close>

lemma prepared:
  assumes spec: "sshSpec v = Some s" "ssh_secretRef s = Some r"
    and none: "\<forall>x\<in>secrets w. \<not> labelledSecret (restoreNs v) (vmfr_uid v) CredentialTypeSSH x"
    and run: "ensureCredentials E v w = (Inr (), w1)"
  shows "(\<exists>x\<in>secrets w1. labelledSecret (restoreNs v) (vmfr_uid v) CredentialTypeSSH x) \<longleftrightarrow> secretNamespace E r \<noteq> restoreNs v"
proof -
  let ?L = "labelledSecret (restoreNs v) (vmfr_uid v) CredentialTypeSSH"
  obtain u wc n wn where c: "wrapR ''failed to cleanup existing credential secrets: '' (cleanupAllCredentialSecrets E v) w = (Inr u, wc)"
    and n: "ensureSSHCredentials E v s wc = (Inr n, wn)"
    and f: "bindR (case fileBrowserSpec v of None \<Rightarrow> returnR [] | Some f \<Rightarrow> ensureFileBrowserCredentials E v f) (\<lambda>_. returnR ()) wn = (Inr (), w1)"
    using run spec by (auto simp: ensureCredentials_def elim!: bindR_InrE split: if_splits)
  have "secrets wc \<subseteq> secrets w"
    using c by (auto simp: wrapR_def dest: cleanup_subset split: prod.splits sum.splits)
  then have nonec: "\<not> (\<exists>x\<in>secrets wc. ?L x)" using none by blast
  obtain m where m: "ensureSecretInRestoreNamespace E (sr_name r) (secretNamespace E r) v (ValidateSSHSecret (re_parseKey E)) CredentialTypeSSH wc = (Inr m, wn)"
    using n spec by (auto simp: ensureSSHCredentials_def wrapR_def split: prod.splits sum.splits)
  have ssh: "(\<exists>x\<in>secrets wn. ?L x) \<longleftrightarrow> secretNamespace E r \<noteq> restoreNs v"
    using ensured_secret [OF m] nonec by (auto split: if_splits)
  have "secrets w1 = secrets wn \<or> (\<exists>c. secrets w1 = insert c (secrets wn) \<and> labelledSecret (restoreNs v) (vmfr_uid v) CredentialTypeFileBrowser c)"
    using f by (cases "fileBrowserSpec v") (auto elim!: bindR_InrE dest: ensured_browser)
  moreover have "CredentialTypeFileBrowser \<noteq> CredentialTypeSSH" by (simp add: label_defs)
  ultimately have "(\<exists>x\<in>secrets w1. ?L x) \<longleftrightarrow> (\<exists>x\<in>secrets wn. ?L x)" using labelledSecret_type by fastforce
  then show ?thesis using ssh by simp
qed

lemma found_by_labels:
  assumes "re_listSecrets E (restoreNs v) [(VMFROriginUUIDLabel, vmfr_uid v), (CredentialTypeLabel, CredentialTypeSSH)] w = (Inr ss, w1)"
    and "sshSpec v = Some s"
  shows "isl (fst (sshConfig E v w)) \<longleftrightarrow> \<not> (\<exists>x\<in>secrets w. labelledSecret (restoreNs v) (vmfr_uid v) CredentialTypeSSH x)"
proof -
  have "ss = [] \<longleftrightarrow> \<not> (\<exists>x\<in>secrets w. labelledSecret (restoreNs v) (vmfr_uid v) CredentialTypeSSH x)"
    using list_secrets [OF assms(1)] by (auto simp: labelledSecret_def set_empty [symmetric] simp del: set_empty)
  then show ?thesis using assms by (cases ss) (auto simp: sshConfig_def findSecretByLabels_def)
qed

lemma unlabelled_fails:
  assumes "sshSpec v = Some s" and none: "\<not> (\<exists>x\<in>secrets w. labelledSecret (restoreNs v) (vmfr_uid v) CredentialTypeSSH x)"
  shows "isl (fst (sshConfig E v w))"
proof -
  obtain l w1 where l: "re_listSecrets E (restoreNs v) [(VMFROriginUUIDLabel, vmfr_uid v), (CredentialTypeLabel, CredentialTypeSSH)] w = (l, w1)"
    by fastforce
  show ?thesis
  proof (cases l)
    case (Inr ss)
    then show ?thesis using found_by_labels [OF l [unfolded Inr] assms(1)] none by simp
  qed (use l assms(1) in \<open>simp add: sshConfig_def findSecretByLabels_def\<close>)
qed

lemma quiet_resolveMount: "quiet secrets (resolveMount E ns m acc)"
proof (rule quietI)
  fix w r w1
  assume run: "resolveMount E ns m acc w = (r, w1)"
  obtain l wl where l: "re_listClaims E ns (restoreSelector (mt_restoreName m)) w = (l, wl)" by fastforce
  show "secrets w1 = secrets w"
    using run l keeps(3) [OF l] keeps(4)
    by (auto simp: resolveMount_def findRestoredPVCName_def split: prod.splits sum.splits option.splits)
qed

lemma creation_fails:
  assumes "E = se_restore S" and spec: "sshSpec v = Some s"
    and none: "\<not> (\<exists>x\<in>secrets w. labelledSecret (restoreNs v) (vmfr_uid v) CredentialTypeSSH x)"
  shows "isl (fst (createFileServerResources S v w))"
proof -
  obtain ms w1 where m: "foldR (resolveMount E (restoreNs v)) (extractPVCMountsFromVMFR v) [] w = (ms, w1)" by fastforce
  have "secrets w1 = secrets w" by (rule quietD [OF quiet_foldR [OF quiet_resolveMount] m])
  then have "isl (fst (sshConfig E v w1))" using unlabelled_fails [OF spec] none by simp
  then obtain e w2 where "sshConfig E v w1 = (Inl e, w2)" by (cases "sshConfig E v w1") (auto simp: isl_def)
  then show ?thesis
    using m unfolding createFileServerResources_def assms(1) [symmetric] Let_def by (cases ms) simp_all
qed

end

interpretation clusterSecrets: secret_store kc_restoreEnv "\<lambda>w. set (kc_secrets w)"
proof
  fix x w c w1
  assume "re_createSecret kc_restoreEnv x w = (Inr c, w1)"
  then show "set (kc_secrets w1) = insert c (set (kc_secrets w)) \<and> om_labels (sec_meta c) = om_labels (sec_meta x)
      \<and> om_namespace (sec_meta c) = om_namespace (sec_meta x)"
    by (auto simp: kc_restoreEnv_def addTo_def stored_secret_def finalName_def split: if_splits)
qed (auto simp: kc_restoreEnv_def kc_objectEnv_def quiet_def readOf_def listOf_def kc_delete_def dropKind_def split: if_splits option.splits)

section \<open>Property\<close>

text \<open>C33. A secret for SSH access that the user keeps in the restore namespace never serves: when its preparation succeeds, it is
  used in place and no secret carries the controller's labels, by which the creation of the file server looks for
  it, so that creation fails. A secret kept in another namespace is copied with the labels and found again. Both for a
  file restore for which no labelled secret for SSH was there before, and for every later world with the same secrets.\<close>

theorem secret_in_restore_namespace_fails:
  assumes "secret_store (se_restore S) secrets" and "sshSpec v = Some s" and "ssh_secretRef s = Some r"
    and "\<forall>x\<in>secrets w. \<not> labelledSecret (restoreNs v) (vmfr_uid v) CredentialTypeSSH x"
    and "ensureCredentials (se_restore S) v w = (Inr (), w1)"
    and "secrets w2 = secrets w1" and "sshSpec v2 = Some s2" and "restoreNs v2 = restoreNs v" and "vmfr_uid v2 = vmfr_uid v"
  shows "if secretNamespace (se_restore S) r = restoreNs v then isl (fst (createFileServerResources S v2 w2))
    else \<forall>ss w3. re_listSecrets (se_restore S) (restoreNs v)
          [(VMFROriginUUIDLabel, vmfr_uid v), (CredentialTypeLabel, CredentialTypeSSH)] w2 = (Inr ss, w3)
        \<longrightarrow> \<not> isl (fst (sshConfig (se_restore S) v2 w2))"
proof -
  have l: "(\<exists>x\<in>secrets w2. labelledSecret (restoreNs v2) (vmfr_uid v2) CredentialTypeSSH x) \<longleftrightarrow> secretNamespace (se_restore S) r \<noteq> restoreNs v"
    using secret_store.prepared [OF assms(1-5)] unfolding assms(6,8,9) .
  show ?thesis
  proof (cases "secretNamespace (se_restore S) r = restoreNs v")
    case True
    then show ?thesis using secret_store.creation_fails [OF assms(1) refl assms(7)] l by simp
  next
    case False
    then show ?thesis using secret_store.found_by_labels [OF assms(1) _ assms(7)] l assms(8,9) by auto
  qed
qed

text \<open>A file restore whose claim is restored into the namespace \<open>user\<close> and whose SSH secret is \<open>mykey\<close> in the namespace \<open>ns\<close>.\<close>

definition secret_restore :: "string \<Rightarrow> vmfr" where
  "secret_restore ns = (let v = demo_file_restore \<lparr>fa_ssh = Some \<lparr>ssh_username = [], ssh_publicKey = [],
         ssh_secretRef = Some \<lparr>sr_name = ''mykey'', sr_namespace = ns\<rparr>\<rparr>, fa_fileBrowser = None\<rparr>
     in v \<lparr>vmfr_status := (vmfr_status v) \<lparr>fs_createdNamespace := ''user'', fs_pvcRestores :=
          [\<lparr>pr_pvc = \<lparr>PVCUID = ''u1'', PVCName = ''disk'', PVCNamespace = ''vms'', PVCSize = ''5Gi''\<rparr>,
            pr_restores = [empty_restore_info \<lparr>ri_backupName := ''b1'', ri_state := StateAvailable, ri_phase := ''Completed'', ri_restoreName := ''r1''\<rparr>]\<rparr>]\<rparr>\<rparr>)"

definition secret_cluster :: "string \<Rightarrow> cluster" where
  "secret_cluster ns = (fresh_cluster ''Completed'' (browser_access False)) \<lparr>kc_vmfr := Some (secret_restore ns),
     kc_claims := [\<lparr>cl_meta = empty_meta \<lparr>om_name := ''c1'', om_namespace := ''user'', om_uid := ''n1'',
         om_labels := restoreSelector ''r1'' @ [(VMFROriginalPVCNameAnnotation, ''disk'')]\<rparr>, cl_phase = ''Bound'', cl_volumeMode = Some ''Block''\<rparr>],
     kc_secrets := [\<lparr>sec_meta = empty_meta \<lparr>om_name := ''mykey'', om_namespace := ns\<rparr>, sec_type = ''Opaque'', sec_stringData = [],
         sec_data = Some [(''authorized_keys'', ''ssh-ed25519 AAAA'')]\<rparr>]\<rparr>"

lemma secret_prepared: "ensureCredentials kc_restoreEnv (secret_restore ''user'') (secret_cluster ''user'') = (Inr (), secret_cluster ''user'')"
  by code_simp

lemma secret_copied: "case ensureCredentials kc_restoreEnv (secret_restore ''keys'') (secret_cluster ''keys'') of (r, w1) \<Rightarrow> r = Inr ()"
  by code_simp

lemma secret_facts:
  "sshSpec (secret_restore ns) = Some \<lparr>ssh_username = [], ssh_publicKey = [], ssh_secretRef = Some \<lparr>sr_name = ''mykey'', sr_namespace = ns\<rparr>\<rparr>"
  "restoreNs (secret_restore ns) = ''user''" "ns \<noteq> [] \<Longrightarrow> secretNamespace kc_restoreEnv \<lparr>sr_name = ''mykey'', sr_namespace = ns\<rparr> = ns"
  "\<forall>x\<in>set (kc_secrets (secret_cluster ns)). \<not> labelledSecret n u t x"
  by (simp_all add: secret_restore_def demo_file_restore_def sshSpec_def Let_def secretNamespace_def secret_cluster_def labelledSecret_def
      selected_def empty_meta_def)

theorem secret_in_restore_namespace_fails_witness:
  "isl (fst (createFileServerResources kc_env (secret_restore ''user'') (secret_cluster ''user'')))
   \<and> (\<exists>w1. ensureCredentials kc_restoreEnv (secret_restore ''keys'') (secret_cluster ''keys'') = (Inr (), w1)
        \<and> \<not> isl (fst (sshConfig kc_restoreEnv (secret_restore ''keys'') w1)))"
proof -
  obtain w1 where run: "ensureCredentials kc_restoreEnv (secret_restore ''keys'') (secret_cluster ''keys'') = (Inr (), w1)"
    using secret_copied by (auto split: prod.splits)
  have r: "se_restore kc_env = kc_restoreEnv" by (simp add: kc_env_def)
  note main = secret_in_restore_namespace_fails [where S = kc_env, unfolded r, OF clusterSecrets.secret_store_axioms secret_facts(1) _ secret_facts(4)]
  have "isl (fst (createFileServerResources kc_env (secret_restore ''user'') (secret_cluster ''user'')))"
    using main [OF _ secret_prepared refl secret_facts(1) refl refl] by (simp add: secret_facts)
  moreover have "\<not> isl (fst (sshConfig kc_restoreEnv (secret_restore ''keys'') w1))"
    using main [OF _ run refl secret_facts(1) refl refl] by (simp add: secret_facts) (simp add: kc_restoreEnv_def listOf_def)
  ultimately show ?thesis using run by blast
qed

end
