(* ===== verification/Workflow_Completion.thy ===== *)
theory Workflow_Completion
  imports Workflow_Properties Credential_Facts
begin

text \<open>
  What a completed file restore has been through. A run is a sequence of reconciliations between which everything but the
  phase and the conditions of the file restore may change: Velero goes on, claims are bound, other controllers and users
  write. When such a run ends in the stage of a completed restore, one of its reconciliations found every Velero restore
  finished and every claim in place, and a later one created the file server from the claims.
\<close>

section \<open>Claims in place\<close>

text \<open>A sequence of reads that finds the restored claim of each mount by its labels, and gets it, not lost. The validation
  of the claims returns \<^const>\<open>True\<close> exactly when it has gone through such a sequence.\<close>

inductive claims_in_place :: "'w restore_env \<Rightarrow> string \<Rightarrow> pvc_mount list \<Rightarrow> 'w \<Rightarrow> 'w \<Rightarrow> bool" for E :: "'w restore_env" and ns :: string where
  no_claims: "claims_in_place E ns [] w w"
| next_claim: "findRestoredPVCName E ns (mt_restoreName m) (mt_pvcName m) w = (Inr name, wa)
    \<Longrightarrow> re_getClaim E \<lparr>nn_namespace = ns, nn_name = name\<rparr> wa = (Inr c, wb) \<Longrightarrow> cl_phase c \<noteq> ''Lost''
    \<Longrightarrow> claims_in_place E ns ms wb w1 \<Longrightarrow> claims_in_place E ns (m # ms) w w1"

inductive_cases claims_in_placeE [elim!]: "claims_in_place E ns [] w w1" "claims_in_place E ns (m # ms) w w1"

lemma checked_mounts: "checkMounts E ns ms b w = (Inr True, w1) \<longleftrightarrow> b \<and> claims_in_place E ns ms w w1"
proof (induction ms arbitrary: b w)
  case (Cons m ms)
  show ?case
  proof
    assume run: "checkMounts E ns (m # ms) b w = (Inr True, w1)"
    obtain x w2 where x: "findRestoredPVCName E ns (mt_restoreName m) (mt_pvcName m) w = (x, w2)" by fastforce
    then obtain name where name: "x = Inr name" using run Cons.IH [of False] by (cases x) auto
    obtain y w3 where y: "re_getClaim E \<lparr>nn_namespace = ns, nn_name = name\<rparr> w2 = (y, w3)" by fastforce
    then obtain c where c: "y = Inr c" "cl_phase c \<noteq> ''Lost''" "checkMounts E ns ms b w3 = (Inr True, w1)"
      using run x name by (cases y) (auto split: if_splits)
    then show "b \<and> claims_in_place E ns (m # ms) w w1"
      using x y name Cons.IH [of b w3] by (auto intro: claims_in_place.intros)
  qed (auto simp: Cons.IH)
qed (auto intro: claims_in_place.intros)

lemma validated_mounts: "validateRestoredPVCs E v w = (Inr True, w1)
  \<longleftrightarrow> restoreNs v \<noteq> [] \<and> extractPVCMountsFromVMFR v \<noteq> [] \<and> claims_in_place E (restoreNs v) (extractPVCMountsFromVMFR v) w w1"
  by (auto simp: validateRestoredPVCs_def checked_mounts)

section \<open>The two milestones\<close>

text \<open>
  A reconciliation that reads the object, lists the Velero restores labelled for it, finds at least one and each of them in
  a phase the controller counts as completed. The phases are brought into the status, in memory or by an update; the names in
  the data downloads are corrected; and then every claim to mount is found in place.
\<close>

definition restoredAt :: "'w restore_env \<Rightarrow> namespaced_name \<Rightarrow> 'w \<Rightarrow> bool" where
  "restoredAt E key w \<longleftrightarrow> (\<exists>v w0 rs w1 v1 v2 w2 w3. fe_get (re_vmfr E) key w = (Inr v, w0)
     \<and> fe_listRestores (re_vmfr E) (fe_oadpNamespace (re_vmfr E)) (ownedBy v) w0 = (Inr rs, w1) \<and> rs \<noteq> []
     \<and> (\<forall>r\<in>set rs. vr_phase r \<in> {''Completed'', ''Finalizing'', ''FinalizingPartiallyFailed''})
     \<and> v1 = v \<lparr>vmfr_status := (vmfr_status v) \<lparr>fs_pvcRestores :=
          onRealRestores (followAll (fe_oadpNamespace (re_vmfr E)) rs) (fs_pvcRestores (vmfr_status v))\<rparr>\<rparr>
     \<and> ((v2, w2) = (v1, w1) \<or> fe_updateStatus (re_vmfr E) v1 w1 = (Inr v2, w2))
     \<and> extractPVCMountsFromVMFR v2 \<noteq> []
     \<and> claims_in_place E (restoreNs v2) (extractPVCMountsFromVMFR v2) (snd (fixDataDownloadPVCNames E v2 w2)) w3)"

text \<open>The answer to a creation after which the object is there.\<close>

definition isThere :: "'o result \<Rightarrow> bool" where
  "isThere r \<longleftrightarrow> (case r of Inl e \<Rightarrow> IsAlreadyExists e | Inr _ \<Rightarrow> True)"

text \<open>A reconciliation that reads the object, resolves its claims and credentials, and creates, or finds, the pod with a mount for
  every claim, and then the service.\<close>

definition servedAt :: "'w server_env \<Rightarrow> namespaced_name \<Rightarrow> 'w \<Rightarrow> bool" where
  "servedAt S key w \<longleftrightarrow> (\<exists>v w0 ms wa ssh wb fb wc p q wd s z we. fe_get (re_vmfr (se_restore S)) key w = (Inr v, w0)
     \<and> extractPVCMountsFromVMFR v \<noteq> []
     \<and> foldR (resolveMount (se_restore S) (restoreNs v)) (extractPVCMountsFromVMFR v) [] w0 = (Inr ms, wa)
     \<and> map mt_pvcName ms = map mt_pvcName (extractPVCMountsFromVMFR v)
     \<and> map mt_restoreName ms = map mt_restoreName (extractPVCMountsFromVMFR v)
     \<and> sshConfig (se_restore S) v wa = (Inr ssh, wb) \<and> fileBrowserConfig (se_restore S) v wb = (Inr fb, wc)
     \<and> buildFileServerPodSpec (se_zone S) (podConfig (se_zone S) v ms ssh fb) = Inr p
     \<and> se_createPod S p wc = (q, wd) \<and> isThere q
     \<and> buildFileServerService (serviceConfig v ssh fb) = Inr s \<and> se_createService S s wd = (z, we) \<and> isThere z)"

lemma resolved_mount:
  "resolveMount E ns m acc w = (Inr ms, w1) \<Longrightarrow> \<exists>m1. ms = acc @ [m1] \<and> mt_pvcName m1 = mt_pvcName m \<and> mt_restoreName m1 = mt_restoreName m"
  by (auto simp: resolveMount_def split: prod.splits sum.splits)

lemma resolved_mounts:
  "foldR (resolveMount E ns) xs acc w = (Inr ms, w1) \<Longrightarrow> map mt_pvcName ms = map mt_pvcName (acc @ xs)
     \<and> map mt_restoreName ms = map mt_restoreName (acc @ xs)"
proof (induction xs arbitrary: acc w)
  case (Cons x xs)
  then obtain acc1 w2 where a: "resolveMount E ns x acc w = (Inr acc1, w2)" "foldR (resolveMount E ns) xs acc1 w2 = (Inr ms, w1)"
    by (auto elim: bindR_InrE)
  show ?case using Cons.IH [OF a(2)] resolved_mount [OF a(1)] by auto
qed simp

lemma ofResult_Inr: "ofResult msg r w = (Inr x, w1) \<longleftrightarrow> r = Inr x \<and> w1 = w"
  by (auto simp: ofResult_def split: sum.splits)

lemma createUnlessExists_there: "createUnlessExists msg obj m w = (Inr x, w1) \<Longrightarrow> \<exists>r. m w = (r, w1) \<and> isThere r"
  by (auto simp: createUnlessExists_def isThere_def split: prod.splits sum.splits if_splits)

lemma server_created:
  assumes "fe_get (re_vmfr (se_restore S)) key w = (Inr v, w0)" and "createFileServerResources S v w0 = (Inr v1, w1)"
  shows "servedAt S key w"
proof -
  have ne: "extractPVCMountsFromVMFR v \<noteq> []" "restoreNs v \<noteq> []"
    using assms(2) by (auto simp: createFileServerResources_def Let_def split: if_splits)
  obtain ms wa ssh wb fb wc p x wd s y we where r:
    "foldR (resolveMount (se_restore S) (restoreNs v)) (extractPVCMountsFromVMFR v) [] w0 = (Inr ms, wa)"
    "sshConfig (se_restore S) v wa = (Inr ssh, wb)" "fileBrowserConfig (se_restore S) v wb = (Inr fb, wc)"
    "buildFileServerPodSpec (se_zone S) (podConfig (se_zone S) v ms ssh fb) = Inr p"
    "createUnlessExists ''failed to create file server pod: '' p (se_createPod S p) wc = (Inr x, wd)"
    "buildFileServerService (serviceConfig v ssh fb) = Inr s"
    "createUnlessExists ''failed to create file server service: '' s (se_createService S s) wd = (Inr y, we)"
    using assms(2) ne by (auto simp: createFileServerResources_def Let_def ofResult_Inr elim!: bindR_InrE)
  show ?thesis
    using assms(1) ne resolved_mounts [OF r(1)] r createUnlessExists_there [OF r(5)] createUnlessExists_there [OF r(7)]
    unfolding servedAt_def append_Nil by blast
qed

section \<open>Single reconciliations\<close>

context file_server
begin

text \<open>Phase and conditions of a restore that still waits, or has failed while waiting.\<close>

definition heldBack :: "'w \<Rightarrow> bool" where
  "heldBack w \<longleftrightarrow> (\<exists>s l. life w = Some l \<and> atStage s l \<and> s \<in> {SWaitingForRestores, SInvalid, SSomeFailed, SAllFailed})"

lemma heldBack_synced: "synced v w \<Longrightarrow> atStage s (lifeOf v) \<Longrightarrow> s \<in> {SWaitingForRestores, SInvalid, SSomeFailed, SAllFailed} \<Longrightarrow> heldBack w"
  unfolding heldBack_def synced_def by blast

lemma heldBack_patch:
  assumes "atStage SWaitingForRestores (lifeOf v)" and "run.moves SWaitingForRestores t ph cs" and "t \<in> {SInvalid, SSomeFailed, SAllFailed}"
  shows "triple (synced v) (patchWith V v ph cs g) (\<lambda>_. heldBack) heldBack"
proof -
  have on: "run.on SWaitingForRestores SWaitingForRestores v" using assms(1) by (simp add: run.on_def run.reached_def)
  show ?thesis
    by (rule triple_conseq [OF run.patch_moves [OF on assms(2)]])
       (use assms heldBack_synced in \<open>auto simp: run.reached_def\<close>)
qed

lemma heldBack_fail:
  "atStage SWaitingForRestores (lifeOf v) \<Longrightarrow> triple (synced v) (failValidation V v reason msg) Q heldBack"
  unfolding failValidation_def failedConditions_def
  by (rule triple_bind [OF heldBack_patch [of v SInvalid]])
     (auto intro!: run.movesI triple_fail stage_step.invalid simp: stageStatuses_def)

lemma heldBack_finish:
  assumes at: "atStage SWaitingForRestores (lifeOf v)" and "mo_failed m > 0 \<or> mo_completed m = 0"
  shows "triple (synced v) (finishRestores (se_restore S) v m) (\<lambda>_. heldBack) heldBack"
proof -
  obtain ph cs where o: "restoreOutcome (mo_completed m) (mo_failed m) (mo_completed m + mo_failed m + mo_inProgress m) = (ph, cs)" by fastforce
  have "run.outcomeStage (mo_completed m) (mo_failed m) \<in> {SInvalid, SSomeFailed, SAllFailed}"
    using assms(2) by (auto simp: run.outcomeStage_def)
  note held = heldBack_patch [OF at run.outcome_moves [OF o] this]
  have "triple (synced v) (bindR (patchWith V v ph cs False) (\<lambda>_. returnR (ph = VMFRPhaseInProgress))) (\<lambda>_. heldBack) heldBack"
    by (rule triple_bind [OF held triple_return])
  then show ?thesis
    unfolding finishRestores_def Let_def o prod.case
    using heldBack_synced [OF _ at] by (intro triple_if triple_fail) auto
qed

text \<open>The controller gets past the restores only after all of them have completed and every claim is in place.\<close>

lemma finish_passed:
  assumes at: "atStage SWaitingForRestores (lifeOf v)" and sy: "synced v w" and fin: "finishRestores (se_restore S) v m w = (r, w1)"
    and past: "\<not> heldBack w1"
  shows "mo_failed m = 0 \<and> mo_completed m > 0"
proof (rule ccontr)
  assume "\<not> (mo_failed m = 0 \<and> mo_completed m > 0)"
  then have "mo_failed m > 0 \<or> mo_completed m = 0" by auto
  note h = heldBack_finish [OF at this]
  show False using triple_Inr [OF h sy] triple_Inl [OF h sy] fin past by (cases r) blast+
qed

lemma settle_passed:
  assumes at: "atStage SWaitingForRestores (lifeOf v)" and sy: "synced v w"
    and settle: "settleRestores (se_restore S) m v w = (r, w1)" and past: "\<not> heldBack w1"
  shows "mo_inProgress m = 0 \<and> mo_failed m = 0
    \<and> (\<exists>w2. validateRestoredPVCs (se_restore S) v (snd (fixDataDownloadPVCNames (se_restore S) v w)) = (Inr True, w2))"
proof -
  let ?E = "se_restore S"
  have kept: "heldBack wx" if "synced v wx" for wx using heldBack_synced [OF that at] by simp
  obtain d wc where d: "fixDataDownloadPVCNames ?E v w = (d, wc)" by fastforce
  have sc: "synced v wc" using sy quietD [OF quiet_fixDataDownloads d] by (simp add: synced_def)
  have ip: "mo_inProgress m = 0" using settle past kept [OF sc] by (auto simp: settleRestores_def d split: if_splits)
  have c: "mo_completed m > 0" using settle ip finish_passed [OF at sc _ past] by (auto simp: settleRestores_def d split: if_splits)
  obtain x wd where x: "validateRestoredPVCs ?E v wc = (x, wd)" by fastforce
  have sd: "synced v wd" using sc quietD [OF quiet_validate x] by (simp add: synced_def)
  have val: "(case x of Inl e \<Rightarrow> failValidation V v ''PVCValidationFailed'' (''PVC validation failed: '' @ err_msg e) wd
      | Inr ready \<Rightarrow> if ready then finishRestores ?E v m wd else (Inr True, wd)) = (r, w1)"
    using settle ip c by (cases x) (auto simp: settleRestores_def d x split: bool.splits)
  have "x = Inr True"
  proof (cases x)
    case (Inl e)
    let ?f = "failValidation V v ''PVCValidationFailed'' (''PVC validation failed: '' @ err_msg e)"
    have h: "triple (synced v) ?f (\<lambda>(_ :: bool). heldBack) heldBack" by (rule heldBack_fail [OF at])
    have "?f wd = (r, w1)" using val Inl by simp
    then show ?thesis using triple_Inr [OF h sd] triple_Inl [OF h sd] past by (cases r) blast+
  next
    case (Inr b)
    then show ?thesis using val past kept [OF sd] by (cases b) auto
  qed
  moreover have "finishRestores ?E v m wd = (r, w1)" using val \<open>x = Inr True\<close> by simp
  ultimately show ?thesis using finish_passed [OF at sd _ past] ip d x by simp
qed

lemma counted_completed:
  assumes "mo_inProgress (monitorAll oadp rs ps) = 0" and "mo_failed (monitorAll oadp rs ps) = 0"
  shows "\<forall>r\<in>set rs. vr_phase r \<in> {''Completed'', ''Finalizing'', ''FinalizingPartiallyFailed''}"
proof -
  have "\<forall>r\<in>set rs. classifyPhase (vr_phase r) = RCompleted"
    using assms monitor_counts [of oadp rs ps] by (auto simp: filter_empty_conv) (metis restore_class.exhaust)
  then show ?thesis by (auto simp: classifyPhase_def split: if_splits)
qed

lemma wait_passed:
  assumes get: "fe_get V key w = (Inr v, w0)" and at: "atStage SWaitingForRestores (lifeOf v)"
    and run: "waitForRestoresStep (se_restore S) v w0 = (r, w1)" and past: "\<not> heldBack w1"
  shows "restoredAt (se_restore S) key w"
proof -
  let ?E = "se_restore S" and ?oadp = "fe_oadpNamespace V"
  have sy: "synced v w0" using get_value [OF get] by (simp add: synced_def)
  have kept: "heldBack wx" if "synced u wx" "lifeOf u = lifeOf v" for u wx
    using heldBack_synced [OF that(1)] that(2) at by simp
  obtain l wa where l: "fe_listRestores V ?oadp (ownedBy v) w0 = (l, wa)" by fastforce
  have sa: "synced v wa" using sy quietD [OF vmfr_calls(2) l] by (simp add: synced_def)
  obtain rs where rs: "l = Inr rs" "rs \<noteq> []"
    using run past kept [OF sa] unfolding waitForRestoresStep_def monitorVeleroRestores_def bindR_def l
    by (cases l) (auto split: if_splits)
  let ?m = "monitorAll ?oadp rs (fs_pvcRestores (vmfr_status v))"
  let ?v1 = "v \<lparr>vmfr_status := (vmfr_status v) \<lparr>fs_pvcRestores := mo_pvcs ?m\<rparr>\<rparr>"
  have l1: "lifeOf ?v1 = lifeOf v" by (simp add: lifeOf_def)
  have sv1: "synced ?v1 wa" using sa l1 by (simp add: synced_def)
  obtain u wb where u: "(if mo_updated ?m then fe_updateStatus V ?v1 else returnR ?v1) wa = (u, wb)" by fastforce
  have rest: "(case u of Inl e \<Rightarrow> (Inl e, wb) | Inr v2 \<Rightarrow> settleRestores ?E ?m v2 wb) = (r, w1)"
    using run u rs by (simp add: waitForRestoresStep_def monitorVeleroRestores_def l bindR_def Let_def split: sum.splits)
  have "synced ?v1 wb" if "u = Inl e" for e
    using u that sv1 update_err by (auto simp: synced_def split: if_splits)
  then obtain v2 where v2: "u = Inr v2" using rest past kept [OF _ l1] by (cases u) auto
  have s2: "synced v2 wb" "lifeOf v2 = lifeOf v"
    using u v2 sv1 l1 update_ok [of ?v1 wa v2 wb] by (auto simp: synced_def split: if_splits)
  have src: "(v2, wb) = (?v1, wa) \<or> fe_updateStatus V ?v1 wa = (Inr v2, wb)" using u v2 by (auto split: if_splits)
  have "settleRestores ?E ?m v2 wb = (r, w1)" using rest v2 by simp
  then obtain wd where p: "mo_inProgress ?m = 0" "mo_failed ?m = 0"
    "validateRestoredPVCs ?E v2 (snd (fixDataDownloadPVCNames ?E v2 wb)) = (Inr True, wd)"
    using settle_passed [OF _ s2(1) _ past] at s2(2) by auto
  show ?thesis
    unfolding restoredAt_def using get l rs counted_completed [OF p(1,2)] src p(3) monitor_pvcs [of ?oadp rs "fs_pvcRestores (vmfr_status v)"]
    by (intro exI [of _ v] exI [of _ w0] exI [of _ rs] exI [of _ wa] exI [of _ ?v1] exI [of _ v2] exI [of _ wb] exI [of _ wd])
       (simp add: validated_mounts)
qed

end

context file_server
begin

text \<open>Phase and conditions of a restore without a file server after a reconciliation that tried to create it.\<close>

definition unserved :: "'w \<Rightarrow> bool" where
  "unserved w \<longleftrightarrow> (\<exists>s l. life w = Some l \<and> atStage s l \<and> s \<in> {SCredentialsReady, SInvalid})"

lemma server_passed:
  assumes get: "fe_get V key w = (Inr v, w0)" and at: "atStage SCredentialsReady (lifeOf v)"
    and step: "createFileServerStep (se_restore S) (createFileServerResources S) v w0 = (r, w1)" and past: "\<not> unserved w1"
  shows "servedAt S key w"
proof -
  obtain x wa where x: "createFileServerResources S v w0 = (x, wa)" by fastforce
  have on: "run.on SCredentialsReady SCredentialsReady v" using at by (simp add: run.on_def run.reached_def)
  have sa: "synced v wa" using get_value [OF get] quietD [OF createServer_quiet x] by (simp add: synced_def)
  show ?thesis
  proof (cases x)
    case (Inl e)
    let ?f = "failValidation V v ''FileServerCreationFailed'' (''Failed to create file server resources: '' @ err_msg e)"
    have "run.moves SCredentialsReady SInvalid VMFRPhaseFailed (failedConditions rs msg)" for rs msg
      unfolding failedConditions_def by (rule run.movesI) (simp_all add: run.moving)
    from run.patch_moves [OF on this]
    have p: "triple (synced v) (patchWith V v VMFRPhaseFailed (failedConditions rs msg) False) (\<lambda>_. unserved) unserved" for rs msg
      by (rule triple_conseq) (use at in \<open>auto simp: unserved_def synced_def run.reached_def\<close>)
    have h: "triple (synced v) ?f (\<lambda>(_ :: bool). unserved) unserved"
      unfolding failValidation_def by (rule triple_bind [OF p triple_fail])
    have "?f wa = (r, w1)" using step Inl by (simp add: createFileServerStep_def x)
    then show ?thesis using triple_Inr [OF h sa] triple_Inl [OF h sa] past by (cases r) blast+
  next
    case (Inr v1)
    then show ?thesis using server_created [OF get] x by blast
  qed
qed

text \<open>A reconciliation in a stage of the workflow is its step; without the object, or with a deletion, the stage stays.\<close>

lemma reconcile_serving:
  assumes "fe_get V key w = (Inr v, w0)" and "om_deletion (vmfr_meta v) = None" and "atStage SCredentialsReady (lifeOf v)"
  shows "reconcile w = bindR (createFileServerStep (se_restore S) (createFileServerResources S) v) returnR w0"
proof -
  have on: "run.on SCredentialsReady SCredentialsReady v" using assms(3) by (simp add: run.on_def run.reached_def)
  obtain c where "fe_findCondition V (fs_conditions (vmfr_status v)) ConditionTypeProgressing = Some c" "cond_reason c = ''CredentialsReady''"
    using run.reason_at [OF on] by auto
  then have "executeFileRestoreWorkflow (se_restore S) (createFileServerResources S) v
      = createFileServerStep (se_restore S) (createFileServerResources S) v"
    by (simp add: executeFileRestoreWorkflow_def)
  then show ?thesis
    using assms(1) by (simp add: ReconcileVMFR_def run.steps_at [OF on assms(2)] bindR_def split: prod.splits sum.splits)
qed

lemma bind_return_run: "bindR m returnR w = (r, w1) \<Longrightarrow> m w = (r, w1)"
  by (auto simp: bindR_def split: prod.splits sum.splits)

text \<open>Either the reconciliation leaves the stage as it is, or it read the object and the object is not being deleted.\<close>

lemma reconcile_read:
  assumes "life w = Some l" and "reconcile w = (r, w1)" and "life w1 \<noteq> None"
  shows "life w1 = Some l \<or> (\<exists>v w0. fe_get V key w = (Inr v, w0) \<and> om_deletion (vmfr_meta v) = None \<and> l = lifeOf v)"
proof (cases "fst (fe_get V key w)")
  case (Inl e)
  then obtain w0 where g: "fe_get V key w = (Inl e, w0)" by (metis prod.collapse)
  then have "w1 = w0" using assms(2) by (auto simp: ReconcileVMFR_def split: if_splits)
  then show ?thesis using quietD [OF get_life g] assms(1) by simp
next
  case (Inr v)
  then obtain w0 where g: "fe_get V key w = (Inr v, w0)" by (metis prod.collapse)
  have "l = lifeOf v" using get_value [OF g] quietD [OF get_life g] assms(1) by simp
  moreover have "life w1 = life w" if "om_deletion (vmfr_meta v) \<noteq> None"
    using run.reconcile_deleted [OF g that assms(2)] assms(3) by blast
  ultimately show ?thesis using g assms(1) by auto
qed

lemma reconcile_restored:
  assumes "life w = Some l" "atStage SWaitingForRestores l" "reconcile w = (r, w1)" "life w1 = Some l1" "atStage t l1"
    and "t \<notin> {SWaitingForRestores, SInvalid, SSomeFailed, SAllFailed}"
  shows "restoredAt (se_restore S) key w"
proof -
  have "l1 \<noteq> l" using at_stage_unique [OF assms(2)] assms(5,6) by auto
  then obtain v w0 where v: "fe_get V key w = (Inr v, w0)" "om_deletion (vmfr_meta v) = None" "l = lifeOf v"
    using reconcile_read [OF assms(1,3)] assms(4) by auto
  have "\<not> heldBack w1" using at_stage_unique [OF assms(5)] assms(4,6) by (auto simp: heldBack_def)
  moreover have "waitForRestoresStep (se_restore S) v w0 = (r, w1)"
    by (rule bind_return_run, rule trans [OF sym [OF reconcile_waiting [OF v(1,2) assms(2) [unfolded v(3)]]] assms(3)])
  ultimately show ?thesis using wait_passed [OF v(1)] assms(2) v(3) by blast
qed

lemma reconcile_served:
  assumes "life w = Some l" "atStage SCredentialsReady l" "reconcile w = (r, w1)" "life w1 = Some l1" "atStage t l1"
    and "t \<notin> {SCredentialsReady, SInvalid}"
  shows "servedAt S key w"
proof -
  have "l1 \<noteq> l" using at_stage_unique [OF assms(2)] assms(5,6) by auto
  then obtain v w0 where v: "fe_get V key w = (Inr v, w0)" "om_deletion (vmfr_meta v) = None" "l = lifeOf v"
    using reconcile_read [OF assms(1,3)] assms(4) by auto
  have "\<not> unserved w1" using at_stage_unique [OF assms(5)] assms(4,6) by (auto simp: unserved_def)
  moreover have "createFileServerStep (se_restore S) (createFileServerResources S) v w0 = (r, w1)"
    by (rule bind_return_run, rule trans [OF sym [OF reconcile_serving [OF v(1,2) assms(2) [unfolded v(3)]]] assms(3)])
  ultimately show ?thesis using server_passed [OF v(1)] assms(2) v(3) by blast
qed

end

section \<open>Runs\<close>

text \<open>The stages after the restores, and after the creation of the file server: each set is entered through one transition.\<close>

definition pastRestores :: "stage set" where
  "pastRestores = {SRestoresCompleted, SCredentialsReady, SWaitingForRoute, SCompleted}"

definition pastServer :: "stage set" where
  "pastServer = {SWaitingForRoute, SCompleted}"

lemma enter_pastRestores:
  "(step_outside {SWaitingForRestores})\<^sup>*\<^sup>* s t \<Longrightarrow> s \<notin> pastRestores \<Longrightarrow> t \<notin> pastRestores"
  by (induction rule: rtranclp_induct) (auto simp: step_outside_def pastRestores_def)

lemma enter_pastServer:
  "(step_outside {SCredentialsReady})\<^sup>*\<^sup>* s t \<Longrightarrow> s \<notin> pastServer \<Longrightarrow> t \<notin> pastServer"
  by (induction rule: rtranclp_induct) (auto simp: step_outside_def pastServer_def)

text \<open>The last index of a finite run at which a predicate holds.\<close>

lemma last_index:
  assumes "P (0 :: nat)" and "\<not> P N"
  shows "\<exists>n<N. P n \<and> (\<forall>m. n < m \<and> m \<le> N \<longrightarrow> \<not> P m)"
proof -
  let ?A = "{n. n \<le> N \<and> P n}"
  have "finite ?A" "?A \<noteq> {}" using assms(1) by auto
  then have m: "Max ?A \<in> ?A" "\<forall>m\<in>?A. m \<le> Max ?A" using Max_in by auto
  then have "Max ?A < N" using assms(2) by (metis (mono_tags, lifting) mem_Collect_eq le_neq_implies_less)
  then show ?thesis using m by (intro exI [of _ "Max ?A"]) (auto simp: not_le [symmetric])
qed

context file_server
begin

text \<open>A run of \<open>N\<close> reconciliations; between two of them phase and conditions of the file restore stay.\<close>

definition reconciledRun :: "nat \<Rightarrow> (nat \<Rightarrow> 'w) \<Rightarrow> bool" where
  "reconciledRun N f \<longleftrightarrow> (\<forall>n<N. \<exists>r w. reconcile (f n) = (r, w) \<and> life (f (Suc n)) = life w) \<and> (\<forall>n\<le>N. life (f n) \<noteq> None)"

lemma run_stages:
  assumes "reconciledRun N f" and "life (f 0) = Some l" and "atStage s l"
  shows "\<exists>st. \<forall>n\<le>N. \<exists>l. life (f n) = Some l \<and> atStage (st n) l"
proof -
  have "\<exists>s l. life (f n) = Some l \<and> atStage s l" if "n \<le> N" for n
    using that
  proof (induction n)
    case (Suc n)
    then obtain s l where l: "life (f n) = Some l" "atStage s l" by auto
    obtain r w where w: "reconcile (f n) = (r, w)" "life (f (Suc n)) = life w"
      using assms(1) Suc.prems unfolding reconciledRun_def by (meson Suc_le_lessD)
    have "life (f (Suc n)) \<noteq> None" using assms(1) Suc.prems unfolding reconciledRun_def by blast
    then show ?case using reconcile_step [OF l w(1)] w(2) by auto
  qed (use assms(2,3) in blast)
  then show ?thesis by metis
qed

text \<open>A set of stages that is entered through one transition only is entered by a reconciliation from the stage before it.\<close>

lemma run_crosses:
  assumes f: "reconciledRun N f" and st: "\<forall>n\<le>N. \<exists>l. life (f n) = Some l \<and> atStage (st n) l"
    and ends: "st 0 \<notin> T" "st N \<in> T" and gate: "g \<notin> T" "g \<in> {SWaitingForRestores, SCredentialsReady}"
    and enter: "\<forall>s t. (step_outside {g})\<^sup>*\<^sup>* s t \<longrightarrow> s \<notin> T \<longrightarrow> t \<notin> T"
  shows "\<exists>j<N. st j = g \<and> (\<forall>m. j < m \<and> m \<le> N \<longrightarrow> st m \<in> T)
    \<and> (\<exists>l r w l1. life (f j) = Some l \<and> atStage g l \<and> reconcile (f j) = (r, w) \<and> life w = Some l1 \<and> atStage (st (Suc j)) l1)"
proof -
  obtain j where j: "j < N" "st j \<notin> T" "\<forall>m. j < m \<and> m \<le> N \<longrightarrow> st m \<in> T"
    using last_index [of "\<lambda>n. st n \<notin> T" N] ends by blast
  obtain l where l: "life (f j) = Some l" "atStage (st j) l" using st j(1) by (meson less_imp_le)
  obtain l1 where l1: "life (f (Suc j)) = Some l1" "atStage (st (Suc j)) l1" using st j(1) by (meson Suc_leI)
  obtain r w where w: "reconcile (f j) = (r, w)" "life (f (Suc j)) = life w" using f j(1) unfolding reconciledRun_def by blast
  have lw: "life w = Some l1" using w(2) l1(1) by simp
  have "st j = g"
  proof (rule ccontr)
    assume "st j \<noteq> g"
    then have "st j \<notin> {g}" by simp
    then have "\<exists>s' l'. life w = Some l' \<and> atStage s' l' \<and> (step_outside {g})\<^sup>*\<^sup>* (st j) s'"
      using gate(2) toRestores.reconcile_reaches [OF l] toServer.reconcile_reaches [OF l] w(1) lw by auto
    then obtain s' where s': "atStage s' l1" "(step_outside {g})\<^sup>*\<^sup>* (st j) s'" using lw by auto
    have "s' = st (Suc j)" by (rule at_stage_unique [OF s'(1) l1(2)])
    then show False using enter s'(2) j by (metis Suc_leI lessI)
  qed
  then show ?thesis using j l w(1) lw l1(2) by blast
qed

lemma run_completes:
  assumes f: "reconciledRun N f" and s: "life (f 0) = Some l" "atStage s l" "s \<notin> pastRestores"
    and c: "life (f N) = Some l1" "atStage SCompleted l1"
  shows "\<exists>j k. j < k \<and> k < N \<and> restoredAt (se_restore S) key (f j) \<and> servedAt S key (f k)"
proof -
  obtain st where st: "\<forall>n\<le>N. \<exists>l. life (f n) = Some l \<and> atStage (st n) l" using run_stages [OF f s(1,2)] by blast
  have first: "st 0 = s" using st s(1,2) at_stage_unique by fastforce
  have last: "st N = SCompleted" using st c at_stage_unique by fastforce
  have e: "st 0 \<notin> pastRestores" "st N \<in> pastRestores" "SWaitingForRestores \<notin> pastRestores"
    "SWaitingForRestores \<in> {SWaitingForRestores, SCredentialsReady}"
    and d: "st 0 \<notin> pastServer" "st N \<in> pastServer" "SCredentialsReady \<notin> pastServer"
    "SCredentialsReady \<in> {SWaitingForRestores, SCredentialsReady}"
    using first last s(3) by (auto simp: pastRestores_def pastServer_def)
  obtain j lj rj wj mj where j: "j < N" "st j = SWaitingForRestores" "\<forall>m. j < m \<and> m \<le> N \<longrightarrow> st m \<in> pastRestores"
    "life (f j) = Some lj" "atStage SWaitingForRestores lj" "reconcile (f j) = (rj, wj)" "life wj = Some mj" "atStage (st (Suc j)) mj"
    using run_crosses [OF f st e] enter_pastRestores by blast
  obtain k lk rk wk mk where k: "k < N" "st k = SCredentialsReady" "\<forall>m. k < m \<and> m \<le> N \<longrightarrow> st m \<in> pastServer"
    "life (f k) = Some lk" "atStage SCredentialsReady lk" "reconcile (f k) = (rk, wk)" "life wk = Some mk" "atStage (st (Suc k)) mk"
    using run_crosses [OF f st d] enter_pastServer by blast
  have "st (Suc j) \<in> pastRestores" using j(1,3) by (simp add: Suc_leI)
  then have rest: "restoredAt (se_restore S) key (f j)"
    by (intro reconcile_restored [OF j(4-8)]) (auto simp: pastRestores_def)
  have "st (Suc k) \<in> pastServer" using k(1,3) by (simp add: Suc_leI)
  then have serv: "servedAt S key (f k)" by (intro reconcile_served [OF k(4-8)]) (auto simp: pastServer_def)
  have "\<not> k < j" using k(3) j(1,2) by (auto simp: pastServer_def)
  moreover have "k \<noteq> j" using k(2) j(2) by auto
  ultimately show ?thesis using rest serv k(1) by (intro exI [of _ j] exI [of _ k]) simp
qed

end

section \<open>Property\<close>

text \<open>C2. A completed file restore was restored and served: whenever a sequence of reconciliations takes a file restore from a
  stage before the end of its Velero restores to the stage Completed, one reconciliation found every Velero restore of it
  finished and the claims of all of them in place, and a later one created the pod, with a mount for every restored claim, and
  the service. Whatever else happens between the reconciliations, no outcome of the calls on the API server leads there otherwise.\<close>

theorem completed_after_restore:
  assumes "file_server S life key"
    and "\<forall>n<N. \<exists>r w. ReconcileVMFR (se_restore S) (createFileServerResources S) key (f n) = (r, w) \<and> life (f (Suc n)) = life w"
    and "\<forall>n\<le>N. life (f n) \<noteq> None"
    and "life (f 0) = Some l" and "at_stage (fe_findCondition (re_vmfr (se_restore S))) s l" and "s \<notin> pastRestores"
    and "life (f N) = Some l1" and "at_stage (fe_findCondition (re_vmfr (se_restore S))) SCompleted l1"
  shows "\<exists>j k. j < k \<and> k < N \<and> restoredAt (se_restore S) key (f j) \<and> servedAt S key (f k)"
proof -
  have "file_server.reconciledRun S life key N f"
    using assms(2,3) by (simp add: file_server.reconciledRun_def [OF assms(1)])
  then show ?thesis by (rule file_server.run_completes [OF assms(1) _ assms(4-8)])
qed

text \<open>A file restore whose Velero restore has completed and whose claim is bound, with the conditions \<open>cs\<close>.\<close>

definition restored_cluster :: "secret list \<Rightarrow> cond_spec list \<Rightarrow> cluster" where
  "restored_cluster copied cs = (let v = secret_restore ''keys''; w = secret_cluster ''keys''
     in w \<lparr>kc_vmfr := Some (v \<lparr>vmfr_status := (vmfr_status v) \<lparr>fs_phase := VMFRPhaseInProgress,
            fs_conditions := map (specAt 0) cs\<rparr>\<rparr>),
          kc_secrets := kc_secrets w @ copied,
          kc_restores := [\<lparr>vr_meta = empty_meta \<lparr>om_name := ''r1'', om_namespace := ''adp'',
              om_labels := ownedBy v, om_annotations := [(BackupNameAnnotation, ''b1'')]\<rparr>, vr_backupName = ''b1'',
            vr_pvcUIDs = [''u1''], vr_includedNamespaces = [], vr_namespaceMapping = [], vr_includedResources = [], vr_phase = ''Completed''\<rparr>]\<rparr>)"

lemma restored_round1: "kc_life demo_request (snd (ReconcileVMFR (se_restore kc_env) (createFileServerResources kc_env) demo_request
    (restored_cluster [] waitingForRestores))) = Some (stagedLife VMFRPhaseInProgress (restoresReady 1))"
  by code_simp

lemma restored_round2: "kc_life demo_request (snd (ReconcileVMFR (se_restore kc_env) (createFileServerResources kc_env) demo_request
    (restored_cluster [] (restoresReady 1)))) = Some (stagedLife VMFRPhaseInProgress credentialsReady)"
  by code_simp

text \<open>The copy of the user's secret that the second round makes.\<close>

definition copied_key :: secret where
  "copied_key = (let s = copiedSecret (secret_restore ''keys'') ''mykey'' ''keys'' CredentialTypeSSH (hd (kc_secrets (secret_cluster ''keys'')))
     in s \<lparr>sec_meta := (sec_meta s) \<lparr>om_name := ''fr-ssh-1''\<rparr>\<rparr>)"

text \<open>On the reference cluster the creation of the file server succeeds once claims and credentials are found.\<close>

lemma added: "\<exists>y w1. createUnlessExists msg x (addTo meta objs store x) w = (Inr y, w1)"
  by (auto simp: createUnlessExists_def addTo_def present_def IsAlreadyExists_def)

lemma published: "\<exists>v1 w1. publishServer S v s w = (Inr v1, w1) \<and> vmfr_spec v1 = vmfr_spec v \<and> vmfr_meta v1 = vmfr_meta v"
  by (auto simp: publishServer_def updateFileServingInfo_def Let_def setServingInfo_def split: prod.splits)

lemma server_succeeds:
  assumes "restoreNs v \<noteq> []" "vmfr_name v \<noteq> []" "extractPVCMountsFromVMFR v \<noteq> []" "ms \<noteq> []"
    and "foldR (resolveMount kc_restoreEnv (restoreNs v)) (extractPVCMountsFromVMFR v) [] w = (Inr ms, w)"
    and "sshConfig kc_restoreEnv v w = (Inr ssh, w)" and "fileBrowserConfig kc_restoreEnv v w = (Inr fb, w)"
  shows "\<exists>v1 w1. createFileServerResources kc_env v w = (Inr v1, w1) \<and> vmfr_spec v1 = vmfr_spec v \<and> vmfr_meta v1 = vmfr_meta v"
proof -
  have E: "se_restore kc_env = kc_restoreEnv" by (simp add: kc_env_def)
  have "\<exists>p. buildFileServerPodSpec (se_zone kc_env) (podConfig (se_zone kc_env) v ms ssh fb) = Inr p"
    using assms(1,2,4) by (simp add: buildFileServerPodSpec_def podConfig_def Let_def split_def)
  then obtain p where p: "buildFileServerPodSpec (se_zone kc_env) (podConfig (se_zone kc_env) v ms ssh fb) = Inr p" by blast
  obtain s where s: "buildFileServerService (serviceConfig v ssh fb) = Inr s"
    using assms(1,2) by (auto simp: buildFileServerService_def serviceConfig_def gatherServicePorts_def)
  obtain y wa where y: "createUnlessExists ''failed to create file server pod: '' p (se_createPod kc_env p) w = (Inr y, wa)"
    using added [of "''failed to create file server pod: ''" p pod_meta kc_pods "\<lambda>x. kc_pods_update (\<lambda>_. x)" w] by (auto simp: kc_env_def)
  obtain z wb where z: "createUnlessExists ''failed to create file server service: '' s (se_createService kc_env s) wa = (Inr z, wb)"
    using added [of "''failed to create file server service: ''" s fv_meta kc_services "\<lambda>x. kc_services_update (\<lambda>_. x)" wa] by (auto simp: kc_env_def)
  show ?thesis
    using assms(1,3) published [of kc_env v z wb]
    by (simp add: createFileServerResources_def Let_def E assms(5-7) p s y z ofResult_def bindR_def)
qed

text \<open>The third round.\<close>

definition ready_restore :: vmfr where
  "ready_restore = the (kc_vmfr (restored_cluster [copied_key] credentialsReady))"

lemma ready_get: "fe_get (re_vmfr (se_restore kc_env)) demo_request (restored_cluster [copied_key] credentialsReady)
      = (Inr ready_restore, restored_cluster [copied_key] credentialsReady)"
    "om_deletion (vmfr_meta ready_restore) = None" "lifeOf ready_restore = stagedLife VMFRPhaseInProgress credentialsReady"
    "restoreNs ready_restore = ''user''" "vmfr_name ready_restore = ''fr''" "fileBrowserSpec ready_restore = None"
  by (simp_all add: kc_envs kc_getVMFR_def ready_restore_def restored_cluster_def secret_cluster_def secret_restore_def fresh_cluster_def
      demo_file_restore_def demo_request_def key_of_def lifeOf_def stagedLife_def Let_def empty_meta_def fileBrowserSpec_def)

lemma ready_mounts: "case foldR (resolveMount kc_restoreEnv ''user'') (extractPVCMountsFromVMFR ready_restore) []
      (restored_cluster [copied_key] credentialsReady)
    of (Inr ms, w1) \<Rightarrow> ms \<noteq> [] \<and> w1 = restored_cluster [copied_key] credentialsReady | _ \<Rightarrow> False"
  by code_simp

lemma ready_ssh: "case sshConfig kc_restoreEnv ready_restore (restored_cluster [copied_key] credentialsReady)
    of (Inr ssh, w1) \<Rightarrow> w1 = restored_cluster [copied_key] credentialsReady | _ \<Rightarrow> False"
  by code_simp

lemma credentials_at: "at_stage ref_find_condition SCredentialsReady (stagedLife VMFRPhaseInProgress credentialsReady)"
  by (simp add: at_stage_def stagedLife_def stageStatuses_def observed_def conditionTypes_def progressReason_def view_def payload_def
      ref_find_condition_def credentialsReady_def fourConditions_def specAt_def condition_type_defs)

lemma kc_patchServing:
  assumes "kc_life demo_request w = Some l" and "key_of (vmfr_meta a) = demo_request"
  shows "\<exists>x w1. patchServing kc_vmfrEnv v a ph cs w = (Inr x, w1)"
proof -
  obtain ds wa where ds: "stamped kc_vmfrEnv cs w = (ds, wa)" by fastforce
  obtain u where "kc_vmfr wa = Some u" "key_of (vmfr_meta u) = demo_request"
    using assms(1) kc_stamped [OF ds] by (auto simp: kc_life_def split: option.splits if_splits)
  then show ?thesis using assms(2) by (simp add: patchServing_def ds kc_calls withVMFR_def)
qed

lemma ready_completes:
  "\<exists>l. kc_life demo_request (snd (ReconcileVMFR (se_restore kc_env) (createFileServerResources kc_env) demo_request
      (restored_cluster [copied_key] credentialsReady))) = Some l \<and> at_stage ref_find_condition SCompleted l"
proof -
  let ?w = "restored_cluster [copied_key] credentialsReady" and ?v = ready_restore
  let ?cs = "completedConditions ''File server pod and service created, PVCs binding in progress''
           ''File restore completed, files accessible via file server''"
  have E: "se_restore kc_env = kc_restoreEnv" "re_vmfr kc_restoreEnv = kc_vmfrEnv" by (simp_all add: kc_env_def kc_restoreEnv_def)
  obtain ms where ms: "foldR (resolveMount kc_restoreEnv (restoreNs ?v)) (extractPVCMountsFromVMFR ?v) [] ?w = (Inr ms, ?w)" "ms \<noteq> []"
    using ready_mounts unfolding ready_get(4) by (auto split: prod.splits sum.splits)
  obtain ssh where ssh: "sshConfig kc_restoreEnv ?v ?w = (Inr ssh, ?w)"
    using ready_ssh by (auto split: prod.splits sum.splits)
  have "extractPVCMountsFromVMFR ?v \<noteq> []" using ms by auto
  then obtain v1 w1 where v1: "createFileServerResources kc_env ?v ?w = (Inr v1, w1)" "vmfr_spec v1 = vmfr_spec ?v" "vmfr_meta v1 = vmfr_meta ?v"
    using server_succeeds [OF _ _ _ ms(2,1) ssh, of None] ready_get(4-6) by (auto simp: fileBrowserConfig_def)
  have at: "at_stage (fe_findCondition (re_vmfr (se_restore kc_env))) SCredentialsReady (lifeOf ?v)"
    unfolding ready_get(3) kc_fields by (rule credentials_at)
  have on: "cluster.run.on SCredentialsReady SCredentialsReady ?v"
    using at by (simp add: cluster.run.on_def cluster.run.reached_def)
  have l1: "lifeOf v1 = lifeOf ?v" by (rule cluster.createServer_value [OF v1(1)])
  have k1: "kc_life demo_request w1 = Some (lifeOf ?v)"
    using quietD [OF cluster.createServer_quiet v1(1)] cluster.get_value [OF ready_get(1)] by simp
  have key: "key_of (vmfr_meta ?v) = demo_request"
    using ready_get(1) by (auto simp: kc_envs kc_getVMFR_def split: option.splits if_splits)
  obtain x w2 where p: "patchServing kc_vmfrEnv ?v v1 VMFRPhaseCompleted ?cs w1 = (Inr x, w2)"
    using kc_patchServing [OF k1] key v1(3) by metis
  have sy: "cluster.synced demo_request ?v w1" using k1 by (simp add: cluster.synced_def)
  have moves: "cluster.run.moves SCredentialsReady SCompleted VMFRPhaseCompleted ?cs" by (rule cluster.run.moves_complete) simp
  have "cluster.synced demo_request x w2 \<and> cluster.run.reached SCredentialsReady SCompleted x"
    by (rule triple_Inr [OF cluster.run.patchServing_moves [OF l1 on moves] sy]) (use p in \<open>simp add: E\<close>)
  then have fin: "kc_life demo_request w2 = Some (lifeOf x)" "at_stage ref_find_condition SCompleted (lifeOf x)"
    by (simp_all add: cluster.synced_def cluster.run.reached_def)
  have "\<not> externalRouteRequested v1" using v1(2) ready_get(6) by (simp add: externalRouteRequested_def fileBrowserSpec_def)
  then have "createFileServerStep kc_restoreEnv (createFileServerResources kc_env) ?v ?w = (Inr False, w2)"
    using v1(1) p by (simp add: createFileServerStep_def E bindR_def)
  then have "ReconcileVMFR (se_restore kc_env) (createFileServerResources kc_env) demo_request ?w = (Inr False, w2)"
    unfolding cluster.reconcile_serving [OF ready_get(1,2) at] by (simp add: E bindR_def)
  then show ?thesis using fin by simp
qed

text \<open>The clusters before the rounds: the secret is copied between the second and the third.\<close>

definition demo_run :: "nat \<Rightarrow> cluster" where
  "demo_run n = (if n = 0 then restored_cluster [] waitingForRestores else if n = 1 then restored_cluster [] (restoresReady 1)
     else if n = 2 then restored_cluster [copied_key] credentialsReady
     else snd (ReconcileVMFR (se_restore kc_env) (createFileServerResources kc_env) demo_request (restored_cluster [copied_key] credentialsReady)))"

lemma restored_life: "kc_life demo_request (restored_cluster ss cs) = Some (stagedLife VMFRPhaseInProgress cs)"
  by (simp add: kc_life_def restored_cluster_def secret_cluster_def secret_restore_def fresh_cluster_def demo_file_restore_def
      demo_request_def key_of_def lifeOf_def stagedLife_def Let_def)

theorem completed_after_restore_witness:
  "\<exists>j k. j < k \<and> k < 3 \<and> restoredAt (se_restore kc_env) demo_request (demo_run j) \<and> servedAt kc_env demo_request (demo_run k)"
proof -
  let ?rec = "ReconcileVMFR (se_restore kc_env) (createFileServerResources kc_env) demo_request"
  obtain l where l: "kc_life demo_request (demo_run 3) = Some l" "at_stage ref_find_condition SCompleted l"
    using ready_completes by (auto simp: demo_run_def)
  have "kc_life demo_request (demo_run (Suc n)) = kc_life demo_request (snd (?rec (demo_run n)))" if "n < 3" for n
  proof -
    have "n = 0 \<or> n = 1 \<or> n = 2" using that by auto
    then show ?thesis
      using restored_round1 restored_round2 by (auto simp: demo_run_def restored_life)
  qed
  then have run: "\<forall>n<3. \<exists>r w. ?rec (demo_run n) = (r, w) \<and> kc_life demo_request (demo_run (Suc n)) = kc_life demo_request w"
    by (metis prod.collapse)
  have alive: "\<forall>n\<le>3. kc_life demo_request (demo_run n) \<noteq> None"
    using l(1) by (auto simp: le_Suc_eq numeral_3_eq_3 demo_run_def restored_life)
  have "kc_life demo_request (demo_run 0) = Some (stagedLife VMFRPhaseInProgress waitingForRestores)"
    by (simp add: demo_run_def restored_life)
  then show ?thesis
    using completed_after_restore [OF cluster.file_server_axioms run alive, unfolded kc_fields, OF _ waiting_at _ l]
    by (simp add: pastRestores_def)
qed

end
