(* ===== verification/Discovery_Outcome.thy ===== *)
theory Discovery_Outcome
  imports Discovery_Properties Io_Logic
begin

text \<open>
  A discovery from its initialisation to its end: which backups become entries, that the batches keep the entries and the
  invalid list, and what the final status says. Two properties show where it departs from what the status fields are
  documented to mean. \<open>versioned_server\<close> adds the spec and the generation of the object to the contract of the server.
\<close>

section \<open>What a step stores\<close>

text \<open>The batches carry the names of the entries and the invalid list along.\<close>

definition carried :: "vmbd_status \<Rightarrow> vmbd_status \<Rightarrow> bool" where
  "carried st st1 \<longleftrightarrow> map bp_info (vs_progress st1) = map bp_info (vs_progress st) \<and> vs_invalidBackups st1 = vs_invalidBackups st"

lemma carried_refl: "carried st st" and carried_trans: "carried st st1 \<Longrightarrow> carried st1 st2 \<Longrightarrow> carried st st2"
  by (simp_all add: carried_def)

lemma info_setProgress: "map bp_info (setProgress i s msg t ps) = map bp_info ps"
  by (rule nth_equalityI) (simp_all add: setProgress_info)

lemma info_setAll: "map bp_info (setAll t ps rs) = map bp_info ps"
  by (induction rs arbitrary: ps) (simp_all add: setAll_Cons info_setProgress)

lemma carried_steps: "carried st (markBatch idxs t st)" "carried st (finishBatch rs t st)" "carried st (resetStuck i t st)"
proof -
  show "carried st (markBatch idxs t st)"
    unfolding carried_def mark_progress info_setAll by (simp add: markBatch_def addStats_def Let_def)
  show "carried st (finishBatch rs t st)"
    unfolding carried_def finish_progress info_setAll by (simp add: finishBatch_def addStats_def Let_def case_prod_beta)
  show "carried st (resetStuck i t st)"
    by (simp add: carried_def resetStuck_def addStats_def info_setProgress)
qed

context vmbd_server
begin

lemma attempts_stored:
  assumes "updateStatusAttempts E n caller v w = (Inr a, w1)" and "mine st caller" and "mine st v"
  shows "status_of w1 = Some st \<and> mine st a"
  using assms(1,3)
proof (induction n arbitrary: v w)
  case (Suc n)
  have k: "key_of (vmbd_meta v) = key" "vmbd_status v = st" using Suc.prems(2) by (auto simp: mine_def)
  obtain u w2 where u: "update_vmbd_status E v w = (u, w2)" by fastforce
  show ?case
  proof (cases u)
    case (Inr b)
    then show ?thesis using Suc.prems(1) u update_ok [OF k(1) u [unfolded Inr]] k(2) assms(2) by (auto simp: mine_def)
  next
    case (Inl e)
    then have retry: "IsConflict e \<and> n > 0" using Suc.prems(1) u by (auto split: if_splits)
    obtain g w3 where g: "get_vmbd E key w2 = (g, w3)" by fastforce
    obtain fresh where fresh: "g = Inr fresh" using Suc.prems(1) u Inl retry g k(1) by (cases g) auto
    have "updateStatusAttempts E n caller (fresh \<lparr>vmbd_status := vmbd_status v\<rparr>) w3 = (Inr a, w1)"
      using Suc.prems(1) u Inl retry g k(1) fresh by simp
    then show ?thesis
      by (rule Suc.IH) (use get_value [OF g [unfolded fresh]] k in \<open>simp add: mine_def\<close>)
  qed
qed simp

lemma update_stored:
  assumes "updateStatusWithRetry E (upd_status f v) w = (Inr a, w1)" and "mine st v"
  shows "status_of w1 = Some (f st) \<and> mine (f st) a"
  using attempts_stored [OF assms(1) [unfolded updateStatusWithRetry_def], of "f st"] assms(2) by (simp add: mine_def)

lemma now_status: "nowR E w = (r, w1) \<Longrightarrow> status_of w1 = status_of w"
  by (auto simp: nowR_def dest: clock_law split: prod.splits)

lemma process_carries:
  assumes run: "processDiscoveryBatch E v w = (Inr x, w1)" and v: "mine st v" and st: "status_of w = Some st"
  shows "\<exists>st1. status_of w1 = Some st1 \<and> carried st st1"
proof (cases "indicesWith StatusNew (vs_progress st)")
  case Nil
  have sv: "vmbd_status v = st" using v by (simp add: mine_def)
  show ?thesis
  proof (cases "indicesWith StatusInProgress (vs_progress st)")
    case (Cons i rest)
    then obtain t wt a where "updateStatusWithRetry E (upd_status (resetStuck i t) v) wt = (Inr a, w1)"
      using run sv Nil by (auto simp: processDiscoveryBatch_def withStats_def elim!: bindR_InrE split: if_splits)
    then show ?thesis using update_stored [OF _ v] carried_steps(3) by blast
  qed (use run sv Nil st carried_refl in \<open>simp add: processDiscoveryBatch_def\<close>)
next
  case (Cons j js)
  have sv: "vmbd_status v = st" using v by (simp add: mine_def)
  let ?idxs = "take BackupDiscoveryBatchSize (indicesWith StatusNew (vs_progress st))"
  obtain t wt v1 w2 rs w3 t2 w4 a where m: "updateStatusWithRetry E (upd_status (markBatch ?idxs t) v) wt = (Inr v1, w2)"
    and f: "updateStatusWithRetry E (upd_status (finishBatch rs t2) v1) w4 = (Inr a, w1)"
    using run unfolding processDiscoveryBatch_def Let_def sv
    by (auto simp: Cons withStats_def elim!: bindR_InrE split: if_splits prod.splits)
  have "mine (markBatch ?idxs t st) v1" using update_stored [OF m v] by simp
  then have "status_of w1 = Some (finishBatch rs t2 (markBatch ?idxs t st))" using update_stored [OF f] by simp
  then show ?thesis using carried_trans carried_steps by blast
qed

text \<open>What initialisation stores: an entry for each candidate and for each filtered request, and the invalid requests.\<close>

lemma newProgress_names:
  assumes "foldR (newProgress E) bs ps w = (Inr qs, w1)"
  shows "map bp_name qs = map bp_name ps @ map bk_name bs"
  using assms
proof (induction bs arbitrary: ps w)
  case (Cons b bs)
  then obtain ps1 w2 where n: "newProgress E b ps w = (Inr ps1, w2)" and rest: "foldR (newProgress E) bs ps1 w2 = (Inr qs, w1)"
    by (auto elim!: bindR_InrE)
  have "map bp_name ps1 = map bp_name ps @ [bk_name b]" using n by (auto simp: newProgress_def elim!: bindR_InrE)
  then show ?case using Cons.IH [OF rest] by simp
qed simp

text \<open>The status a successful initialisation stores for the spec \<open>sp\<close> and the listed backups \<open>bs\<close>.\<close>

definition initialReport :: "vmbd_spec \<Rightarrow> backup list \<Rightarrow> time \<Rightarrow> time \<Rightarrow> classified \<Rightarrow> vmbd_status \<Rightarrow> bool" where
  "initialReport sp bs start stop cl st \<longleftrightarrow>
     map bp_name (vs_progress st) = map bk_name (sort_candidates E (filter (isCandidate sp start stop) bs)) @ map bp_name (cl_filtered cl)
   \<and> vs_invalidBackups st = (if RequestedBackups sp \<noteq> [] then cl_invalid cl else []) \<and> (\<exists>t. parseTimeRange sp t = Inr (start, stop))
   \<and> vs_stats st \<noteq> None \<and> progress_inv st"

lemma classified_filtered:
  assumes "foldR (classifyStep E sp bs) ns c w = (Inr c1, w1)"
    and "(\<forall>p\<in>set (cl_filtered c). bp_status p = StatusSkipped) \<and> 0 \<le> cl_missing c"
  shows "(\<forall>p\<in>set (cl_filtered c1). bp_status p = StatusSkipped) \<and> 0 \<le> cl_missing c1"
  using assms
proof (induction ns arbitrary: c w)
  case (Cons n ns)
  then obtain c2 w2 where s: "classifyStep E sp bs n c w = (Inr c2, w2)" and rest: "foldR (classifyStep E sp bs) ns c2 w2 = (Inr c1, w1)"
    by (auto elim!: bindR_InrE)
  have "(\<forall>p\<in>set (cl_filtered c2). bp_status p = StatusSkipped) \<and> 0 \<le> cl_missing c2"
    using s Cons.prems(2) by (auto simp: classifyStep_def elim!: bindR_InrE split: prod.splits requested_class.splits)
  then show ?case by (rule Cons.IH [OF rest])
qed simp

lemma newProgress_new:
  "foldR (newProgress E) bs ps w = (Inr qs, w1) \<Longrightarrow> \<forall>p\<in>set ps. bp_status p = StatusNew \<Longrightarrow> \<forall>p\<in>set qs. bp_status p = StatusNew"
proof (induction bs arbitrary: ps w)
  case (Cons b bs)
  then obtain ps1 w2 where n: "newProgress E b ps w = (Inr ps1, w2)" and rest: "foldR (newProgress E) bs ps1 w2 = (Inr qs, w1)"
    by (auto elim!: bindR_InrE)
  have "\<forall>p\<in>set ps1. bp_status p = StatusNew" using n Cons.prems(2) by (auto simp: newProgress_def elim!: bindR_InrE)
  then show ?case by (rule Cons.IH [OF rest])
qed simp

lemma initialised:
  assumes run: "initializeDiscovery E v w = (Inr b, w1)" and v: "mine st v"
  shows "\<exists>bs wl start stop cl wc wd st1. list_backups E (OADPNamespace E) w = (Inr bs, wl)
    \<and> classifyRequestedBackups E (vmbd_spec v) bs wc = (Inr cl, wd) \<and> status_of w1 = Some st1
    \<and> initialReport (vmbd_spec v) bs start stop cl st1 \<and> vs_phase st1 = vs_phase st"
proof -
  let ?sp = "vmbd_spec v"
  obtain bs wl where l: "list_backups E (OADPNamespace E) w = (Inr bs, wl)"
    using run by (auto simp: initializeDiscovery_def elim!: bindR_InrE split: prod.splits sum.splits)
  let ?G = "\<lambda>tnow. case parseTimeRange ?sp tnow of
           Inl e \<Rightarrow> failR e
         | Inr (start, stop) \<Rightarrow>
            (let sp = ?sp; candidates = sort_candidates E (filter (isCandidate sp start stop) bs)
             in bindR (classifyRequestedBackups E sp bs) (\<lambda>cl.
                bindR (foldR (newProgress E) candidates []) (\<lambda>ps.
                bindR (nowR E) (\<lambda>t.
                bindR (updateStatusWithRetry E (upd_status (initialStatus sp ps cl t) v)) (\<lambda>_.
                  returnR True)))))"
  have "bindR (if EndTime ?sp = None then nowR E else returnR 0) ?G wl = (Inr b, w1)"
    using run l by (simp add: initializeDiscovery_def)
  then obtain tnow wt where rest: "?G tnow wt = (Inr b, w1)" by (rule bindR_InrE)
  then obtain start stop where p: "parseTimeRange ?sp tnow = Inr (start, stop)"
    by (cases "parseTimeRange ?sp tnow") auto
  let ?cands = "sort_candidates E (filter (isCandidate ?sp start stop) bs)"
  obtain cl wd ps we t wf a where c: "classifyRequestedBackups E ?sp bs wt = (Inr cl, wd)" and n: "foldR (newProgress E) ?cands [] wd = (Inr ps, we)"
    and u: "updateStatusWithRetry E (upd_status (initialStatus ?sp ps cl t) v) wf = (Inr a, w1)"
    using rest unfolding p Let_def by (auto elim!: bindR_InrE)
  have stored: "status_of w1 = Some (initialStatus ?sp ps cl t st)" using update_stored [OF u v] by simp
  have names: "map bp_name ps = map bk_name ?cands" using newProgress_names [OF n] by simp
  have "(\<forall>p\<in>set (cl_filtered cl). bp_status p = StatusSkipped) \<and> 0 \<le> cl_missing cl"
    using c classified_filtered by (fastforce simp: classifyRequestedBackups_def split: if_splits)
  then have "progress_inv (initialStatus ?sp ps cl t st)" using newProgress_new [OF n] by (auto intro: initialStatus_inv)
  then have "initialReport ?sp bs start stop cl (initialStatus ?sp ps cl t st)"
    using names p by (auto simp: initialReport_def initialStatus_def Let_def)
  moreover have "vs_phase (initialStatus ?sp ps cl t st) = vs_phase st" by (simp add: initialStatus_def Let_def)
  ultimately show ?thesis using l c stored by blast
qed

end

section \<open>The end of a discovery\<close>

text \<open>The spec and the generation of the object: every read shows them, and no call of the controller changes them. A user may
  change both between the worlds the lemmas speak of.\<close>

locale versioned_server = reliable_server E status_of key
  for E :: "'w vmbd_env" and status_of :: "'w \<Rightarrow> vmbd_status option" and key :: namespaced_name +
  fixes spec_of :: "'w \<Rightarrow> vmbd_spec" and gen_of :: "'w \<Rightarrow> int"
  assumes get_version: "get_vmbd E key w = (Inr v, w1) \<Longrightarrow> vmbd_spec v = spec_of w \<and> om_generation (vmbd_meta v) = gen_of w"
    and version_calls: "quiet (\<lambda>w. (spec_of w, gen_of w)) (get_vmbd E k)" "quiet (\<lambda>w. (spec_of w, gen_of w)) (update_vmbd_status E v)"
      "quiet (\<lambda>w. (spec_of w, gen_of w)) (get_backup E k)" "quiet (\<lambda>w. (spec_of w, gen_of w)) (time_now E)"
      "contains_vm E = Some rd \<Longrightarrow> quiet (\<lambda>w. (spec_of w, gen_of w)) (rd b vm ns)"
begin

abbreviation version :: "'w \<Rightarrow> vmbd_spec \<times> int" where
  "version \<equiv> \<lambda>w. (spec_of w, gen_of w)"

lemma quiet_now: "quiet version (nowR E)"
  unfolding nowR_def [abs_def] by (rule quiet_then [OF version_calls(4)]) (simp add: quiet_value)

lemma quiet_attempts: "quiet version (updateStatusAttempts E n caller v)"
proof (induction n arbitrary: v)
  case (Suc n)
  show ?case
  proof (rule quietI)
    fix w r w1
    assume run: "updateStatusAttempts E (Suc n) caller v w = (r, w1)"
    obtain u w2 where u: "update_vmbd_status E v w = (u, w2)" by fastforce
    obtain g w3 where g: "get_vmbd E (key_of (vmbd_meta v)) w2 = (g, w3)" by fastforce
    note same = quietD [OF version_calls(2) u] quietD [OF version_calls(1) g]
    show "version w1 = version w"
      using run u g same quietD [OF Suc.IH] by (cases u; cases g) (auto split: if_splits)
  qed
qed (simp add: quiet_def)

lemma quiet_update: "quiet version (updateStatusWithRetry E v)"
  unfolding updateStatusWithRetry_def by (rule quiet_attempts)

lemma quiet_runBatch: "quiet version (runBatch E sp ps idxs gs results)"
proof (induction gs arbitrary: results)
  case (Cons g gs)
  have "quiet version (checkBackup E sp name)" for name
  proof (rule quietI)
    fix w r w1
    assume "checkBackup E sp name w = (r, w1)"
    then show "version w1 = version w"
      by (auto simp: checkBackup_def split: option.splits prod.splits sum.splits bool.splits if_splits
          dest!: quietD [OF version_calls(3)] quietD [OF version_calls(5)])
  qed
  then show ?case
    using Cons.IH unfolding quiet_def by (fastforce simp: Let_def split: prod.splits)
qed (simp add: quiet_def)

lemma quiet_case: "quiet f m \<Longrightarrow> (\<And>x. quiet f (g x)) \<Longrightarrow> quiet f (\<lambda>w. case m w of (x, w1) \<Rightarrow> g x w1)"
  unfolding quiet_def by (fastforce split: prod.splits)

lemma quiet_process: "quiet version (processDiscoveryBatch E v)"
proof -
  have stats: "quiet version (withStats v m)" if "quiet version m" for m :: "('w, bool) io"
    using that by (simp add: withStats_def)
  show ?thesis
    unfolding processDiscoveryBatch_def Let_def
    by (auto intro!: quiet_bind quiet_now stats quiet_update quiet_case quiet_runBatch split: list.split)
qed

text \<open>A reconciliation in the middle of a discovery.\<close>

lemma batch_carries:
  assumes st: "status_of w = Some st" "progress_inv st" "vs_stats st = Some s" "vs_phase st = VMBDPhaseInProgress"
    and busy: "ds_pending s > 0 \<or> ds_inProgress s > 0"
  shows "\<exists>w1 st1. Reconcile E key w = (Inr True, w1) \<and> status_of w1 = Some st1 \<and> progress_inv st1 \<and> vs_stats st1 \<noteq> None
     \<and> vs_phase st1 = VMBDPhaseInProgress \<and> work (vs_progress st1) < work (vs_progress st) \<and> carried st st1 \<and> version w1 = version w"
proof -
  obtain w1 st1 where r: "Reconcile E key w = (Inr True, w1)" "status_of w1 = Some st1" "progress_inv st1" "vs_stats st1 \<noteq> None"
    "vs_phase st1 = VMBDPhaseInProgress" "work (vs_progress st1) < work (vs_progress st)"
    using Reconcile_batch [OF assms] by blast
  obtain v wa where g: "get_vmbd E key w = (Inr v, wa)" "status_of wa = Some st" "mine st v"
    using get_runs [OF st(1)] by blast
  obtain u wb where h: "get_vmbd E key wa = (Inr u, wb)" "status_of wb = Some st" "mine st u"
    using get_runs [OF g(2)] by blast
  have "selectStep v = StepBatch" using select_batch [of v s] g(3) st busy by (simp add: mine_def)
  then have p: "processDiscoveryBatch E u wb = (Inr True, w1)" using r(1) g h by (simp add: Reconcile_def runStep_def)
  have "carried st st1" using process_carries [OF p h(3,2)] r(2) by auto
  moreover have "version w1 = version w"
    using quietD [OF quiet_process p] quietD [OF version_calls(1) h(1)] quietD [OF version_calls(1) g(1)] by simp
  ultimately show ?thesis using r by blast
qed

text \<open>The last one: what it reports and which generation it records.\<close>

definition finalReport :: "vmbd_status \<Rightarrow> vmbd_spec \<Rightarrow> int \<Rightarrow> vmbd_status \<Rightarrow> bool" where
  "finalReport st sp gen st1 \<longleftrightarrow> isDiscoveryComplete st1 \<and> vs_observedGeneration st1 = gen \<and> vs_progress st1 = vs_progress st
     \<and> vs_validBackups st1 = validOf (vs_progress st)
     \<and> vs_invalidBackups st1 = allInvalidBackups (OADPNamespace E) (RequestedBackups sp) (vs_progress st) (vs_invalidBackups st)"

lemma finalize_reports:
  assumes st: "status_of w = Some st" "vs_stats st = Some s" "vs_phase st = VMBDPhaseInProgress"
    and idle: "ds_pending s = 0" "ds_inProgress s = 0"
  shows "\<exists>w1 st1. Reconcile E key w = (Inr False, w1) \<and> status_of w1 = Some st1 \<and> finalReport st (spec_of w) (gen_of w) st1
     \<and> version w1 = version w"
proof -
  obtain v w1 where g: "get_vmbd E key w = (Inr v, w1)" "status_of w1 = Some st" "mine st v"
    using get_runs [OF st(1)] by blast
  obtain u w2 where h: "get_vmbd E key w1 = (Inr u, w2)" "status_of w2 = Some st" "mine st u"
    using get_runs [OF g(2)] by blast
  have sel: "selectStep v = StepFinalize" using select_batch [of v s] g(3) st idle by (simp add: mine_def)
  obtain t w3 where t: "nowR E w2 = (Inr t, w3)" "status_of w3 = Some st" using clock_runs h(2) by metis
  obtain t1 w4 where t1: "nowR E w3 = (Inr t1, w4)" "status_of w4 = Some st" using clock_runs t(2) by metis
  obtain f w5 where f: "get_vmbd E key w4 = (Inr f, w5)" "status_of w5 = Some st" "mine st f"
    using get_runs [OF t1(2)] by blast
  obtain t2 w6 where t2: "nowR E w5 = (Inr t2, w6)" "status_of w6 = Some st" using clock_runs f(2) by metis
  let ?iv = "allInvalidBackups (OADPNamespace E) (RequestedBackups (vmbd_spec u)) (vs_progress st) (vs_invalidBackups st)"
  let ?f = "finalStatus E (validOf (vs_progress st)) ?iv (om_generation (vmbd_meta f)) t t2"
  obtain a w7 where a: "updateStatusWithRetry E (upd_status ?f f) w6 = (Inr a, w7)" "status_of w7 = Some (?f st)"
    using update_runs [of "upd_status ?f f" w6] f(3) t2(2) by (auto simp: mine_def)
  have "finalizeDiscoveryProcess E u w2 = (Inr False, w7)"
    unfolding finalizeDiscoveryProcess_def Let_def
    using t t1 f t2 a h(3) st(2) by (simp add: withStats_def mine_def)
  then have run: "Reconcile E key w = (Inr False, w7)" using g h sel by (simp add: Reconcile_def runStep_def)
  note gets = version_calls(1) [THEN quietD] quiet_now [THEN quietD]
  have "version w1 = version w" "version w4 = version w" "version w7 = version w"
    using gets(1) [OF g(1)] gets(1) [OF h(1)] gets(2) [OF t(1)] gets(2) [OF t1(1)] gets(1) [OF f(1)] gets(2) [OF t2(1)]
      quietD [OF quiet_update a(1)] by simp_all
  then have "vmbd_spec u = spec_of w" "om_generation (vmbd_meta f) = gen_of w" "version w7 = version w"
    using get_version [OF h(1)] get_version [OF f(1)] by simp_all
  then show ?thesis
    using run a(2) st(2) idle by (auto simp: finalReport_def finalStatus_def addStats_def isDiscoveryComplete_def)
qed

lemma complete_rests:
  assumes "status_of w = Some st" and "isDiscoveryComplete st" and "vs_observedGeneration st = gen_of w"
  shows "\<exists>w1. Reconcile E key w = (Inr False, w1) \<and> status_of w1 = Some st"
proof -
  obtain v w1 where g: "get_vmbd E key w = (Inr v, w1)" "status_of w1 = Some st" "mine st v"
    using get_runs [OF assms(1)] by blast
  obtain u w2 where h: "get_vmbd E key w1 = (Inr u, w2)" "status_of w2 = Some st" "mine st u"
    using get_runs [OF g(2)] by blast
  have gen: "om_generation (vmbd_meta v) = gen_of w" "om_generation (vmbd_meta u) = gen_of w"
    using get_version [OF g(1)] get_version [OF h(1)] quietD [OF version_calls(1) g(1)] by auto
  have "vs_phase st \<noteq> VMBDPhaseUnset" "vs_stats st \<noteq> None"
    using assms(2) by (auto simp: isDiscoveryComplete_def split: option.splits)
  then have "selectStep v = StepCheckSpec" using g(3) gen(1) assms(2,3) by (simp add: selectStep_def mine_def Let_def)
  moreover have "checkForSpecChanges E u w2 = (Inr False, w2)" using h(3) gen(2) assms(3) by (simp add: checkForSpecChanges_def mine_def)
  ultimately show ?thesis using g(1) h by (auto simp: Reconcile_def runStep_def)
qed

lemma discovery_reports:
  assumes "status_of w = Some st" "progress_inv st" "vs_stats st \<noteq> None" "vs_phase st = VMBDPhaseInProgress"
  shows "\<exists>n st0 st1. n \<le> work (vs_progress st) + 1 \<and> status_of (reconcileRounds E key n w) = Some st1 \<and> carried st st0
     \<and> finalReport st0 (spec_of w) (gen_of w) st1 \<and> version (reconcileRounds E key n w) = version w"
  using assms
proof (induction "work (vs_progress st)" arbitrary: w st rule: less_induct)
  case less
  obtain s where s: "vs_stats st = Some s" using less.prems(3) by blast
  have nn: "0 \<le> ds_pending s" "0 \<le> ds_inProgress s"
    using less.prems(2) s by (auto simp: progress_inv_def stats_match_def)
  show ?case
  proof (cases "ds_pending s > 0 \<or> ds_inProgress s > 0")
    case True
    then obtain w1 st1 where r: "Reconcile E key w = (Inr True, w1)" "status_of w1 = Some st1" "progress_inv st1" "vs_stats st1 \<noteq> None"
      "vs_phase st1 = VMBDPhaseInProgress" "work (vs_progress st1) < work (vs_progress st)" "carried st st1" "version w1 = version w"
      using batch_carries [OF less.prems(1,2) s less.prems(4)] by blast
    then obtain n sa sb where n: "n \<le> work (vs_progress st1) + 1" "status_of (reconcileRounds E key n w1) = Some sb" "carried st1 sa"
      "finalReport sa (spec_of w1) (gen_of w1) sb" "version (reconcileRounds E key n w1) = version w1"
      using less.hyps [of st1 w1] by blast
    have "reconcileRounds E key (Suc n) w = reconcileRounds E key n w1" using r(1) by (simp add: reconcileRounds_def funpow_Suc_right del: funpow.simps)
    then show ?thesis
      using n r(6,8) carried_trans [OF r(7) n(3)] by (intro exI [of _ "Suc n"] exI [of _ sa] exI [of _ sb]) simp
  next
    case False
    then have "ds_pending s = 0" "ds_inProgress s = 0" using nn by simp_all
    then obtain w1 st1 where "Reconcile E key w = (Inr False, w1)" "status_of w1 = Some st1" "finalReport st (spec_of w) (gen_of w) st1"
      "version w1 = version w"
      using finalize_reports [OF less.prems(1) s less.prems(4)] by blast
    then show ?thesis
      by (intro exI [of _ 1] exI [of _ st] exI [of _ st1]) (simp add: reconcileRounds_def carried_refl)
  qed
qed

text \<open>The whole way from the initialisation.\<close>

lemma discovery_from_start:
  assumes init: "initializeDiscovery E v w0 = (Inr b, w1)" "key_of (vmbd_meta v) = key" "vs_phase (vmbd_status v) = VMBDPhaseInProgress"
    and w: "status_of w = status_of w1"
  shows "\<exists>bs wl start stop cl wc wd sta n st0 st1. list_backups E (OADPNamespace E) w0 = (Inr bs, wl)
    \<and> classifyRequestedBackups E (vmbd_spec v) bs wc = (Inr cl, wd) \<and> initialReport (vmbd_spec v) bs start stop cl sta
    \<and> carried sta st0 \<and> status_of (reconcileRounds E key n w) = Some st1 \<and> finalReport st0 (spec_of w) (gen_of w) st1
    \<and> version (reconcileRounds E key n w) = version w"
proof -
  have "mine (vmbd_status v) v" using init(2) by (simp add: mine_def)
  then obtain bs wl start stop cl wc wd sta where i: "list_backups E (OADPNamespace E) w0 = (Inr bs, wl)"
    "classifyRequestedBackups E (vmbd_spec v) bs wc = (Inr cl, wd)" "status_of w1 = Some sta"
    "initialReport (vmbd_spec v) bs start stop cl sta" "vs_phase sta = VMBDPhaseInProgress"
    using initialised [OF init(1)] init(3) by metis
  have "status_of w = Some sta" using w i(3) by simp
  then obtain n st0 st1 where "status_of (reconcileRounds E key n w) = Some st1" "carried sta st0"
    "finalReport st0 (spec_of w) (gen_of w) st1" "version (reconcileRounds E key n w) = version w"
    using discovery_reports [of w sta] i(4,5) unfolding initialReport_def by blast
  then show ?thesis using i(1,2,4) by blast
qed

end

lemma classified_names:
  assumes "classifyRequestedBackups E sp bs w = (Inr cl, w1)" and "set (map_order E (remdups (RequestedBackups sp))) = set (RequestedBackups sp)"
  shows "bp_name ` set (cl_filtered cl) = {n \<in> set (RequestedBackups sp). classOf sp bs n = Filtered}"
    and "ib_name ` set (cl_invalid cl) = {n \<in> set (RequestedBackups sp). classOf sp bs n \<in> {Missing, AsyncIncomplete}}"
proof -
  let ?ns = "map_order E (remdups (RequestedBackups sp))"
  let ?c0 = "\<lparr>cl_invalid = [], cl_missing = 0, cl_filtered = []\<rparr>"
  have "bp_name ` set (cl_filtered cl) = {n \<in> set (RequestedBackups sp). classOf sp bs n = Filtered}
    \<and> ib_name ` set (cl_invalid cl) = {n \<in> set (RequestedBackups sp). classOf sp bs n \<in> {Missing, AsyncIncomplete}}"
  proof (cases "RequestedBackups sp = []")
    case True
    then show ?thesis using assms(1) by (auto simp: classifyRequestedBackups_def)
  next
    case False
    then have "collected sp bs ?ns ?c0 cl"
      using assms(1) classify_fold_collected [of E sp bs ?ns ?c0 w] by (auto simp: classifyRequestedBackups_def)
    then have "set (map bp_name (cl_filtered cl)) = {n \<in> set ?ns. classOf sp bs n = Filtered}"
      "set (map ib_name (cl_invalid cl)) = {n \<in> set ?ns. classOf sp bs n \<in> {Missing, AsyncIncomplete}}"
      unfolding collected_def by auto
    then show ?thesis unfolding assms(2) by simp
  qed
  then show "bp_name ` set (cl_filtered cl) = {n \<in> set (RequestedBackups sp). classOf sp bs n = Filtered}"
    "ib_name ` set (cl_invalid cl) = {n \<in> set (RequestedBackups sp). classOf sp bs n \<in> {Missing, AsyncIncomplete}}" by blast+
qed

lemma carried_names: "carried st st1 \<Longrightarrow> bp_name ` set (vs_progress st1) = bp_name ` set (vs_progress st)"
proof -
  assume "carried st st1"
  then have "vb_name ` set (map bp_info (vs_progress st1)) = vb_name ` set (map bp_info (vs_progress st))" by (simp add: carried_def)
  then show ?thesis by (simp add: image_image)
qed

context versioned_server
begin

lemma spec_change_hidden:
  assumes init: "initializeDiscovery E v w0 = (Inr b, w1)" "key_of (vmbd_meta v) = key" "vs_phase (vmbd_status v) = VMBDPhaseInProgress"
    and w: "status_of w = status_of w1" and gen: "om_generation (vmbd_meta v) < gen_of w"
    and sorted: "\<forall>xs. set (sort_candidates E xs) = set xs" and order: "\<forall>ns. set (map_order E ns) = set ns"
  shows "\<exists>n st1 bs wl start stop. status_of (reconcileRounds E key n w) = Some st1 \<and> isDiscoveryComplete st1
     \<and> vs_observedGeneration st1 = gen_of w \<and> vs_observedGeneration st1 \<noteq> om_generation (vmbd_meta v)
     \<and> list_backups E (OADPNamespace E) w0 = (Inr bs, wl)
     \<and> (\<exists>t. parseTimeRange (vmbd_spec v) t = Inr (start, stop))
     \<and> bp_name ` set (vs_progress st1) = bk_name ` {c \<in> set bs. isCandidate (vmbd_spec v) start stop c}
         \<union> {m \<in> set (RequestedBackups (vmbd_spec v)). classOf (vmbd_spec v) bs m = Filtered}
     \<and> vs_validBackups st1 = validOf (vs_progress st1)
     \<and> (\<exists>w2. Reconcile E key (reconcileRounds E key n w) = (Inr False, w2) \<and> status_of w2 = Some st1)"
proof -
  obtain bs wl start stop cl wc wd sta n st0 st1 where l: "list_backups E (OADPNamespace E) w0 = (Inr bs, wl)"
    and cl: "classifyRequestedBackups E (vmbd_spec v) bs wc = (Inr cl, wd)" and i: "initialReport (vmbd_spec v) bs start stop cl sta"
    and c: "carried sta st0" and st1: "status_of (reconcileRounds E key n w) = Some st1"
    and f: "finalReport st0 (spec_of w) (gen_of w) st1" and ver: "version (reconcileRounds E key n w) = version w"
    using discovery_from_start [OF init w] by blast
  have "set (map bp_name (vs_progress sta)) = bk_name ` set (filter (isCandidate (vmbd_spec v) start stop) bs) \<union> bp_name ` set (cl_filtered cl)"
    using i sorted by (simp add: initialReport_def)
  then have "bp_name ` set (vs_progress st1) = bk_name ` {c \<in> set bs. isCandidate (vmbd_spec v) start stop c}
      \<union> {m \<in> set (RequestedBackups (vmbd_spec v)). classOf (vmbd_spec v) bs m = Filtered}"
    using carried_names [OF c] f classified_names(1) [OF cl] order by (simp add: finalReport_def)
  moreover have "isDiscoveryComplete st1" "vs_observedGeneration st1 = gen_of w" "vs_observedGeneration st1 \<noteq> om_generation (vmbd_meta v)"
    "vs_validBackups st1 = validOf (vs_progress st1)"
    using f gen by (simp_all add: finalReport_def)
  moreover have "\<exists>w2. Reconcile E key (reconcileRounds E key n w) = (Inr False, w2) \<and> status_of w2 = Some st1"
    using complete_rests [OF st1] f ver by (simp add: finalReport_def)
  ultimately show ?thesis using l st1 i unfolding initialReport_def
    by (intro exI [of _ n] exI [of _ st1] exI [of _ bs] exI [of _ wl] exI [of _ start] exI [of _ stop]) simp
qed

lemma unfinished_reported:
  assumes init: "initializeDiscovery E v w0 = (Inr b, w1)" "key_of (vmbd_meta v) = key" "vs_phase (vmbd_status v) = VMBDPhaseInProgress"
    and spec: "spec_of w1 = vmbd_spec v" and l: "list_backups E (OADPNamespace E) w0 = (Inr bs, wl)"
    and n: "n \<in> set (RequestedBackups (vmbd_spec v))" "\<exists>c\<in>set bs. bk_name c = n"
    and unfinished: "\<forall>c\<in>set bs. bk_name c = n \<longrightarrow> bk_phase c \<noteq> ''Completed'' \<and> \<not> BackupAsyncOperationsIncomplete (Some c)
       \<and> ValidateVMInBackupSpec c (vm_object (vmbd_spec v))"
    and sorted: "\<forall>xs. set (sort_candidates E xs) = set xs" and order: "\<forall>ns. set (map_order E ns) = set ns"
  shows "\<exists>k st1. status_of (reconcileRounds E key k w1) = Some st1 \<and> isDiscoveryComplete st1
     \<and> \<lparr>ib_info = plain_info n (OADPNamespace E) None, ib_reason = ''Backup not found in cluster''\<rparr> \<in> set (vs_invalidBackups st1)"
proof -
  obtain bs1 wl1 start stop cl wc wd sta k st0 st1 where l1: "list_backups E (OADPNamespace E) w0 = (Inr bs1, wl1)"
    and cl1: "classifyRequestedBackups E (vmbd_spec v) bs1 wc = (Inr cl, wd)" and i1: "initialReport (vmbd_spec v) bs1 start stop cl sta"
    and c: "carried sta st0" and st1: "status_of (reconcileRounds E key k w1) = Some st1"
    and f: "finalReport st0 (spec_of w1) (gen_of w1) st1"
    using discovery_from_start [OF init refl] by blast
  have "bs1 = bs" using l1 l by simp
  note cl = cl1 [unfolded this] and i = i1 [unfolded this]
  obtain c where "find (\<lambda>c. bk_name c = n) (rev bs) = Some c" using n(2)
    by (cases "find (\<lambda>c. bk_name c = n) (rev bs)") (auto simp: find_None_iff)
  then have cand: "classOf (vmbd_spec v) bs n = Candidate"
    using unfinished find_Some_in by (fastforce simp: classOf_def requestedStatus_def classifyBackup_def)
  have "set (map bp_name (vs_progress sta)) = bk_name ` set (filter (isCandidate (vmbd_spec v) start stop) bs) \<union> bp_name ` set (cl_filtered cl)"
    using i sorted by (simp add: initialReport_def)
  moreover have "n \<notin> bk_name ` set (filter (isCandidate (vmbd_spec v) start stop) bs)" using unfinished by (auto simp: isCandidate_def)
  moreover have "n \<notin> bp_name ` set (cl_filtered cl)" "n \<notin> ib_name ` set (cl_invalid cl)"
    using classified_names [OF cl] order cand by auto
  ultimately have "n \<notin> bp_name ` set (vs_progress st0)" "n \<notin> ib_name ` set (vs_invalidBackups st0)"
    using carried_names [OF c] c i n(1) by (auto simp: carried_def initialReport_def)
  then have "\<lparr>ib_info = plain_info n (OADPNamespace E) None, ib_reason = ''Backup not found in cluster''\<rparr> \<in> set (vs_invalidBackups st1)"
    using f n(1) spec by (force simp: finalReport_def allInvalidBackups_def Let_def)
  moreover have "isDiscoveryComplete st1" using f by (simp add: finalReport_def)
  ultimately show ?thesis using st1 by blast
qed

end

definition ref_spec :: "ref_world \<Rightarrow> vmbd_spec" where
  "ref_spec w = vmbd_spec (the (rw_obj w))"

definition ref_gen :: "ref_world \<Rightarrow> int" where
  "ref_gen w = om_generation (vmbd_meta (the (rw_obj w)))"

interpretation refver: versioned_server "ref_env ns contents" "ref_status k" k ref_spec ref_gen for ns contents k
  by unfold_locales (auto simp: quiet_def ref_spec_def ref_gen_def ref_env_simps split: option.splits if_splits)

section \<open>Properties\<close>

text \<open>C26. A change of the spec while a discovery runs is lost. Whatever the spec and the generation become after the
  initialisation, on a server whose calls succeed the discovery ends with a report that is complete, records the new
  generation as observed and is made of entries that were chosen by the old spec only; the next reconciliation then takes
  the object as up to date and does nothing.\<close>

theorem finalisation_hides_spec_change:
  assumes "versioned_server E status_of key spec_of gen_of"
    and "initializeDiscovery E v w0 = (Inr b, w1)" and "key_of (vmbd_meta v) = key" and "vs_phase (vmbd_status v) = VMBDPhaseInProgress"
    and "status_of w = status_of w1" and "om_generation (vmbd_meta v) < gen_of w"
    and "\<forall>xs. set (sort_candidates E xs) = set xs" and "\<forall>ns. set (map_order E ns) = set ns"
  shows "\<exists>n st1 bs wl start stop. status_of (reconcileRounds E key n w) = Some st1 \<and> isDiscoveryComplete st1
     \<and> vs_observedGeneration st1 = gen_of w \<and> vs_observedGeneration st1 \<noteq> om_generation (vmbd_meta v)
     \<and> list_backups E (OADPNamespace E) w0 = (Inr bs, wl)
     \<and> (\<exists>t. parseTimeRange (vmbd_spec v) t = Inr (start, stop))
     \<and> bp_name ` set (vs_progress st1) = bk_name ` {c \<in> set bs. isCandidate (vmbd_spec v) start stop c}
         \<union> {m \<in> set (RequestedBackups (vmbd_spec v)). classOf (vmbd_spec v) bs m = Filtered}
     \<and> vs_validBackups st1 = validOf (vs_progress st1)
     \<and> (\<exists>w2. Reconcile E key (reconcileRounds E key n w) = (Inr False, w2) \<and> status_of w2 = Some st1)"
  by (rule versioned_server.spec_change_hidden [OF assms])

text \<open>The discovery of the witnesses: one backup, named \<open>b\<close>, that ended partially failed.\<close>

definition started :: "vmbd_spec \<Rightarrow> vmbd" where
  "started sp = \<lparr>vmbd_meta = empty_meta \<lparr>om_namespace := ''adp'', om_name := ''d'', om_generation := 1\<rparr>, vmbd_spec = sp,
     vmbd_status = empty_status \<lparr>vs_phase := VMBDPhaseInProgress\<rparr>\<rparr>"

definition started_world :: "vmbd_spec \<Rightarrow> ref_world" where
  "started_world sp = \<lparr>rw_obj = Some (started sp), rw_backups = [demo_backup], rw_clock = 0\<rparr>"

lemma set_insert_backup: "set (insert_backup b bs) = insert b (set bs)"
  by (induction bs) auto

lemma ref_orders:
  "\<forall>xs. set (sort_candidates (ref_env ns contents) xs) = set xs" "\<forall>xs. set (map_order (ref_env ns contents) xs) = set xs"
proof -
  have "set (foldr insert_backup xs []) = set xs" for xs by (induction xs) (simp_all add: set_insert_backup)
  then show "\<forall>xs. set (sort_candidates (ref_env ns contents) xs) = set xs" "\<forall>xs. set (map_order (ref_env ns contents) xs) = set xs"
    by (simp_all add: ref_env_def)
qed

lemma started_meta: "key_of (vmbd_meta (started sp)) = demo_key" "vs_phase (vmbd_status (started sp)) = VMBDPhaseInProgress"
  "om_generation (vmbd_meta (started sp)) = 1" "vmbd_spec (started sp) = sp"
  by (simp_all add: started_def key_of_def demo_key_def empty_meta_def)

definition requested_b :: vmbd_spec where
  "requested_b = demo_spec \<lparr>RequestedBackups := [''b'']\<rparr>"

definition initialised_world :: "vmbd_spec \<Rightarrow> ref_world" where
  "initialised_world sp = snd (initializeDiscovery (ref_env ''adp'' (\<lambda>b. True)) (started sp) (started_world sp))"

theorem finalisation_hides_spec_change_witness:
  "\<exists>n st1. ref_status demo_key (reconcileRounds (ref_env ''adp'' (\<lambda>b. True)) demo_key n
        ((initialised_world demo_spec) \<lparr>rw_obj := map_option (\<lambda>v. v \<lparr>vmbd_spec := requested_b, vmbd_meta := (vmbd_meta v) \<lparr>om_generation := 2\<rparr>\<rparr>)
            (rw_obj (initialised_world demo_spec))\<rparr>)) = Some st1
     \<and> vs_observedGeneration st1 = 2"
proof -
  let ?E = "ref_env ''adp'' (\<lambda>b. True)" and ?w1 = "initialised_world demo_spec"
  let ?w = "?w1 \<lparr>rw_obj := map_option (\<lambda>v. v \<lparr>vmbd_spec := requested_b, vmbd_meta := (vmbd_meta v) \<lparr>om_generation := 2\<rparr>\<rparr>) (rw_obj ?w1)\<rparr>"
  have ok: "fst (initializeDiscovery ?E (started demo_spec) (started_world demo_spec)) = Inr True" by code_simp
  then have run: "initializeDiscovery ?E (started demo_spec) (started_world demo_spec) = (Inr True, ?w1)"
    by (simp add: initialised_world_def prod_eq_iff)
  have obj: "case rw_obj ?w1 of None \<Rightarrow> False | Some v \<Rightarrow> True" by code_simp
  have same: "ref_status demo_key ?w = ref_status demo_key ?w1" and gen: "ref_gen ?w = 2"
    using obj by (auto simp: ref_status_def ref_gen_def key_of_def split: option.splits)
  show ?thesis
    using finalisation_hides_spec_change [OF refver.versioned_server_axioms run started_meta(1,2) same _ ref_orders] gen
    by (auto simp: started_meta(3))
qed

text \<open>C27. A requested backup that exists, includes the namespace of the VM and has no unfinished operations, but whose phase
  is not Completed, is reported as not found in the cluster: when the discovery initialises with such a backup in the list
  of the backups and the spec stays as it is, the discovery ends, on a server whose calls succeed, with a complete
  report whose invalid list holds the backup with that reason.\<close>

theorem unfinished_backup_reported_missing:
  assumes "versioned_server E status_of key spec_of gen_of"
    and "initializeDiscovery E v w0 = (Inr b, w1)" and "key_of (vmbd_meta v) = key" and "vs_phase (vmbd_status v) = VMBDPhaseInProgress"
    and "spec_of w1 = vmbd_spec v" and "list_backups E (OADPNamespace E) w0 = (Inr bs, wl)"
    and "n \<in> set (RequestedBackups (vmbd_spec v))" and "\<exists>c\<in>set bs. bk_name c = n"
    and "\<forall>c\<in>set bs. bk_name c = n \<longrightarrow> bk_phase c \<noteq> ''Completed'' \<and> \<not> BackupAsyncOperationsIncomplete (Some c)
       \<and> ValidateVMInBackupSpec c (vm_object (vmbd_spec v))"
    and "\<forall>xs. set (sort_candidates E xs) = set xs" and "\<forall>ns. set (map_order E ns) = set ns"
  shows "\<exists>k st1. status_of (reconcileRounds E key k w1) = Some st1 \<and> isDiscoveryComplete st1
     \<and> \<lparr>ib_info = plain_info n (OADPNamespace E) None, ib_reason = ''Backup not found in cluster''\<rparr> \<in> set (vs_invalidBackups st1)"
  by (rule versioned_server.unfinished_reported [OF assms])

theorem unfinished_backup_reported_missing_witness:
  "\<exists>k st1. ref_status demo_key (reconcileRounds (ref_env ''adp'' (\<lambda>b. True)) demo_key k (initialised_world requested_b)) = Some st1
     \<and> \<lparr>ib_info = plain_info ''b'' ''adp'' None, ib_reason = ''Backup not found in cluster''\<rparr> \<in> set (vs_invalidBackups st1)
     \<and> bk_name demo_backup = ''b'' \<and> bk_phase demo_backup = ''PartiallyFailed''"
proof -
  let ?E = "ref_env ''adp'' (\<lambda>b. True)" and ?w0 = "started_world requested_b"
  have ok: "fst (initializeDiscovery ?E (started requested_b) ?w0) = Inr True" by code_simp
  then have run: "initializeDiscovery ?E (started requested_b) ?w0 = (Inr True, initialised_world requested_b)"
    by (simp add: initialised_world_def prod_eq_iff)
  have "RequestedBackups (ref_spec (initialised_world requested_b)) = [''b'']
    \<and> VirtualMachineName (ref_spec (initialised_world requested_b)) = ''vm'' \<and> VirtualMachineNamespace (ref_spec (initialised_world requested_b)) = ''ns''
    \<and> StartTime (ref_spec (initialised_world requested_b)) = None \<and> EndTime (ref_spec (initialised_world requested_b)) = None" by code_simp
  then have spec: "ref_spec (initialised_world requested_b) = vmbd_spec (started requested_b)"
    by (simp add: started_meta(4) requested_b_def demo_spec_def)
  have bs: "list_backups ?E (OADPNamespace ?E) ?w0 = (Inr [demo_backup], ?w0)" by (simp add: ref_env_def started_world_def)
  have b: "bk_name demo_backup = ''b'' \<and> bk_phase demo_backup = ''PartiallyFailed'' \<and> \<not> BackupAsyncOperationsIncomplete (Some demo_backup)
      \<and> ValidateVMInBackupSpec demo_backup (vm_object requested_b)" by code_simp
  have "OADPNamespace ?E = ''adp''" by (simp add: ref_env_def)
  then show ?thesis
    using unfinished_backup_reported_missing [OF refver.versioned_server_axioms run started_meta(1,2) spec bs _ _ _ ref_orders, of "''b''"] b
    by (auto simp: started_meta(4) requested_b_def)
qed

end
