(* ===== verification/Spec2Isabelle.thy ===== *)
theory Spec2Isabelle
  imports Common_Functions Velero_Utils Sshd Discovery_Properties Startup Cleanup_Facts File_Server_Properties
    Backup_Reader_Facts Restore_Provenance Workflow_Completion Discovery_Outcome Credential_Facts
begin

text \<open>
  A verification development of \<open>oadp-vm-file-restore\<close>, a Kubernetes controller that makes files from Velero
  backups of KubeVirt virtual machines accessible. The program has two custom resources, each with a reconciler,
  the reader of backups both use, and the side container of the pod that serves the files:

  \<^item> A VirtualMachineBackupsDiscovery names a machine. Its reconciler
    (\<open>internal/controller/virtualmachinebackupsdiscovery_controller.go\<close>) classifies the backups, looks into them in
    batches of concurrent reads and publishes the valid ones in the status.
  \<^item> A VirtualMachineFileRestore refers to a discovery. Its reconciler
    (\<open>internal/controller/virtualmachinefilerestore_controller.go\<close>) finds the claims of the machine in those backups,
    creates one Velero restore per backup into a restore namespace, prepares credentials, starts a pod with an
    SSH and a FileBrowser sidecar that mounts the restored claims (\<open>fileserver_helpers.go\<close>,
    \<open>container_scripts.go\<close>), publishes how to reach it, and removes everything under two finalizers.
  \<^item> The reader (\<open>internal/velerohelpers\<close>) downloads resource lists and archives of backups.
  \<^item> The SSH sidecar runs every client command through a ForceCommand wrapper
    (\<open>containers/side-containers/sshd/oadp-sshd.go\<close>).
  \<^item> \<open>cmd/main.go\<close> builds the manager that calls the reconcilers on the events its watches let through.

  The two reconcilers share no memory: they meet on the API server, where the file restore reads the status the
  discovery wrote and is woken by the watches.

  \<^bold>\<open>Conventions.\<close> A Go struct is a record with the source's field names behind a short prefix, an enumeration a
  datatype, a string its bytes. A function that returns an error is a function into \<open>go_error + 'a\<close>; the
  text of the error and the status reason that \<open>errors.Is\<close> finds through wrapping are kept. Code that talks to the
  outside is of type \<open>('w, 'a) io\<close>: it takes a world and returns the result with the world after it, so
  that the order of calls and the effects of a call before a later error are part of the model. A panic is \<open>None\<close>.
  Integers are kept unbounded where the code only counts slices, and wrapped where it computes on them (\<open>itoa\<close> on 64
  bits, \<open>ParseUint\<close> on 32 bits, time stamps as nanoseconds). A Go map that is only looked up is an association list;
  where the code iterates over a map, the order is a parameter, assumed to be a permutation, and so is the order in
  which the goroutines of a batch finish.

  \<^bold>\<open>Parameters.\<close> The fields of \<open>vmbd_env\<close>, \<open>pvc_env\<close>, \<open>vmfr_env\<close>, \<open>restore_env\<close>, \<open>server_env\<close>, \<open>object_env\<close> and
  \<open>download_env\<close> stand for code outside the repository: calls on the API server, the clock, \<open>meta.SetStatusCondition\<close>
  and \<open>FindStatusCondition\<close>, key generation and random bytes, the parser of public keys, the HTTP
  download with gzip, tar and JSON decoding, the local time zone. What is relied on is stated as a locale.

  \<^bold>\<open>Theories, from the bottom.\<close>

  \<^item> \<open>Prelude\<close>: errors, the type of calls and its sequencing, list facts. \<open>Io_Logic\<close>: rules for the effect of sequences of calls.
    \<open>Go_Strings\<close>, \<open>Go_Json\<close>, \<open>Calendar\<close>, \<open>Flexible_Time\<close>, \<open>Exchange_Sort\<close>: the parts of the Go library and the loops on
    plain data that several components use (UTF-8, trimming, JSON printing, civil dates, the time type of the API in
    \<open>api/v1alpha1/types/time.go\<close>, the sorting loop). \<open>Kube\<close>: object metadata, constants and shared objects. \<open>Conditions\<close>: status conditions.
  \<^item> \<open>Common_Functions\<close> (\<open>internal/common/function\<close>): generated names are valid DNS labels of at most 63 bytes,
    for which inputs name generation panics, and generated secrets pass the validation of given ones.
  \<^item> \<open>Velero_Utils\<close> (\<open>backup_discovery_utils.go\<close>): namespace tests, resource search, number printing.
  \<^item> \<open>Backup_Reader\<close>, \<open>Backup_Reader_Facts\<close> (\<open>backup_discovery.go\<close>, \<open>errors.go\<close>, \<open>mock_backup_reader.go\<close>): both readers;
    the claims a discovery finds are those of the requested machine.
  \<^item> \<open>Discovery_Types\<close>, \<open>Discovery\<close>: the discovery resource and its reconciler, method by method.
    \<open>Discovery_Batch\<close>: the slots of a batch never collide, so its result does not depend on the schedule.
    \<open>Discovery_Control\<close>: the counters agree with the entries whatever fails. \<open>Discovery_Progress\<close>:
    each reconciliation reduces the work left. \<open>Discovery_Properties\<close>: the properties of the whole. \<open>Discovery_Outcome\<close>:
    a discovery followed from its initialisation to its final status, and the two cases in which that status misleads.
  \<^item> \<open>Restore_Types\<close>: the file restore resource. \<open>Restore_Discovery\<close>, \<open>Restore_Grouping\<close>: discovering claims, grouping
    them by claim, the verdict on availability. \<open>Restore_Velero\<close>, \<open>Restore_Velero_Facts\<close>: creating and
    following Velero restores. \<open>Restore_Provenance\<close>: discovery, grouping, reader and restores together; a claim a restore
    selects was found in the archive of that backup, and what becomes of a backup that cannot be read. \<open>Restore_Env\<close>, \<open>Restore_Namespace\<close>, \<open>Restore_Claims\<close>, \<open>Restore_Credentials\<close>,
    \<open>Restore_Cleanup\<close>: the objects of the restore namespace and the operations on them. \<open>Cleanup_Facts\<close>: the
    cleanup removes only what the file restore is responsible for, the access resources of a namespace only when no other
    file restore uses it; and after a cleanup that reported no error those objects are gone, the routes provided that the
    probe for the route API did not fail. A temporary namespace goes with all it holds. \<open>Credential_Facts\<close>: where secrets
    given by the user are found again.
  \<^item> \<open>Restore_Workflow\<close>: \<open>Reconcile\<close> with its stages. \<open>Workflow_Facts\<close>, \<open>Workflow_Lifecycle\<close>,
    \<open>Workflow_Progress\<close>, \<open>Workflow_Properties\<close>: the abstract machine of stages (phase, four conditions, reason) that
    every reconciliation refines, that its transitions end, and that no restore is let go in between.
    \<open>Workflow_Completion\<close>: a completed file restore went through the end of its Velero restores and the creation of its pod.
  \<^item> \<open>Container_Scripts\<close>, \<open>File_Server_Types\<close>, \<open>File_Server\<close>, \<open>File_Server_Create\<close>: the builders of pod, service and
    route and their creation. \<open>File_Server_Facts\<close>, \<open>File_Server_Properties\<close>: the pod is well formed and confined, the
    service selects exactly its pod. \<open>File_Server_Lifecycle\<close>: creating it keeps the contract of the workflow.
  \<^item> \<open>Watches\<close> (\<open>internal/predicate\<close>, both \<open>SetupWithManager\<close>) and \<open>Startup\<close> (\<open>cmd/main.go\<close>): which events reach which
    discovery and file restore, and that a started program serves one namespace.
  \<^item> \<open>Sshd\<close>: the wrapper executes nothing but the permitted commands, and reads quoted commands back.
  \<^item> \<open>Reference_Cluster\<close>: an executable cluster on which the contracts hold and the witnesses run.

  \<^bold>\<open>Interfaces.\<close> \<open>status_conditions\<close> is what setting and finding a condition promise. \<open>vmbd_server\<close> says what the API
  server keeps of a discovery, \<open>reliable_server\<close> adds that calls succeed. \<open>versioned_server\<close> the spec and the
  generation of the object. \<open>named_restores\<close>: restores that are created or listed have names; \<open>restore_server\<close> adds that a
  created restore is stored as sent. \<open>object_store\<close>: listing and deleting objects, and the file restores the server
  stores. \<open>secret_store\<close>: reading and listing secrets. \<open>owned_watch\<close>: a watch on
  created objects. \<open>backup_contents\<close>: a reader returns what was asked for. \<open>vmfr_api\<close>, \<open>vmfr_server\<close>, \<open>vmfr_run\<close>: the server
  seen by the restore workflow, with the creation of the file server as an operation that keeps the status; \<open>file_server\<close> gives
  them by sublocale, \<open>vmfr_run\<close> three times: for whole runs of the machine of stages, and cut at the two stages that no reconciliation
  jumps over. They are interpreted as \<open>refcond\<close>, \<open>refsrv\<close>, \<open>refver\<close>, \<open>refvelero\<close>, \<open>refserver\<close>, \<open>refstore\<close>, \<open>clusterSecrets\<close>, \<open>archive\<close>, \<open>velero\<close>, \<open>service\<close>,
  \<open>route\<close> and \<open>cluster\<close>: \<open>archive\<close> and the three watches on the definitions of the program, \<open>cluster\<close> on the program's
  creation of the file server over the reference cluster, \<open>clusterSecrets\<close> on the same cluster, the others on reference versions of the outside code.

  \<^bold>\<open>Loops.\<close> All loops of the program are structural or have a termination proof, so there is no fuel. The two
  statements about repeated reconciliation that bound it are about sequences of any length: the discovery completes after a
  number of rounds bounded by the entries left, and the stage of a file restore is constant from some round on, since
  every change goes up in a rank. Between two reconciliations of a file restore everything but its phase and conditions
  may change.

  \<^bold>\<open>Not modelled.\<close> Log output. Generated deep copies and scheme registration in \<open>api/v1alpha1\<close>: values are
  passed, so a copy is the identity. Parsing of the command line, and what the manager does between two
  reconciliations. The execution of the two embedded shell scripts, whose text is modelled. Helpers that only forward to a
  library (\<open>GetLogger\<close>, \<open>FormatSizeHumanReadable\<close>), and \<open>min\<close>, which only a log message uses. Test code. Interleaving of the two reconcilers on one object is not
  explored: each works on its own kind, and the file restore only reads the discovery.
\<close>

end
